(* ===== verification/Prelude.thy ===== *)
theory Prelude
  imports Main "HOL-Library.Word" "HOL-Library.AList"
begin

text \<open>
  Shared vocabulary of the development: the machine-integer types of the C++ code, the one
  exception type the code throws, the model of \<^verbatim>\<open>std::unordered_map\<close>, and the generic
  facts on lists, maps and words that the components share.
\<close>

section \<open>Types of the C++ code\<close>

text \<open>\<^verbatim>\<open>std::uint8_t\<close>, \<^verbatim>\<open>std::uint16_t\<close>, \<^verbatim>\<open>std::uint32_t\<close>, \<^verbatim>\<open>std::uint64_t\<close>; a
  \<^verbatim>\<open>std::int64_t\<close> is kept as the 64 bits of its two's complement image.\<close>

type_synonym u8 = "8 word"
type_synonym u16 = "16 word"
type_synonym u32 = "32 word"
type_synonym u64 = "64 word"
type_synonym i64 = "64 word"
type_synonym bytes = "u8 list"

text \<open>Every exception the library throws is a \<^verbatim>\<open>std::runtime_error\<close> with a message.\<close>

datatype exn = runtime_error string

section \<open>Collections of facts\<close>

named_theorems codec_intro \<open>composition rules of byte codecs\<close>
named_theorems safe_intro \<open>composition rules of in-bounds readers\<close>
named_theorems index_simps \<open>lookups after an index update\<close>
named_theorems engine_simps \<open>effects of engine operations on its fields\<close>

section \<open>\<^verbatim>\<open>std::unordered_map\<close>\<close>

text \<open>
  A hash map is an association list with distinct keys. \<open>find\<close> is \<^const>\<open>map_of\<close>,
  \<open>m[k] = v\<close> is \<^const>\<open>AList.update\<close>, \<open>erase\<close> is \<^const>\<open>AList.delete\<close>. The order of the
  list stands for the iteration order, which the standard leaves unspecified; the code
  sorts whatever it iterates over before the order could show.
\<close>

type_synonym ('k, 'v) umap = "('k \<times> 'v) list"

abbreviation um_find :: "('k, 'v) umap \<Rightarrow> 'k \<Rightarrow> 'v option" where
  "um_find m k \<equiv> map_of m k"

abbreviation um_put :: "'k \<Rightarrow> 'v \<Rightarrow> ('k, 'v) umap \<Rightarrow> ('k, 'v) umap" where
  "um_put k v m \<equiv> AList.update k v m"

abbreviation um_erase :: "'k \<Rightarrow> ('k, 'v) umap \<Rightarrow> ('k, 'v) umap" where
  "um_erase k m \<equiv> AList.delete k m"

abbreviation um_values :: "('k, 'v) umap \<Rightarrow> 'v list" where
  "um_values m \<equiv> List.map snd m"

definition um_ok :: "('k, 'v) umap \<Rightarrow> bool" where
  "um_ok m \<longleftrightarrow> distinct (List.map fst m)"

lemma um_find_put [simp]: "um_find (um_put k v m) k' = (if k' = k then Some v else um_find m k')"
  by (simp add: update_conv')

lemma um_find_erase [simp]: "um_find (um_erase k m) k' = (if k' = k then None else um_find m k')"
  by (simp add: delete_conv')

lemma um_ok_Nil [simp, intro]: "um_ok []"
  by (simp add: um_ok_def)

lemma um_ok_put [simp, intro]: "um_ok m \<Longrightarrow> um_ok (um_put k v m)"
  unfolding um_ok_def by (rule distinct_update)

lemma um_ok_erase [simp, intro]: "um_ok m \<Longrightarrow> um_ok (um_erase k m)"
  unfolding um_ok_def by (rule distinct_delete)

lemma um_ok_mem: "um_ok m \<Longrightarrow> (k, v) \<in> set m \<longleftrightarrow> um_find m k = Some v"
  by (auto simp: um_ok_def dest: map_of_SomeD)

lemma um_values_set: "um_ok m \<Longrightarrow> v \<in> set (um_values m) \<longleftrightarrow> (\<exists>k. um_find m k = Some v)"
  by (force simp: um_ok_mem [symmetric])

section \<open>Sorted vectors without duplicates\<close>

text \<open>The effect of \<^verbatim>\<open>std::sort\<close> followed by \<^verbatim>\<open>erase(unique(..))\<close>.\<close>

definition sort_unique :: "'a::linorder list \<Rightarrow> 'a list" where
  "sort_unique xs = remdups_adj (sort xs)"

lemma set_sort_unique [simp]: "set (sort_unique xs) = set xs"
  by (simp add: sort_unique_def)

lemma sorted_distinct_remdups_adj: "sorted xs \<Longrightarrow> sorted (remdups_adj xs) \<and> distinct (remdups_adj xs)"
  by (induction xs rule: remdups_adj.induct) (auto split: list.splits)

lemma sorted_sort_unique [simp]: "sorted (sort_unique xs)"
  by (simp add: sort_unique_def sorted_distinct_remdups_adj)

lemma distinct_sort_unique [simp]: "distinct (sort_unique xs)"
  by (simp add: sort_unique_def sorted_distinct_remdups_adj)

lemma sort_unique_eqI:
  "sorted xs \<Longrightarrow> distinct xs \<Longrightarrow> set xs = set ys \<Longrightarrow> sort_unique ys = xs"
  by (rule sorted_distinct_set_unique) simp_all

section \<open>Lists and words\<close>

lemma upt_4: "[0..<4] = [0, 1, 2, 3]"
  by (simp add: upt_rec)

lemma upt_8: "[0..<8] = [0, 1, 2, 3, 4, 5, 6, 7]"
  by (simp add: upt_rec)

text \<open>A \<^verbatim>\<open>char\<close> of a \<^verbatim>\<open>std::string\<close> is one byte of the buffer it is read from or written to.\<close>

definition byte_of_char :: "char \<Rightarrow> u8" where
  "byte_of_char c = of_nat (of_char c)"

definition char_of_byte :: "u8 \<Rightarrow> char" where
  "char_of_byte b = char_of (unat b)"

lemma char_of_byte_of_char [simp]: "char_of_byte (byte_of_char c) = c"
  by (simp add: byte_of_char_def char_of_byte_def unat_of_nat)

lemma byte_of_char_of_byte [simp]: "byte_of_char (char_of_byte b) = b"
  using unsigned_less [of b, where ?'a = nat]
  by (simp add: byte_of_char_def char_of_byte_def)

end
