(* ===== verification/Strong.thy ===== *)
theory Strong
  imports Prelude
begin

text \<open>
  \<^verbatim>\<open>include/stateindex/strong.hpp\<close>: strong identities and generations. Each is a 64-bit
  value whose tag, a phantom type parameter, keeps it apart from every other identity, as
  the template parameter does in C++. Zero is the null identity and the unset generation.
  The order is the unsigned order of the values. \<open>to_string\<close> goes through
  \<^verbatim>\<open>snprintf\<close> into a 20-byte buffer, so it keeps at most 19 digits.
\<close>

section \<open>Tags\<close>

datatype StateIdTag = StateIdTag
datatype StateRecordIdTag = StateRecordIdTag
datatype NamespaceIdTag = NamespaceIdTag
datatype OwnerIdTag = OwnerIdTag
datatype ProducerIdTag = ProducerIdTag
datatype WorkerIdTag = WorkerIdTag
datatype WorkerBootIdTag = WorkerBootIdTag
datatype NodeIdTag = NodeIdTag
datatype DeviceIdTag = DeviceIdTag
datatype MemoryDomainIdTag = MemoryDomainIdTag
datatype PlacementIdTag = PlacementIdTag
datatype ReplicaIdTag = ReplicaIdTag
datatype CompatibilityIdTag = CompatibilityIdTag
datatype ProvenanceIdTag = ProvenanceIdTag
datatype DependencyIdTag = DependencyIdTag
datatype QueryIdTag = QueryIdTag
datatype QueryPlanIdTag = QueryPlanIdTag
datatype ResultIdTag = ResultIdTag
datatype InvalidationIdTag = InvalidationIdTag
datatype TombstoneIdTag = TombstoneIdTag
datatype CoordinatorEpochTag = CoordinatorEpochTag
datatype StateGenerationTag = StateGenerationTag
datatype RecordGenerationTag = RecordGenerationTag
datatype OwnerGenerationTag = OwnerGenerationTag
datatype ProducerGenerationTag = ProducerGenerationTag
datatype WorkerGenerationTag = WorkerGenerationTag
datatype LocationGenerationTag = LocationGenerationTag
datatype PlacementGenerationTag = PlacementGenerationTag
datatype ReplicaGenerationTag = ReplicaGenerationTag
datatype CompatibilityGenerationTag = CompatibilityGenerationTag
datatype ProvenanceGenerationTag = ProvenanceGenerationTag
datatype DependencyGenerationTag = DependencyGenerationTag
datatype QueryGenerationTag = QueryGenerationTag
datatype ObservationGenerationTag = ObservationGenerationTag
datatype AttemptGenerationTag = AttemptGenerationTag
datatype DispatchGenerationTag = DispatchGenerationTag
datatype PolicyGenerationTag = PolicyGenerationTag

section \<open>Strong identities and generations\<close>

datatype 'tag StrongId = StrongId (id_value: u64)

datatype 'tag Generation = Generation (gen_value: u64)

definition null_id :: "'tag StrongId" where
  "null_id = StrongId 0"

definition unset_gen :: "'tag Generation" where
  "unset_gen = Generation 0"

definition id_is_null :: "'tag StrongId \<Rightarrow> bool" where
  "id_is_null i \<longleftrightarrow> id_value i = 0"

text \<open>\<^verbatim>\<open>explicit operator bool\<close>.\<close>

definition id_bool :: "'tag StrongId \<Rightarrow> bool" where
  "id_bool i \<longleftrightarrow> id_value i \<noteq> 0"

definition id_next :: "'tag StrongId \<Rightarrow> 'tag StrongId" where
  "id_next i = StrongId (id_value i + 1)"

definition is_set :: "'tag Generation \<Rightarrow> bool" where
  "is_set g \<longleftrightarrow> gen_value g \<noteq> 0"

definition gen_next :: "'tag Generation \<Rightarrow> 'tag Generation" where
  "gen_next g = Generation (gen_value g + 1)"

instantiation StrongId :: (type) linorder
begin

definition less_eq_StrongId :: "'a StrongId \<Rightarrow> 'a StrongId \<Rightarrow> bool" where
  "a \<le> b \<longleftrightarrow> id_value a \<le> id_value b"

definition less_StrongId :: "'a StrongId \<Rightarrow> 'a StrongId \<Rightarrow> bool" where
  "a < b \<longleftrightarrow> id_value a < id_value b"

instance
  by standard (auto simp: less_eq_StrongId_def less_StrongId_def intro: StrongId.expand)

end

instantiation Generation :: (type) linorder
begin

definition less_eq_Generation :: "'a Generation \<Rightarrow> 'a Generation \<Rightarrow> bool" where
  "a \<le> b \<longleftrightarrow> gen_value a \<le> gen_value b"

definition less_Generation :: "'a Generation \<Rightarrow> 'a Generation \<Rightarrow> bool" where
  "a < b \<longleftrightarrow> gen_value a < gen_value b"

instance
  by standard (auto simp: less_eq_Generation_def less_Generation_def intro: Generation.expand)

end

text \<open>Comparison of literal identities, for evaluating concrete runs.\<close>

lemma StrongId_le_iff [simp]: "StrongId a \<le> StrongId b \<longleftrightarrow> unat a \<le> unat b"
  by (simp add: less_eq_StrongId_def word_le_nat_alt)

lemma StrongId_less_iff [simp]: "StrongId a < StrongId b \<longleftrightarrow> unat a < unat b"
  by (simp add: less_StrongId_def word_less_nat_alt)

lemma Generation_le_iff [simp]: "Generation a \<le> Generation b \<longleftrightarrow> unat a \<le> unat b"
  by (simp add: less_eq_Generation_def word_le_nat_alt)

lemma Generation_less_iff [simp]: "Generation a < Generation b \<longleftrightarrow> unat a < unat b"
  by (simp add: less_Generation_def word_less_nat_alt)

lemma id_value_inject [simp]: "id_value a = id_value b \<longleftrightarrow> a = b"
  by (cases a; cases b) simp

lemma gen_value_inject [simp]: "gen_value a = gen_value b \<longleftrightarrow> a = b"
  by (cases a; cases b) simp

lemma is_set_unset [simp]: "\<not> is_set unset_gen"
  by (simp add: is_set_def unset_gen_def)

lemma is_set_mono: "is_set g \<Longrightarrow> g \<le> h \<Longrightarrow> is_set h"
  by (auto simp: is_set_def less_eq_Generation_def)

section \<open>The named identities and generations\<close>

type_synonym StateId = "StateIdTag StrongId"
type_synonym StateRecordId = "StateRecordIdTag StrongId"
type_synonym NamespaceId = "NamespaceIdTag StrongId"
type_synonym OwnerId = "OwnerIdTag StrongId"
type_synonym ProducerId = "ProducerIdTag StrongId"
type_synonym WorkerId = "WorkerIdTag StrongId"
type_synonym WorkerBootId = "WorkerBootIdTag StrongId"
type_synonym NodeId = "NodeIdTag StrongId"
type_synonym DeviceId = "DeviceIdTag StrongId"
type_synonym MemoryDomainId = "MemoryDomainIdTag StrongId"
type_synonym PlacementId = "PlacementIdTag StrongId"
type_synonym ReplicaId = "ReplicaIdTag StrongId"
type_synonym CompatibilityId = "CompatibilityIdTag StrongId"
type_synonym ProvenanceId = "ProvenanceIdTag StrongId"
type_synonym DependencyId = "DependencyIdTag StrongId"
type_synonym QueryId = "QueryIdTag StrongId"
type_synonym QueryPlanId = "QueryPlanIdTag StrongId"
type_synonym ResultId = "ResultIdTag StrongId"
type_synonym InvalidationId = "InvalidationIdTag StrongId"
type_synonym TombstoneId = "TombstoneIdTag StrongId"

type_synonym CoordinatorEpoch = "CoordinatorEpochTag Generation"
type_synonym StateGeneration = "StateGenerationTag Generation"
type_synonym RecordGeneration = "RecordGenerationTag Generation"
type_synonym OwnerGeneration = "OwnerGenerationTag Generation"
type_synonym ProducerGeneration = "ProducerGenerationTag Generation"
type_synonym WorkerGeneration = "WorkerGenerationTag Generation"
type_synonym LocationGeneration = "LocationGenerationTag Generation"
type_synonym PlacementGeneration = "PlacementGenerationTag Generation"
type_synonym ReplicaGeneration = "ReplicaGenerationTag Generation"
type_synonym CompatibilityGeneration = "CompatibilityGenerationTag Generation"
type_synonym ProvenanceGeneration = "ProvenanceGenerationTag Generation"
type_synonym DependencyGeneration = "DependencyGenerationTag Generation"
type_synonym QueryGeneration = "QueryGenerationTag Generation"
type_synonym ObservationGeneration = "ObservationGenerationTag Generation"
type_synonym AttemptGeneration = "AttemptGenerationTag Generation"
type_synonym DispatchGeneration = "DispatchGenerationTag Generation"
type_synonym PolicyGeneration = "PolicyGenerationTag Generation"

section \<open>Decimal text\<close>

text \<open>\<^verbatim>\<open>%llu\<close>: the decimal digits of a 64-bit value, most significant first.\<close>

fun decimal :: "nat \<Rightarrow> string" where
  "decimal n = (if n < 10 then [char_of (48 + n)]
     else decimal (n div 10) @ [char_of (48 + n mod 10)])"

declare decimal.simps [simp del]

text \<open>\<^verbatim>\<open>char buf[20]; snprintf(buf, sizeof(buf), "%llu", v)\<close> stores 19 characters at most
  and a terminating zero.\<close>

definition snprintf_llu :: "nat \<Rightarrow> u64 \<Rightarrow> string" where
  "snprintf_llu cap v = take (cap - 1) (decimal (unat v))"

definition id_to_string :: "'tag StrongId \<Rightarrow> string" where
  "id_to_string i = snprintf_llu 20 (id_value i)"

definition gen_to_string :: "'tag Generation \<Rightarrow> string" where
  "gen_to_string g = snprintf_llu 20 (gen_value g)"

text \<open>\<^verbatim>\<open>std::to_string\<close> of an unsigned value prints all its digits.\<close>

definition std_to_string :: "u64 \<Rightarrow> string" where
  "std_to_string v = decimal (unat v)"

section \<open>Reading the decimal text back\<close>

fun undecimal :: "nat \<Rightarrow> string \<Rightarrow> nat" where
  "undecimal acc [] = acc"
| "undecimal acc (c # cs) = undecimal (10 * acc + (of_char c - 48)) cs"

lemma undecimal_append: "undecimal acc (xs @ ys) = undecimal (undecimal acc xs) ys"
  by (induction acc xs rule: undecimal.induct) auto

lemma undecimal_decimal: "undecimal 0 (decimal n) = n"
proof (induction n rule: decimal.induct)
  case (1 n)
  show ?case
  proof (cases "n < 10")
    case True
    then show ?thesis by (subst decimal.simps) simp
  next
    case False
    with 1 have "undecimal 0 (decimal (n div 10)) = n div 10" by simp
    with False show ?thesis by (subst decimal.simps) (simp add: undecimal_append)
  qed
qed

lemma decimal_inject: "decimal m = decimal n \<longleftrightarrow> m = n"
  by (metis undecimal_decimal)

lemma length_decimal: "n < 10 ^ k \<Longrightarrow> 0 < k \<Longrightarrow> length (decimal n) \<le> k"
proof (induction n arbitrary: k rule: decimal.induct)
  case (1 n)
  show ?case
  proof (cases "n < 10")
    case True
    with \<open>0 < k\<close> show ?thesis by (subst decimal.simps) simp
  next
    case False
    then obtain j where j: "k = Suc j" "0 < j"
      using "1.prems" by (cases k; cases "k - 1") auto
    then have "length (decimal (n div 10)) \<le> j"
      using 1 False by (simp add: less_mult_imp_div_less)
    with False j show ?thesis by (subst decimal.simps) simp
  qed
qed

lemma snprintf_exact: "unat v < 10 ^ 19 \<Longrightarrow> snprintf_llu 20 v = decimal (unat v)"
  using length_decimal [of "unat v" 19] by (simp add: snprintf_llu_def)

lemma length_std_to_string: "length (std_to_string v) \<le> 20"
proof -
  have "unat v < 2 ^ 64" using unsigned_less [of v] by simp
  also have "(2 :: nat) ^ 64 < 10 ^ 20" by simp
  finally have "unat v < 10 ^ 20" .
  then show ?thesis unfolding std_to_string_def by (rule length_decimal) simp
qed

lemma length_decimal_ge: "10 ^ k \<le> n \<Longrightarrow> k < length (decimal n)"
proof (induction n arbitrary: k rule: decimal.induct)
  case (1 n)
  show ?case
  proof (cases k)
    case 0
    then show ?thesis by (subst decimal.simps) simp
  next
    case (Suc j)
    have p: "1 \<le> (10::nat) ^ j" by simp
    have m: "10 * 10 ^ j \<le> n" using Suc "1.prems" by simp
    then have "10 ^ j \<le> n div 10" by (simp add: less_eq_div_iff_mult_less_eq)
    moreover have "\<not> n < 10" using p m by linarith
    ultimately have "j < length (decimal (n div 10))" "\<not> n < 10" using "1.IH" by blast+
    with Suc show ?thesis by (subst decimal.simps) simp
  qed
qed

lemma snprintf_llu_text:
  "snprintf_llu 20 v = (if unat v < 10 ^ 19 then decimal (unat v) else decimal (unat v div 10))"
proof (cases "unat v < 10 ^ 19")
  case False
  have "unat v < 2 ^ 64" using unsigned_less [of v, where ?'a = nat] by simp
  then have "unat v div 10 < 10 ^ 19" "10 ^ 18 \<le> unat v div 10" using False by simp_all
  then have "length (decimal (unat v div 10)) = 19"
    using length_decimal [of "unat v div 10" 19] length_decimal_ge [of 18 "unat v div 10"] by simp
  moreover have "decimal (unat v) = decimal (unat v div 10) @ [char_of (48 + unat v mod 10)]"
    using False by (subst decimal.simps) simp
  ultimately show ?thesis using False by (simp add: snprintf_llu_def)
qed (simp add: snprintf_exact)

end
