(* ===== verification/Enums.thy ===== *)
theory Enums
  imports Strong
begin

text \<open>
  \<^verbatim>\<open>include/stateindex/enums.hpp\<close>. A C++ enumeration with a fixed underlying type holds
  every value of that type: \<^verbatim>\<open>static_cast<Lifecycle>(r.read_u8())\<close> on an unlisted byte
  is well defined and gives an unnamed enumerator. Each enumeration is therefore a datatype
  with the source's enumerators and one constructor for the unnamed values; \<open>E_of\<close> is the
  cast from the underlying type, \<open>E_code\<close> the cast to it, \<open>E_ok\<close> says that a value is one
  a cast can give, and \<open>E_to_string\<close> is the overload of \<^verbatim>\<open>to_string\<close>, whose default is
  the text after the switch.
\<close>

section \<open>Enumerations and their casts\<close>

locale enum_cast =
  fixes code :: "'e \<Rightarrow> 'w" and cast :: "'w \<Rightarrow> 'e" and ok :: "'e \<Rightarrow> bool"
  assumes code_cast: "code (cast b) = b"
    and ok_iff: "ok x \<longleftrightarrow> cast (code x) = x"
begin

lemma cast_code: "ok x \<Longrightarrow> cast (code x) = x"
  by (simp add: ok_iff)

lemma ok_cast: "ok (cast b)"
  by (simp add: ok_iff code_cast)

lemma code_inject: "ok x \<Longrightarrow> ok y \<Longrightarrow> code x = code y \<longleftrightarrow> x = y"
  by (metis cast_code)

lemma cast_inject: "cast a = cast b \<longleftrightarrow> a = b"
  by (metis code_cast)

end

section \<open>The enumerations\<close>

datatype StateKind =
    StateKind_KV_STATE
  | StateKind_PREFIX_STATE
  | StateKind_TENSOR_STATE
  | StateKind_MODEL_ARTIFACT
  | StateKind_MODEL_SHARD
  | StateKind_ADAPTER
  | StateKind_COMPILED_KERNEL
  | StateKind_EXECUTION_GRAPH
  | StateKind_EXECUTION_PLAN
  | StateKind_CHECKPOINT
  | StateKind_CHECKPOINT_CHUNK
  | StateKind_CHECKPOINT_MANIFEST
  | StateKind_STORAGE_OBJECT
  | StateKind_BUFFER
  | StateKind_RUNTIME_ARTIFACT
  | StateKind_GENERIC_STATE
  | StateKind_unnamed u16

primrec StateKind_code :: "StateKind \<Rightarrow> u16" where
  "StateKind_code StateKind_KV_STATE = 1"
| "StateKind_code StateKind_PREFIX_STATE = 2"
| "StateKind_code StateKind_TENSOR_STATE = 3"
| "StateKind_code StateKind_MODEL_ARTIFACT = 4"
| "StateKind_code StateKind_MODEL_SHARD = 5"
| "StateKind_code StateKind_ADAPTER = 6"
| "StateKind_code StateKind_COMPILED_KERNEL = 7"
| "StateKind_code StateKind_EXECUTION_GRAPH = 8"
| "StateKind_code StateKind_EXECUTION_PLAN = 9"
| "StateKind_code StateKind_CHECKPOINT = 10"
| "StateKind_code StateKind_CHECKPOINT_CHUNK = 11"
| "StateKind_code StateKind_CHECKPOINT_MANIFEST = 12"
| "StateKind_code StateKind_STORAGE_OBJECT = 13"
| "StateKind_code StateKind_BUFFER = 14"
| "StateKind_code StateKind_RUNTIME_ARTIFACT = 15"
| "StateKind_code StateKind_GENERIC_STATE = 16"
| "StateKind_code (StateKind_unnamed b) = b"

definition StateKind_of :: "u16 \<Rightarrow> StateKind" where
  "StateKind_of b =
    (if b = 1 then StateKind_KV_STATE
     else if b = 2 then StateKind_PREFIX_STATE
     else if b = 3 then StateKind_TENSOR_STATE
     else if b = 4 then StateKind_MODEL_ARTIFACT
     else if b = 5 then StateKind_MODEL_SHARD
     else if b = 6 then StateKind_ADAPTER
     else if b = 7 then StateKind_COMPILED_KERNEL
     else if b = 8 then StateKind_EXECUTION_GRAPH
     else if b = 9 then StateKind_EXECUTION_PLAN
     else if b = 10 then StateKind_CHECKPOINT
     else if b = 11 then StateKind_CHECKPOINT_CHUNK
     else if b = 12 then StateKind_CHECKPOINT_MANIFEST
     else if b = 13 then StateKind_STORAGE_OBJECT
     else if b = 14 then StateKind_BUFFER
     else if b = 15 then StateKind_RUNTIME_ARTIFACT
     else if b = 16 then StateKind_GENERIC_STATE
     else StateKind_unnamed b)"

definition StateKind_ok :: "StateKind \<Rightarrow> bool" where
  "StateKind_ok x \<longleftrightarrow> StateKind_of (StateKind_code x) = x"

primrec StateKind_to_string :: "StateKind \<Rightarrow> string" where
  "StateKind_to_string StateKind_KV_STATE = ''KV_STATE''"
| "StateKind_to_string StateKind_PREFIX_STATE = ''PREFIX_STATE''"
| "StateKind_to_string StateKind_TENSOR_STATE = ''TENSOR_STATE''"
| "StateKind_to_string StateKind_MODEL_ARTIFACT = ''MODEL_ARTIFACT''"
| "StateKind_to_string StateKind_MODEL_SHARD = ''MODEL_SHARD''"
| "StateKind_to_string StateKind_ADAPTER = ''ADAPTER''"
| "StateKind_to_string StateKind_COMPILED_KERNEL = ''COMPILED_KERNEL''"
| "StateKind_to_string StateKind_EXECUTION_GRAPH = ''EXECUTION_GRAPH''"
| "StateKind_to_string StateKind_EXECUTION_PLAN = ''EXECUTION_PLAN''"
| "StateKind_to_string StateKind_CHECKPOINT = ''CHECKPOINT''"
| "StateKind_to_string StateKind_CHECKPOINT_CHUNK = ''CHECKPOINT_CHUNK''"
| "StateKind_to_string StateKind_CHECKPOINT_MANIFEST = ''CHECKPOINT_MANIFEST''"
| "StateKind_to_string StateKind_STORAGE_OBJECT = ''STORAGE_OBJECT''"
| "StateKind_to_string StateKind_BUFFER = ''BUFFER''"
| "StateKind_to_string StateKind_RUNTIME_ARTIFACT = ''RUNTIME_ARTIFACT''"
| "StateKind_to_string StateKind_GENERIC_STATE = ''GENERIC_STATE''"
| "StateKind_to_string (StateKind_unnamed b) = ''UNKNOWN_KIND''"

interpretation StateKind: enum_cast StateKind_code StateKind_of StateKind_ok
  by unfold_locales (auto simp: StateKind_of_def StateKind_ok_def)

lemma StateKind_ok_named [simp]:
  "StateKind_ok StateKind_KV_STATE"
  "StateKind_ok StateKind_PREFIX_STATE"
  "StateKind_ok StateKind_TENSOR_STATE"
  "StateKind_ok StateKind_MODEL_ARTIFACT"
  "StateKind_ok StateKind_MODEL_SHARD"
  "StateKind_ok StateKind_ADAPTER"
  "StateKind_ok StateKind_COMPILED_KERNEL"
  "StateKind_ok StateKind_EXECUTION_GRAPH"
  "StateKind_ok StateKind_EXECUTION_PLAN"
  "StateKind_ok StateKind_CHECKPOINT"
  "StateKind_ok StateKind_CHECKPOINT_CHUNK"
  "StateKind_ok StateKind_CHECKPOINT_MANIFEST"
  "StateKind_ok StateKind_STORAGE_OBJECT"
  "StateKind_ok StateKind_BUFFER"
  "StateKind_ok StateKind_RUNTIME_ARTIFACT"
  "StateKind_ok StateKind_GENERIC_STATE"
  by (simp_all add: StateKind_ok_def StateKind_of_def)

datatype Lifecycle =
    Lifecycle_DISCOVERED
  | Lifecycle_AVAILABLE
  | Lifecycle_DEGRADED
  | Lifecycle_STALE
  | Lifecycle_INVALIDATED
  | Lifecycle_SUPERSEDED
  | Lifecycle_TOMBSTONED
  | Lifecycle_RETIRED
  | Lifecycle_MISSING
  | Lifecycle_FAILED
  | Lifecycle_unnamed u8

primrec Lifecycle_code :: "Lifecycle \<Rightarrow> u8" where
  "Lifecycle_code Lifecycle_DISCOVERED = 0"
| "Lifecycle_code Lifecycle_AVAILABLE = 1"
| "Lifecycle_code Lifecycle_DEGRADED = 2"
| "Lifecycle_code Lifecycle_STALE = 3"
| "Lifecycle_code Lifecycle_INVALIDATED = 4"
| "Lifecycle_code Lifecycle_SUPERSEDED = 5"
| "Lifecycle_code Lifecycle_TOMBSTONED = 6"
| "Lifecycle_code Lifecycle_RETIRED = 7"
| "Lifecycle_code Lifecycle_MISSING = 8"
| "Lifecycle_code Lifecycle_FAILED = 9"
| "Lifecycle_code (Lifecycle_unnamed b) = b"

definition Lifecycle_of :: "u8 \<Rightarrow> Lifecycle" where
  "Lifecycle_of b =
    (if b = 0 then Lifecycle_DISCOVERED
     else if b = 1 then Lifecycle_AVAILABLE
     else if b = 2 then Lifecycle_DEGRADED
     else if b = 3 then Lifecycle_STALE
     else if b = 4 then Lifecycle_INVALIDATED
     else if b = 5 then Lifecycle_SUPERSEDED
     else if b = 6 then Lifecycle_TOMBSTONED
     else if b = 7 then Lifecycle_RETIRED
     else if b = 8 then Lifecycle_MISSING
     else if b = 9 then Lifecycle_FAILED
     else Lifecycle_unnamed b)"

definition Lifecycle_ok :: "Lifecycle \<Rightarrow> bool" where
  "Lifecycle_ok x \<longleftrightarrow> Lifecycle_of (Lifecycle_code x) = x"

primrec Lifecycle_to_string :: "Lifecycle \<Rightarrow> string" where
  "Lifecycle_to_string Lifecycle_DISCOVERED = ''DISCOVERED''"
| "Lifecycle_to_string Lifecycle_AVAILABLE = ''AVAILABLE''"
| "Lifecycle_to_string Lifecycle_DEGRADED = ''DEGRADED''"
| "Lifecycle_to_string Lifecycle_STALE = ''STALE''"
| "Lifecycle_to_string Lifecycle_INVALIDATED = ''INVALIDATED''"
| "Lifecycle_to_string Lifecycle_SUPERSEDED = ''SUPERSEDED''"
| "Lifecycle_to_string Lifecycle_TOMBSTONED = ''TOMBSTONED''"
| "Lifecycle_to_string Lifecycle_RETIRED = ''RETIRED''"
| "Lifecycle_to_string Lifecycle_MISSING = ''MISSING''"
| "Lifecycle_to_string Lifecycle_FAILED = ''FAILED''"
| "Lifecycle_to_string (Lifecycle_unnamed b) = ''UNKNOWN_LIFECYCLE''"

interpretation Lifecycle: enum_cast Lifecycle_code Lifecycle_of Lifecycle_ok
  by unfold_locales (auto simp: Lifecycle_of_def Lifecycle_ok_def)

lemma Lifecycle_ok_named [simp]:
  "Lifecycle_ok Lifecycle_DISCOVERED"
  "Lifecycle_ok Lifecycle_AVAILABLE"
  "Lifecycle_ok Lifecycle_DEGRADED"
  "Lifecycle_ok Lifecycle_STALE"
  "Lifecycle_ok Lifecycle_INVALIDATED"
  "Lifecycle_ok Lifecycle_SUPERSEDED"
  "Lifecycle_ok Lifecycle_TOMBSTONED"
  "Lifecycle_ok Lifecycle_RETIRED"
  "Lifecycle_ok Lifecycle_MISSING"
  "Lifecycle_ok Lifecycle_FAILED"
  by (simp_all add: Lifecycle_ok_def Lifecycle_of_def)

datatype Freshness =
    Freshness_UNKNOWN
  | Freshness_CURRENT
  | Freshness_STALE
  | Freshness_REVALIDATION_REQUIRED
  | Freshness_unnamed u8

primrec Freshness_code :: "Freshness \<Rightarrow> u8" where
  "Freshness_code Freshness_UNKNOWN = 0"
| "Freshness_code Freshness_CURRENT = 1"
| "Freshness_code Freshness_STALE = 2"
| "Freshness_code Freshness_REVALIDATION_REQUIRED = 3"
| "Freshness_code (Freshness_unnamed b) = b"

definition Freshness_of :: "u8 \<Rightarrow> Freshness" where
  "Freshness_of b =
    (if b = 0 then Freshness_UNKNOWN
     else if b = 1 then Freshness_CURRENT
     else if b = 2 then Freshness_STALE
     else if b = 3 then Freshness_REVALIDATION_REQUIRED
     else Freshness_unnamed b)"

definition Freshness_ok :: "Freshness \<Rightarrow> bool" where
  "Freshness_ok x \<longleftrightarrow> Freshness_of (Freshness_code x) = x"

primrec Freshness_to_string :: "Freshness \<Rightarrow> string" where
  "Freshness_to_string Freshness_UNKNOWN = ''UNKNOWN''"
| "Freshness_to_string Freshness_CURRENT = ''CURRENT''"
| "Freshness_to_string Freshness_STALE = ''STALE''"
| "Freshness_to_string Freshness_REVALIDATION_REQUIRED = ''REVALIDATION_REQUIRED''"
| "Freshness_to_string (Freshness_unnamed b) = ''UNKNOWN''"

interpretation Freshness: enum_cast Freshness_code Freshness_of Freshness_ok
  by unfold_locales (auto simp: Freshness_of_def Freshness_ok_def)

lemma Freshness_ok_named [simp]:
  "Freshness_ok Freshness_UNKNOWN"
  "Freshness_ok Freshness_CURRENT"
  "Freshness_ok Freshness_STALE"
  "Freshness_ok Freshness_REVALIDATION_REQUIRED"
  by (simp_all add: Freshness_ok_def Freshness_of_def)

datatype Health =
    Health_UNKNOWN
  | Health_HEALTHY
  | Health_DEGRADED
  | Health_UNHEALTHY
  | Health_UNAVAILABLE
  | Health_unnamed u8

primrec Health_code :: "Health \<Rightarrow> u8" where
  "Health_code Health_UNKNOWN = 0"
| "Health_code Health_HEALTHY = 1"
| "Health_code Health_DEGRADED = 2"
| "Health_code Health_UNHEALTHY = 3"
| "Health_code Health_UNAVAILABLE = 4"
| "Health_code (Health_unnamed b) = b"

definition Health_of :: "u8 \<Rightarrow> Health" where
  "Health_of b =
    (if b = 0 then Health_UNKNOWN
     else if b = 1 then Health_HEALTHY
     else if b = 2 then Health_DEGRADED
     else if b = 3 then Health_UNHEALTHY
     else if b = 4 then Health_UNAVAILABLE
     else Health_unnamed b)"

definition Health_ok :: "Health \<Rightarrow> bool" where
  "Health_ok x \<longleftrightarrow> Health_of (Health_code x) = x"

primrec Health_to_string :: "Health \<Rightarrow> string" where
  "Health_to_string Health_UNKNOWN = ''UNKNOWN''"
| "Health_to_string Health_HEALTHY = ''HEALTHY''"
| "Health_to_string Health_DEGRADED = ''DEGRADED''"
| "Health_to_string Health_UNHEALTHY = ''UNHEALTHY''"
| "Health_to_string Health_UNAVAILABLE = ''UNAVAILABLE''"
| "Health_to_string (Health_unnamed b) = ''UNKNOWN''"

interpretation Health: enum_cast Health_code Health_of Health_ok
  by unfold_locales (auto simp: Health_of_def Health_ok_def)

lemma Health_ok_named [simp]:
  "Health_ok Health_UNKNOWN"
  "Health_ok Health_HEALTHY"
  "Health_ok Health_DEGRADED"
  "Health_ok Health_UNHEALTHY"
  "Health_ok Health_UNAVAILABLE"
  by (simp_all add: Health_ok_def Health_of_def)

datatype MemoryDomain =
    MemoryDomain_UNKNOWN
  | MemoryDomain_CUDA_DEVICE
  | MemoryDomain_HOST_PINNED
  | MemoryDomain_HOST_MEMORY
  | MemoryDomain_LOCAL_FILESYSTEM
  | MemoryDomain_LOCAL_NVME_CLASS
  | MemoryDomain_SHARED_FILESYSTEM_CLASS
  | MemoryDomain_OBJECT_STORAGE_CLASS
  | MemoryDomain_REMOTE_CACHE_CLASS
  | MemoryDomain_SYNTHETIC_REMOTE
  | MemoryDomain_unnamed u8

primrec MemoryDomain_code :: "MemoryDomain \<Rightarrow> u8" where
  "MemoryDomain_code MemoryDomain_UNKNOWN = 0"
| "MemoryDomain_code MemoryDomain_CUDA_DEVICE = 1"
| "MemoryDomain_code MemoryDomain_HOST_PINNED = 2"
| "MemoryDomain_code MemoryDomain_HOST_MEMORY = 3"
| "MemoryDomain_code MemoryDomain_LOCAL_FILESYSTEM = 4"
| "MemoryDomain_code MemoryDomain_LOCAL_NVME_CLASS = 5"
| "MemoryDomain_code MemoryDomain_SHARED_FILESYSTEM_CLASS = 6"
| "MemoryDomain_code MemoryDomain_OBJECT_STORAGE_CLASS = 7"
| "MemoryDomain_code MemoryDomain_REMOTE_CACHE_CLASS = 8"
| "MemoryDomain_code MemoryDomain_SYNTHETIC_REMOTE = 9"
| "MemoryDomain_code (MemoryDomain_unnamed b) = b"

definition MemoryDomain_of :: "u8 \<Rightarrow> MemoryDomain" where
  "MemoryDomain_of b =
    (if b = 0 then MemoryDomain_UNKNOWN
     else if b = 1 then MemoryDomain_CUDA_DEVICE
     else if b = 2 then MemoryDomain_HOST_PINNED
     else if b = 3 then MemoryDomain_HOST_MEMORY
     else if b = 4 then MemoryDomain_LOCAL_FILESYSTEM
     else if b = 5 then MemoryDomain_LOCAL_NVME_CLASS
     else if b = 6 then MemoryDomain_SHARED_FILESYSTEM_CLASS
     else if b = 7 then MemoryDomain_OBJECT_STORAGE_CLASS
     else if b = 8 then MemoryDomain_REMOTE_CACHE_CLASS
     else if b = 9 then MemoryDomain_SYNTHETIC_REMOTE
     else MemoryDomain_unnamed b)"

definition MemoryDomain_ok :: "MemoryDomain \<Rightarrow> bool" where
  "MemoryDomain_ok x \<longleftrightarrow> MemoryDomain_of (MemoryDomain_code x) = x"

primrec MemoryDomain_to_string :: "MemoryDomain \<Rightarrow> string" where
  "MemoryDomain_to_string MemoryDomain_UNKNOWN = ''UNKNOWN''"
| "MemoryDomain_to_string MemoryDomain_CUDA_DEVICE = ''CUDA_DEVICE''"
| "MemoryDomain_to_string MemoryDomain_HOST_PINNED = ''HOST_PINNED''"
| "MemoryDomain_to_string MemoryDomain_HOST_MEMORY = ''HOST_MEMORY''"
| "MemoryDomain_to_string MemoryDomain_LOCAL_FILESYSTEM = ''LOCAL_FILESYSTEM''"
| "MemoryDomain_to_string MemoryDomain_LOCAL_NVME_CLASS = ''LOCAL_NVME_CLASS''"
| "MemoryDomain_to_string MemoryDomain_SHARED_FILESYSTEM_CLASS = ''SHARED_FILESYSTEM_CLASS''"
| "MemoryDomain_to_string MemoryDomain_OBJECT_STORAGE_CLASS = ''OBJECT_STORAGE_CLASS''"
| "MemoryDomain_to_string MemoryDomain_REMOTE_CACHE_CLASS = ''REMOTE_CACHE_CLASS''"
| "MemoryDomain_to_string MemoryDomain_SYNTHETIC_REMOTE = ''SYNTHETIC_REMOTE''"
| "MemoryDomain_to_string (MemoryDomain_unnamed b) = ''UNKNOWN''"

interpretation MemoryDomain: enum_cast MemoryDomain_code MemoryDomain_of MemoryDomain_ok
  by unfold_locales (auto simp: MemoryDomain_of_def MemoryDomain_ok_def)

lemma MemoryDomain_ok_named [simp]:
  "MemoryDomain_ok MemoryDomain_UNKNOWN"
  "MemoryDomain_ok MemoryDomain_CUDA_DEVICE"
  "MemoryDomain_ok MemoryDomain_HOST_PINNED"
  "MemoryDomain_ok MemoryDomain_HOST_MEMORY"
  "MemoryDomain_ok MemoryDomain_LOCAL_FILESYSTEM"
  "MemoryDomain_ok MemoryDomain_LOCAL_NVME_CLASS"
  "MemoryDomain_ok MemoryDomain_SHARED_FILESYSTEM_CLASS"
  "MemoryDomain_ok MemoryDomain_OBJECT_STORAGE_CLASS"
  "MemoryDomain_ok MemoryDomain_REMOTE_CACHE_CLASS"
  "MemoryDomain_ok MemoryDomain_SYNTHETIC_REMOTE"
  by (simp_all add: MemoryDomain_ok_def MemoryDomain_of_def)

datatype StorageBackend =
    StorageBackend_UNKNOWN
  | StorageBackend_MEMORY
  | StorageBackend_FILE
  | StorageBackend_CUDA
  | StorageBackend_SYNTHETIC
  | StorageBackend_unnamed u8

primrec StorageBackend_code :: "StorageBackend \<Rightarrow> u8" where
  "StorageBackend_code StorageBackend_UNKNOWN = 0"
| "StorageBackend_code StorageBackend_MEMORY = 1"
| "StorageBackend_code StorageBackend_FILE = 2"
| "StorageBackend_code StorageBackend_CUDA = 3"
| "StorageBackend_code StorageBackend_SYNTHETIC = 4"
| "StorageBackend_code (StorageBackend_unnamed b) = b"

definition StorageBackend_of :: "u8 \<Rightarrow> StorageBackend" where
  "StorageBackend_of b =
    (if b = 0 then StorageBackend_UNKNOWN
     else if b = 1 then StorageBackend_MEMORY
     else if b = 2 then StorageBackend_FILE
     else if b = 3 then StorageBackend_CUDA
     else if b = 4 then StorageBackend_SYNTHETIC
     else StorageBackend_unnamed b)"

definition StorageBackend_ok :: "StorageBackend \<Rightarrow> bool" where
  "StorageBackend_ok x \<longleftrightarrow> StorageBackend_of (StorageBackend_code x) = x"

primrec StorageBackend_to_string :: "StorageBackend \<Rightarrow> string" where
  "StorageBackend_to_string StorageBackend_UNKNOWN = ''UNKNOWN''"
| "StorageBackend_to_string StorageBackend_MEMORY = ''MEMORY''"
| "StorageBackend_to_string StorageBackend_FILE = ''FILE''"
| "StorageBackend_to_string StorageBackend_CUDA = ''CUDA''"
| "StorageBackend_to_string StorageBackend_SYNTHETIC = ''SYNTHETIC''"
| "StorageBackend_to_string (StorageBackend_unnamed b) = ''UNKNOWN''"

interpretation StorageBackend: enum_cast StorageBackend_code StorageBackend_of StorageBackend_ok
  by unfold_locales (auto simp: StorageBackend_of_def StorageBackend_ok_def)

lemma StorageBackend_ok_named [simp]:
  "StorageBackend_ok StorageBackend_UNKNOWN"
  "StorageBackend_ok StorageBackend_MEMORY"
  "StorageBackend_ok StorageBackend_FILE"
  "StorageBackend_ok StorageBackend_CUDA"
  "StorageBackend_ok StorageBackend_SYNTHETIC"
  by (simp_all add: StorageBackend_ok_def StorageBackend_of_def)

datatype StorageTier =
    StorageTier_UNKNOWN
  | StorageTier_HOT
  | StorageTier_WARM
  | StorageTier_COLD
  | StorageTier_SYNTHETIC
  | StorageTier_unnamed u8

primrec StorageTier_code :: "StorageTier \<Rightarrow> u8" where
  "StorageTier_code StorageTier_UNKNOWN = 0"
| "StorageTier_code StorageTier_HOT = 1"
| "StorageTier_code StorageTier_WARM = 2"
| "StorageTier_code StorageTier_COLD = 3"
| "StorageTier_code StorageTier_SYNTHETIC = 4"
| "StorageTier_code (StorageTier_unnamed b) = b"

definition StorageTier_of :: "u8 \<Rightarrow> StorageTier" where
  "StorageTier_of b =
    (if b = 0 then StorageTier_UNKNOWN
     else if b = 1 then StorageTier_HOT
     else if b = 2 then StorageTier_WARM
     else if b = 3 then StorageTier_COLD
     else if b = 4 then StorageTier_SYNTHETIC
     else StorageTier_unnamed b)"

definition StorageTier_ok :: "StorageTier \<Rightarrow> bool" where
  "StorageTier_ok x \<longleftrightarrow> StorageTier_of (StorageTier_code x) = x"

primrec StorageTier_to_string :: "StorageTier \<Rightarrow> string" where
  "StorageTier_to_string StorageTier_UNKNOWN = ''UNKNOWN''"
| "StorageTier_to_string StorageTier_HOT = ''HOT''"
| "StorageTier_to_string StorageTier_WARM = ''WARM''"
| "StorageTier_to_string StorageTier_COLD = ''COLD''"
| "StorageTier_to_string StorageTier_SYNTHETIC = ''SYNTHETIC''"
| "StorageTier_to_string (StorageTier_unnamed b) = ''UNKNOWN''"

interpretation StorageTier: enum_cast StorageTier_code StorageTier_of StorageTier_ok
  by unfold_locales (auto simp: StorageTier_of_def StorageTier_ok_def)

lemma StorageTier_ok_named [simp]:
  "StorageTier_ok StorageTier_UNKNOWN"
  "StorageTier_ok StorageTier_HOT"
  "StorageTier_ok StorageTier_WARM"
  "StorageTier_ok StorageTier_COLD"
  "StorageTier_ok StorageTier_SYNTHETIC"
  by (simp_all add: StorageTier_ok_def StorageTier_of_def)

datatype AccessClass =
    AccessClass_UNKNOWN
  | AccessClass_LOCAL
  | AccessClass_NEAR
  | AccessClass_REMOTE
  | AccessClass_SYNTHETIC
  | AccessClass_unnamed u8

primrec AccessClass_code :: "AccessClass \<Rightarrow> u8" where
  "AccessClass_code AccessClass_UNKNOWN = 0"
| "AccessClass_code AccessClass_LOCAL = 1"
| "AccessClass_code AccessClass_NEAR = 2"
| "AccessClass_code AccessClass_REMOTE = 3"
| "AccessClass_code AccessClass_SYNTHETIC = 4"
| "AccessClass_code (AccessClass_unnamed b) = b"

definition AccessClass_of :: "u8 \<Rightarrow> AccessClass" where
  "AccessClass_of b =
    (if b = 0 then AccessClass_UNKNOWN
     else if b = 1 then AccessClass_LOCAL
     else if b = 2 then AccessClass_NEAR
     else if b = 3 then AccessClass_REMOTE
     else if b = 4 then AccessClass_SYNTHETIC
     else AccessClass_unnamed b)"

definition AccessClass_ok :: "AccessClass \<Rightarrow> bool" where
  "AccessClass_ok x \<longleftrightarrow> AccessClass_of (AccessClass_code x) = x"

primrec AccessClass_to_string :: "AccessClass \<Rightarrow> string" where
  "AccessClass_to_string AccessClass_UNKNOWN = ''UNKNOWN''"
| "AccessClass_to_string AccessClass_LOCAL = ''LOCAL''"
| "AccessClass_to_string AccessClass_NEAR = ''NEAR''"
| "AccessClass_to_string AccessClass_REMOTE = ''REMOTE''"
| "AccessClass_to_string AccessClass_SYNTHETIC = ''SYNTHETIC''"
| "AccessClass_to_string (AccessClass_unnamed b) = ''UNKNOWN''"

interpretation AccessClass: enum_cast AccessClass_code AccessClass_of AccessClass_ok
  by unfold_locales (auto simp: AccessClass_of_def AccessClass_ok_def)

lemma AccessClass_ok_named [simp]:
  "AccessClass_ok AccessClass_UNKNOWN"
  "AccessClass_ok AccessClass_LOCAL"
  "AccessClass_ok AccessClass_NEAR"
  "AccessClass_ok AccessClass_REMOTE"
  "AccessClass_ok AccessClass_SYNTHETIC"
  by (simp_all add: AccessClass_ok_def AccessClass_of_def)

datatype Evidence =
    Evidence_UNKNOWN
  | Evidence_MEASURED
  | Evidence_REPORTED
  | Evidence_DERIVED
  | Evidence_SYNTHETIC
  | Evidence_unnamed u8

primrec Evidence_code :: "Evidence \<Rightarrow> u8" where
  "Evidence_code Evidence_UNKNOWN = 0"
| "Evidence_code Evidence_MEASURED = 1"
| "Evidence_code Evidence_REPORTED = 2"
| "Evidence_code Evidence_DERIVED = 3"
| "Evidence_code Evidence_SYNTHETIC = 4"
| "Evidence_code (Evidence_unnamed b) = b"

definition Evidence_of :: "u8 \<Rightarrow> Evidence" where
  "Evidence_of b =
    (if b = 0 then Evidence_UNKNOWN
     else if b = 1 then Evidence_MEASURED
     else if b = 2 then Evidence_REPORTED
     else if b = 3 then Evidence_DERIVED
     else if b = 4 then Evidence_SYNTHETIC
     else Evidence_unnamed b)"

definition Evidence_ok :: "Evidence \<Rightarrow> bool" where
  "Evidence_ok x \<longleftrightarrow> Evidence_of (Evidence_code x) = x"

primrec Evidence_to_string :: "Evidence \<Rightarrow> string" where
  "Evidence_to_string Evidence_UNKNOWN = ''UNKNOWN''"
| "Evidence_to_string Evidence_MEASURED = ''MEASURED''"
| "Evidence_to_string Evidence_REPORTED = ''REPORTED''"
| "Evidence_to_string Evidence_DERIVED = ''DERIVED''"
| "Evidence_to_string Evidence_SYNTHETIC = ''SYNTHETIC''"
| "Evidence_to_string (Evidence_unnamed b) = ''UNKNOWN''"

interpretation Evidence: enum_cast Evidence_code Evidence_of Evidence_ok
  by unfold_locales (auto simp: Evidence_of_def Evidence_ok_def)

lemma Evidence_ok_named [simp]:
  "Evidence_ok Evidence_UNKNOWN"
  "Evidence_ok Evidence_MEASURED"
  "Evidence_ok Evidence_REPORTED"
  "Evidence_ok Evidence_DERIVED"
  "Evidence_ok Evidence_SYNTHETIC"
  by (simp_all add: Evidence_ok_def Evidence_of_def)

datatype CompatibilityOutcome =
    CompatibilityOutcome_UNKNOWN
  | CompatibilityOutcome_NONE
  | CompatibilityOutcome_EXACT
  | CompatibilityOutcome_COMPATIBLE
  | CompatibilityOutcome_COMPATIBLE_WITH_ADAPTATION
  | CompatibilityOutcome_INCOMPATIBLE
  | CompatibilityOutcome_unnamed u8

primrec CompatibilityOutcome_code :: "CompatibilityOutcome \<Rightarrow> u8" where
  "CompatibilityOutcome_code CompatibilityOutcome_UNKNOWN = 0"
| "CompatibilityOutcome_code CompatibilityOutcome_NONE = 1"
| "CompatibilityOutcome_code CompatibilityOutcome_EXACT = 2"
| "CompatibilityOutcome_code CompatibilityOutcome_COMPATIBLE = 3"
| "CompatibilityOutcome_code CompatibilityOutcome_COMPATIBLE_WITH_ADAPTATION = 4"
| "CompatibilityOutcome_code CompatibilityOutcome_INCOMPATIBLE = 5"
| "CompatibilityOutcome_code (CompatibilityOutcome_unnamed b) = b"

definition CompatibilityOutcome_of :: "u8 \<Rightarrow> CompatibilityOutcome" where
  "CompatibilityOutcome_of b =
    (if b = 0 then CompatibilityOutcome_UNKNOWN
     else if b = 1 then CompatibilityOutcome_NONE
     else if b = 2 then CompatibilityOutcome_EXACT
     else if b = 3 then CompatibilityOutcome_COMPATIBLE
     else if b = 4 then CompatibilityOutcome_COMPATIBLE_WITH_ADAPTATION
     else if b = 5 then CompatibilityOutcome_INCOMPATIBLE
     else CompatibilityOutcome_unnamed b)"

definition CompatibilityOutcome_ok :: "CompatibilityOutcome \<Rightarrow> bool" where
  "CompatibilityOutcome_ok x \<longleftrightarrow> CompatibilityOutcome_of (CompatibilityOutcome_code x) = x"

primrec CompatibilityOutcome_to_string :: "CompatibilityOutcome \<Rightarrow> string" where
  "CompatibilityOutcome_to_string CompatibilityOutcome_UNKNOWN = ''UNKNOWN''"
| "CompatibilityOutcome_to_string CompatibilityOutcome_NONE = ''NONE''"
| "CompatibilityOutcome_to_string CompatibilityOutcome_EXACT = ''EXACT''"
| "CompatibilityOutcome_to_string CompatibilityOutcome_COMPATIBLE = ''COMPATIBLE''"
| "CompatibilityOutcome_to_string CompatibilityOutcome_COMPATIBLE_WITH_ADAPTATION = ''COMPATIBLE_WITH_ADAPTATION''"
| "CompatibilityOutcome_to_string CompatibilityOutcome_INCOMPATIBLE = ''INCOMPATIBLE''"
| "CompatibilityOutcome_to_string (CompatibilityOutcome_unnamed b) = ''UNKNOWN''"

interpretation CompatibilityOutcome: enum_cast CompatibilityOutcome_code CompatibilityOutcome_of CompatibilityOutcome_ok
  by unfold_locales (auto simp: CompatibilityOutcome_of_def CompatibilityOutcome_ok_def)

lemma CompatibilityOutcome_ok_named [simp]:
  "CompatibilityOutcome_ok CompatibilityOutcome_UNKNOWN"
  "CompatibilityOutcome_ok CompatibilityOutcome_NONE"
  "CompatibilityOutcome_ok CompatibilityOutcome_EXACT"
  "CompatibilityOutcome_ok CompatibilityOutcome_COMPATIBLE"
  "CompatibilityOutcome_ok CompatibilityOutcome_COMPATIBLE_WITH_ADAPTATION"
  "CompatibilityOutcome_ok CompatibilityOutcome_INCOMPATIBLE"
  by (simp_all add: CompatibilityOutcome_ok_def CompatibilityOutcome_of_def)

datatype CompatibilityRequirement =
    CompatibilityRequirement_NONE
  | CompatibilityRequirement_EXACT
  | CompatibilityRequirement_COMPATIBLE
  | CompatibilityRequirement_COMPATIBLE_WITH_ADAPTATION
  | CompatibilityRequirement_unnamed u8

primrec CompatibilityRequirement_code :: "CompatibilityRequirement \<Rightarrow> u8" where
  "CompatibilityRequirement_code CompatibilityRequirement_NONE = 0"
| "CompatibilityRequirement_code CompatibilityRequirement_EXACT = 1"
| "CompatibilityRequirement_code CompatibilityRequirement_COMPATIBLE = 2"
| "CompatibilityRequirement_code CompatibilityRequirement_COMPATIBLE_WITH_ADAPTATION = 3"
| "CompatibilityRequirement_code (CompatibilityRequirement_unnamed b) = b"

definition CompatibilityRequirement_of :: "u8 \<Rightarrow> CompatibilityRequirement" where
  "CompatibilityRequirement_of b =
    (if b = 0 then CompatibilityRequirement_NONE
     else if b = 1 then CompatibilityRequirement_EXACT
     else if b = 2 then CompatibilityRequirement_COMPATIBLE
     else if b = 3 then CompatibilityRequirement_COMPATIBLE_WITH_ADAPTATION
     else CompatibilityRequirement_unnamed b)"

definition CompatibilityRequirement_ok :: "CompatibilityRequirement \<Rightarrow> bool" where
  "CompatibilityRequirement_ok x \<longleftrightarrow> CompatibilityRequirement_of (CompatibilityRequirement_code x) = x"

primrec CompatibilityRequirement_to_string :: "CompatibilityRequirement \<Rightarrow> string" where
  "CompatibilityRequirement_to_string CompatibilityRequirement_NONE = ''NONE''"
| "CompatibilityRequirement_to_string CompatibilityRequirement_EXACT = ''EXACT''"
| "CompatibilityRequirement_to_string CompatibilityRequirement_COMPATIBLE = ''COMPATIBLE''"
| "CompatibilityRequirement_to_string CompatibilityRequirement_COMPATIBLE_WITH_ADAPTATION = ''COMPATIBLE_WITH_ADAPTATION''"
| "CompatibilityRequirement_to_string (CompatibilityRequirement_unnamed b) = ''UNKNOWN''"

interpretation CompatibilityRequirement: enum_cast CompatibilityRequirement_code CompatibilityRequirement_of CompatibilityRequirement_ok
  by unfold_locales (auto simp: CompatibilityRequirement_of_def CompatibilityRequirement_ok_def)

lemma CompatibilityRequirement_ok_named [simp]:
  "CompatibilityRequirement_ok CompatibilityRequirement_NONE"
  "CompatibilityRequirement_ok CompatibilityRequirement_EXACT"
  "CompatibilityRequirement_ok CompatibilityRequirement_COMPATIBLE"
  "CompatibilityRequirement_ok CompatibilityRequirement_COMPATIBLE_WITH_ADAPTATION"
  by (simp_all add: CompatibilityRequirement_ok_def CompatibilityRequirement_of_def)

datatype DependencyKind =
    DependencyKind_UNKNOWN
  | DependencyKind_STATE
  | DependencyKind_TENSOR
  | DependencyKind_MODEL
  | DependencyKind_COMPILED_KERNEL
  | DependencyKind_EXECUTION_GRAPH
  | DependencyKind_CONFIG
  | DependencyKind_unnamed u8

primrec DependencyKind_code :: "DependencyKind \<Rightarrow> u8" where
  "DependencyKind_code DependencyKind_UNKNOWN = 0"
| "DependencyKind_code DependencyKind_STATE = 1"
| "DependencyKind_code DependencyKind_TENSOR = 2"
| "DependencyKind_code DependencyKind_MODEL = 3"
| "DependencyKind_code DependencyKind_COMPILED_KERNEL = 4"
| "DependencyKind_code DependencyKind_EXECUTION_GRAPH = 5"
| "DependencyKind_code DependencyKind_CONFIG = 6"
| "DependencyKind_code (DependencyKind_unnamed b) = b"

definition DependencyKind_of :: "u8 \<Rightarrow> DependencyKind" where
  "DependencyKind_of b =
    (if b = 0 then DependencyKind_UNKNOWN
     else if b = 1 then DependencyKind_STATE
     else if b = 2 then DependencyKind_TENSOR
     else if b = 3 then DependencyKind_MODEL
     else if b = 4 then DependencyKind_COMPILED_KERNEL
     else if b = 5 then DependencyKind_EXECUTION_GRAPH
     else if b = 6 then DependencyKind_CONFIG
     else DependencyKind_unnamed b)"

definition DependencyKind_ok :: "DependencyKind \<Rightarrow> bool" where
  "DependencyKind_ok x \<longleftrightarrow> DependencyKind_of (DependencyKind_code x) = x"

primrec DependencyKind_to_string :: "DependencyKind \<Rightarrow> string" where
  "DependencyKind_to_string DependencyKind_UNKNOWN = ''UNKNOWN''"
| "DependencyKind_to_string DependencyKind_STATE = ''STATE''"
| "DependencyKind_to_string DependencyKind_TENSOR = ''TENSOR''"
| "DependencyKind_to_string DependencyKind_MODEL = ''MODEL''"
| "DependencyKind_to_string DependencyKind_COMPILED_KERNEL = ''COMPILED_KERNEL''"
| "DependencyKind_to_string DependencyKind_EXECUTION_GRAPH = ''EXECUTION_GRAPH''"
| "DependencyKind_to_string DependencyKind_CONFIG = ''CONFIG''"
| "DependencyKind_to_string (DependencyKind_unnamed b) = ''UNKNOWN''"

interpretation DependencyKind: enum_cast DependencyKind_code DependencyKind_of DependencyKind_ok
  by unfold_locales (auto simp: DependencyKind_of_def DependencyKind_ok_def)

lemma DependencyKind_ok_named [simp]:
  "DependencyKind_ok DependencyKind_UNKNOWN"
  "DependencyKind_ok DependencyKind_STATE"
  "DependencyKind_ok DependencyKind_TENSOR"
  "DependencyKind_ok DependencyKind_MODEL"
  "DependencyKind_ok DependencyKind_COMPILED_KERNEL"
  "DependencyKind_ok DependencyKind_EXECUTION_GRAPH"
  "DependencyKind_ok DependencyKind_CONFIG"
  by (simp_all add: DependencyKind_ok_def DependencyKind_of_def)

datatype QueryOutcome =
    QueryOutcome_UNKNOWN
  | QueryOutcome_FOUND_EXACT
  | QueryOutcome_FOUND_COMPATIBLE
  | QueryOutcome_FOUND_MULTIPLE
  | QueryOutcome_NOT_FOUND
  | QueryOutcome_STALE_ONLY
  | QueryOutcome_INCOMPATIBLE_ONLY
  | QueryOutcome_INVALIDATED_ONLY
  | QueryOutcome_INSUFFICIENT_EVIDENCE
  | QueryOutcome_unnamed u8

primrec QueryOutcome_code :: "QueryOutcome \<Rightarrow> u8" where
  "QueryOutcome_code QueryOutcome_UNKNOWN = 0"
| "QueryOutcome_code QueryOutcome_FOUND_EXACT = 1"
| "QueryOutcome_code QueryOutcome_FOUND_COMPATIBLE = 2"
| "QueryOutcome_code QueryOutcome_FOUND_MULTIPLE = 3"
| "QueryOutcome_code QueryOutcome_NOT_FOUND = 4"
| "QueryOutcome_code QueryOutcome_STALE_ONLY = 5"
| "QueryOutcome_code QueryOutcome_INCOMPATIBLE_ONLY = 6"
| "QueryOutcome_code QueryOutcome_INVALIDATED_ONLY = 7"
| "QueryOutcome_code QueryOutcome_INSUFFICIENT_EVIDENCE = 8"
| "QueryOutcome_code (QueryOutcome_unnamed b) = b"

definition QueryOutcome_of :: "u8 \<Rightarrow> QueryOutcome" where
  "QueryOutcome_of b =
    (if b = 0 then QueryOutcome_UNKNOWN
     else if b = 1 then QueryOutcome_FOUND_EXACT
     else if b = 2 then QueryOutcome_FOUND_COMPATIBLE
     else if b = 3 then QueryOutcome_FOUND_MULTIPLE
     else if b = 4 then QueryOutcome_NOT_FOUND
     else if b = 5 then QueryOutcome_STALE_ONLY
     else if b = 6 then QueryOutcome_INCOMPATIBLE_ONLY
     else if b = 7 then QueryOutcome_INVALIDATED_ONLY
     else if b = 8 then QueryOutcome_INSUFFICIENT_EVIDENCE
     else QueryOutcome_unnamed b)"

definition QueryOutcome_ok :: "QueryOutcome \<Rightarrow> bool" where
  "QueryOutcome_ok x \<longleftrightarrow> QueryOutcome_of (QueryOutcome_code x) = x"

primrec QueryOutcome_to_string :: "QueryOutcome \<Rightarrow> string" where
  "QueryOutcome_to_string QueryOutcome_UNKNOWN = ''UNKNOWN''"
| "QueryOutcome_to_string QueryOutcome_FOUND_EXACT = ''FOUND_EXACT''"
| "QueryOutcome_to_string QueryOutcome_FOUND_COMPATIBLE = ''FOUND_COMPATIBLE''"
| "QueryOutcome_to_string QueryOutcome_FOUND_MULTIPLE = ''FOUND_MULTIPLE''"
| "QueryOutcome_to_string QueryOutcome_NOT_FOUND = ''NOT_FOUND''"
| "QueryOutcome_to_string QueryOutcome_STALE_ONLY = ''STALE_ONLY''"
| "QueryOutcome_to_string QueryOutcome_INCOMPATIBLE_ONLY = ''INCOMPATIBLE_ONLY''"
| "QueryOutcome_to_string QueryOutcome_INVALIDATED_ONLY = ''INVALIDATED_ONLY''"
| "QueryOutcome_to_string QueryOutcome_INSUFFICIENT_EVIDENCE = ''INSUFFICIENT_EVIDENCE''"
| "QueryOutcome_to_string (QueryOutcome_unnamed b) = ''UNKNOWN''"

interpretation QueryOutcome: enum_cast QueryOutcome_code QueryOutcome_of QueryOutcome_ok
  by unfold_locales (auto simp: QueryOutcome_of_def QueryOutcome_ok_def)

lemma QueryOutcome_ok_named [simp]:
  "QueryOutcome_ok QueryOutcome_UNKNOWN"
  "QueryOutcome_ok QueryOutcome_FOUND_EXACT"
  "QueryOutcome_ok QueryOutcome_FOUND_COMPATIBLE"
  "QueryOutcome_ok QueryOutcome_FOUND_MULTIPLE"
  "QueryOutcome_ok QueryOutcome_NOT_FOUND"
  "QueryOutcome_ok QueryOutcome_STALE_ONLY"
  "QueryOutcome_ok QueryOutcome_INCOMPATIBLE_ONLY"
  "QueryOutcome_ok QueryOutcome_INVALIDATED_ONLY"
  "QueryOutcome_ok QueryOutcome_INSUFFICIENT_EVIDENCE"
  by (simp_all add: QueryOutcome_ok_def QueryOutcome_of_def)

datatype RejectionReason =
    RejectionReason_NONE
  | RejectionReason_WRONG_STATE_KIND
  | RejectionReason_WRONG_NAMESPACE
  | RejectionReason_STALE_GENERATION
  | RejectionReason_INVALIDATED
  | RejectionReason_TOMBSTONED
  | RejectionReason_COMPATIBILITY_MISMATCH
  | RejectionReason_DEPENDENCY_MISMATCH
  | RejectionReason_HEALTH_UNACCEPTABLE
  | RejectionReason_LOCATION_UNAVAILABLE
  | RejectionReason_FRESHNESS_BELOW_REQUIREMENT
  | RejectionReason_AUTHORITY_STALE
  | RejectionReason_CONTENT_DIGEST_MISMATCH
  | RejectionReason_MISSING_REQUIRED_DEPENDENCY
  | RejectionReason_NOT_CURRENT
  | RejectionReason_INSUFFICIENT_EVIDENCE
  | RejectionReason_SIZE_OUT_OF_RANGE
  | RejectionReason_unnamed u8

primrec RejectionReason_code :: "RejectionReason \<Rightarrow> u8" where
  "RejectionReason_code RejectionReason_NONE = 0"
| "RejectionReason_code RejectionReason_WRONG_STATE_KIND = 1"
| "RejectionReason_code RejectionReason_WRONG_NAMESPACE = 2"
| "RejectionReason_code RejectionReason_STALE_GENERATION = 3"
| "RejectionReason_code RejectionReason_INVALIDATED = 4"
| "RejectionReason_code RejectionReason_TOMBSTONED = 5"
| "RejectionReason_code RejectionReason_COMPATIBILITY_MISMATCH = 6"
| "RejectionReason_code RejectionReason_DEPENDENCY_MISMATCH = 7"
| "RejectionReason_code RejectionReason_HEALTH_UNACCEPTABLE = 8"
| "RejectionReason_code RejectionReason_LOCATION_UNAVAILABLE = 9"
| "RejectionReason_code RejectionReason_FRESHNESS_BELOW_REQUIREMENT = 10"
| "RejectionReason_code RejectionReason_AUTHORITY_STALE = 11"
| "RejectionReason_code RejectionReason_CONTENT_DIGEST_MISMATCH = 12"
| "RejectionReason_code RejectionReason_MISSING_REQUIRED_DEPENDENCY = 13"
| "RejectionReason_code RejectionReason_NOT_CURRENT = 14"
| "RejectionReason_code RejectionReason_INSUFFICIENT_EVIDENCE = 15"
| "RejectionReason_code RejectionReason_SIZE_OUT_OF_RANGE = 16"
| "RejectionReason_code (RejectionReason_unnamed b) = b"

definition RejectionReason_of :: "u8 \<Rightarrow> RejectionReason" where
  "RejectionReason_of b =
    (if b = 0 then RejectionReason_NONE
     else if b = 1 then RejectionReason_WRONG_STATE_KIND
     else if b = 2 then RejectionReason_WRONG_NAMESPACE
     else if b = 3 then RejectionReason_STALE_GENERATION
     else if b = 4 then RejectionReason_INVALIDATED
     else if b = 5 then RejectionReason_TOMBSTONED
     else if b = 6 then RejectionReason_COMPATIBILITY_MISMATCH
     else if b = 7 then RejectionReason_DEPENDENCY_MISMATCH
     else if b = 8 then RejectionReason_HEALTH_UNACCEPTABLE
     else if b = 9 then RejectionReason_LOCATION_UNAVAILABLE
     else if b = 10 then RejectionReason_FRESHNESS_BELOW_REQUIREMENT
     else if b = 11 then RejectionReason_AUTHORITY_STALE
     else if b = 12 then RejectionReason_CONTENT_DIGEST_MISMATCH
     else if b = 13 then RejectionReason_MISSING_REQUIRED_DEPENDENCY
     else if b = 14 then RejectionReason_NOT_CURRENT
     else if b = 15 then RejectionReason_INSUFFICIENT_EVIDENCE
     else if b = 16 then RejectionReason_SIZE_OUT_OF_RANGE
     else RejectionReason_unnamed b)"

definition RejectionReason_ok :: "RejectionReason \<Rightarrow> bool" where
  "RejectionReason_ok x \<longleftrightarrow> RejectionReason_of (RejectionReason_code x) = x"

primrec RejectionReason_to_string :: "RejectionReason \<Rightarrow> string" where
  "RejectionReason_to_string RejectionReason_NONE = ''NONE''"
| "RejectionReason_to_string RejectionReason_WRONG_STATE_KIND = ''WRONG_STATE_KIND''"
| "RejectionReason_to_string RejectionReason_WRONG_NAMESPACE = ''WRONG_NAMESPACE''"
| "RejectionReason_to_string RejectionReason_STALE_GENERATION = ''STALE_GENERATION''"
| "RejectionReason_to_string RejectionReason_INVALIDATED = ''INVALIDATED''"
| "RejectionReason_to_string RejectionReason_TOMBSTONED = ''TOMBSTONED''"
| "RejectionReason_to_string RejectionReason_COMPATIBILITY_MISMATCH = ''COMPATIBILITY_MISMATCH''"
| "RejectionReason_to_string RejectionReason_DEPENDENCY_MISMATCH = ''DEPENDENCY_MISMATCH''"
| "RejectionReason_to_string RejectionReason_HEALTH_UNACCEPTABLE = ''HEALTH_UNACCEPTABLE''"
| "RejectionReason_to_string RejectionReason_LOCATION_UNAVAILABLE = ''LOCATION_UNAVAILABLE''"
| "RejectionReason_to_string RejectionReason_FRESHNESS_BELOW_REQUIREMENT = ''FRESHNESS_BELOW_REQUIREMENT''"
| "RejectionReason_to_string RejectionReason_AUTHORITY_STALE = ''AUTHORITY_STALE''"
| "RejectionReason_to_string RejectionReason_CONTENT_DIGEST_MISMATCH = ''CONTENT_DIGEST_MISMATCH''"
| "RejectionReason_to_string RejectionReason_MISSING_REQUIRED_DEPENDENCY = ''MISSING_REQUIRED_DEPENDENCY''"
| "RejectionReason_to_string RejectionReason_NOT_CURRENT = ''NOT_CURRENT''"
| "RejectionReason_to_string RejectionReason_INSUFFICIENT_EVIDENCE = ''INSUFFICIENT_EVIDENCE''"
| "RejectionReason_to_string RejectionReason_SIZE_OUT_OF_RANGE = ''SIZE_OUT_OF_RANGE''"
| "RejectionReason_to_string (RejectionReason_unnamed b) = ''NONE''"

interpretation RejectionReason: enum_cast RejectionReason_code RejectionReason_of RejectionReason_ok
  by unfold_locales (auto simp: RejectionReason_of_def RejectionReason_ok_def)

lemma RejectionReason_ok_named [simp]:
  "RejectionReason_ok RejectionReason_NONE"
  "RejectionReason_ok RejectionReason_WRONG_STATE_KIND"
  "RejectionReason_ok RejectionReason_WRONG_NAMESPACE"
  "RejectionReason_ok RejectionReason_STALE_GENERATION"
  "RejectionReason_ok RejectionReason_INVALIDATED"
  "RejectionReason_ok RejectionReason_TOMBSTONED"
  "RejectionReason_ok RejectionReason_COMPATIBILITY_MISMATCH"
  "RejectionReason_ok RejectionReason_DEPENDENCY_MISMATCH"
  "RejectionReason_ok RejectionReason_HEALTH_UNACCEPTABLE"
  "RejectionReason_ok RejectionReason_LOCATION_UNAVAILABLE"
  "RejectionReason_ok RejectionReason_FRESHNESS_BELOW_REQUIREMENT"
  "RejectionReason_ok RejectionReason_AUTHORITY_STALE"
  "RejectionReason_ok RejectionReason_CONTENT_DIGEST_MISMATCH"
  "RejectionReason_ok RejectionReason_MISSING_REQUIRED_DEPENDENCY"
  "RejectionReason_ok RejectionReason_NOT_CURRENT"
  "RejectionReason_ok RejectionReason_INSUFFICIENT_EVIDENCE"
  "RejectionReason_ok RejectionReason_SIZE_OUT_OF_RANGE"
  by (simp_all add: RejectionReason_ok_def RejectionReason_of_def)

datatype RankingFactor =
    RankingFactor_EXACT_IDENTITY_MATCH
  | RankingFactor_GENERATION_RECENCY
  | RankingFactor_COMPATIBILITY_QUALITY
  | RankingFactor_LOCALITY
  | RankingFactor_RETRIEVAL_LATENCY
  | RankingFactor_RETRIEVAL_BANDWIDTH
  | RankingFactor_TRANSFER_BYTES
  | RankingFactor_RESTORE_COST
  | RankingFactor_REUSE_COST
  | RankingFactor_HEALTH
  | RankingFactor_REPLICA_COUNT
  | RankingFactor_FRESHNESS
  | RankingFactor_POLICY_PREFERENCE
  | RankingFactor_ADAPTATION_COST
  | RankingFactor_unnamed u8

primrec RankingFactor_code :: "RankingFactor \<Rightarrow> u8" where
  "RankingFactor_code RankingFactor_EXACT_IDENTITY_MATCH = 0"
| "RankingFactor_code RankingFactor_GENERATION_RECENCY = 1"
| "RankingFactor_code RankingFactor_COMPATIBILITY_QUALITY = 2"
| "RankingFactor_code RankingFactor_LOCALITY = 3"
| "RankingFactor_code RankingFactor_RETRIEVAL_LATENCY = 4"
| "RankingFactor_code RankingFactor_RETRIEVAL_BANDWIDTH = 5"
| "RankingFactor_code RankingFactor_TRANSFER_BYTES = 6"
| "RankingFactor_code RankingFactor_RESTORE_COST = 7"
| "RankingFactor_code RankingFactor_REUSE_COST = 8"
| "RankingFactor_code RankingFactor_HEALTH = 9"
| "RankingFactor_code RankingFactor_REPLICA_COUNT = 10"
| "RankingFactor_code RankingFactor_FRESHNESS = 11"
| "RankingFactor_code RankingFactor_POLICY_PREFERENCE = 12"
| "RankingFactor_code RankingFactor_ADAPTATION_COST = 13"
| "RankingFactor_code (RankingFactor_unnamed b) = b"

definition RankingFactor_of :: "u8 \<Rightarrow> RankingFactor" where
  "RankingFactor_of b =
    (if b = 0 then RankingFactor_EXACT_IDENTITY_MATCH
     else if b = 1 then RankingFactor_GENERATION_RECENCY
     else if b = 2 then RankingFactor_COMPATIBILITY_QUALITY
     else if b = 3 then RankingFactor_LOCALITY
     else if b = 4 then RankingFactor_RETRIEVAL_LATENCY
     else if b = 5 then RankingFactor_RETRIEVAL_BANDWIDTH
     else if b = 6 then RankingFactor_TRANSFER_BYTES
     else if b = 7 then RankingFactor_RESTORE_COST
     else if b = 8 then RankingFactor_REUSE_COST
     else if b = 9 then RankingFactor_HEALTH
     else if b = 10 then RankingFactor_REPLICA_COUNT
     else if b = 11 then RankingFactor_FRESHNESS
     else if b = 12 then RankingFactor_POLICY_PREFERENCE
     else if b = 13 then RankingFactor_ADAPTATION_COST
     else RankingFactor_unnamed b)"

definition RankingFactor_ok :: "RankingFactor \<Rightarrow> bool" where
  "RankingFactor_ok x \<longleftrightarrow> RankingFactor_of (RankingFactor_code x) = x"

primrec RankingFactor_to_string :: "RankingFactor \<Rightarrow> string" where
  "RankingFactor_to_string RankingFactor_EXACT_IDENTITY_MATCH = ''EXACT_IDENTITY_MATCH''"
| "RankingFactor_to_string RankingFactor_GENERATION_RECENCY = ''GENERATION_RECENCY''"
| "RankingFactor_to_string RankingFactor_COMPATIBILITY_QUALITY = ''COMPATIBILITY_QUALITY''"
| "RankingFactor_to_string RankingFactor_LOCALITY = ''LOCALITY''"
| "RankingFactor_to_string RankingFactor_RETRIEVAL_LATENCY = ''RETRIEVAL_LATENCY''"
| "RankingFactor_to_string RankingFactor_RETRIEVAL_BANDWIDTH = ''RETRIEVAL_BANDWIDTH''"
| "RankingFactor_to_string RankingFactor_TRANSFER_BYTES = ''TRANSFER_BYTES''"
| "RankingFactor_to_string RankingFactor_RESTORE_COST = ''RESTORE_COST''"
| "RankingFactor_to_string RankingFactor_REUSE_COST = ''REUSE_COST''"
| "RankingFactor_to_string RankingFactor_HEALTH = ''HEALTH''"
| "RankingFactor_to_string RankingFactor_REPLICA_COUNT = ''REPLICA_COUNT''"
| "RankingFactor_to_string RankingFactor_FRESHNESS = ''FRESHNESS''"
| "RankingFactor_to_string RankingFactor_POLICY_PREFERENCE = ''POLICY_PREFERENCE''"
| "RankingFactor_to_string RankingFactor_ADAPTATION_COST = ''ADAPTATION_COST''"
| "RankingFactor_to_string (RankingFactor_unnamed b) = ''UNKNOWN''"

interpretation RankingFactor: enum_cast RankingFactor_code RankingFactor_of RankingFactor_ok
  by unfold_locales (auto simp: RankingFactor_of_def RankingFactor_ok_def)

lemma RankingFactor_ok_named [simp]:
  "RankingFactor_ok RankingFactor_EXACT_IDENTITY_MATCH"
  "RankingFactor_ok RankingFactor_GENERATION_RECENCY"
  "RankingFactor_ok RankingFactor_COMPATIBILITY_QUALITY"
  "RankingFactor_ok RankingFactor_LOCALITY"
  "RankingFactor_ok RankingFactor_RETRIEVAL_LATENCY"
  "RankingFactor_ok RankingFactor_RETRIEVAL_BANDWIDTH"
  "RankingFactor_ok RankingFactor_TRANSFER_BYTES"
  "RankingFactor_ok RankingFactor_RESTORE_COST"
  "RankingFactor_ok RankingFactor_REUSE_COST"
  "RankingFactor_ok RankingFactor_HEALTH"
  "RankingFactor_ok RankingFactor_REPLICA_COUNT"
  "RankingFactor_ok RankingFactor_FRESHNESS"
  "RankingFactor_ok RankingFactor_POLICY_PREFERENCE"
  "RankingFactor_ok RankingFactor_ADAPTATION_COST"
  by (simp_all add: RankingFactor_ok_def RankingFactor_of_def)

section \<open>Parsing a state kind\<close>

text \<open>\<^verbatim>\<open>parse_state_kind\<close>: the loop over the enumerator values 1 to 16, which returns the first
  whose name is the given text and throws when none is.\<close>

fun parse_state_kind_from :: "nat list \<Rightarrow> string \<Rightarrow> exn + StateKind" where
  "parse_state_kind_from [] s = Inl (runtime_error ''unknown state kind'')"
| "parse_state_kind_from (i # is) s =
     (let k = StateKind_of (of_nat i)
      in if StateKind_to_string k = s then Inr k else parse_state_kind_from is s)"

definition parse_state_kind :: "string \<Rightarrow> exn + StateKind" where
  "parse_state_kind s = parse_state_kind_from [1..<17] s"

lemma parse_state_kind_from_Inr:
  "parse_state_kind_from is s = Inr k \<Longrightarrow>
     StateKind_to_string k = s \<and> (\<exists>i\<in>set is. k = StateKind_of (of_nat i))"
  by (induction "is" s rule: parse_state_kind_from.induct) (auto simp: Let_def split: if_splits)

lemma kind_range: "[1..<17] = [1, 2, 3, 4, 5, 6, 7, 8, 9, 10, 11, 12, 13, 14, 15, 16 :: nat]"
  by (simp add: upt_rec)

lemma parse_state_kind_name:
  assumes "\<forall>b. k \<noteq> StateKind_unnamed b"
  shows "parse_state_kind (StateKind_to_string k) = Inr k"
proof -
  from assms show ?thesis
    unfolding parse_state_kind_def kind_range by (cases k) (simp_all add: StateKind_of_def Let_def)
qed

lemma parse_state_kind_iff:
  "parse_state_kind s = Inr k \<longleftrightarrow> StateKind_to_string k = s \<and> (\<forall>b. k \<noteq> StateKind_unnamed b)"
proof
  assume "parse_state_kind s = Inr k"
  then obtain i where i: "StateKind_to_string k = s" "i \<in> set [1..<17]" "k = StateKind_of (of_nat i)"
    unfolding parse_state_kind_def by (blast dest: parse_state_kind_from_Inr)
  have "i \<in> {1, 2, 3, 4, 5, 6, 7, 8, 9, 10, 11, 12, 13, 14, 15, 16}" using i(2) unfolding kind_range by simp
  with i show "StateKind_to_string k = s \<and> (\<forall>b. k \<noteq> StateKind_unnamed b)"
    by (auto simp: StateKind_of_def)
qed (use parse_state_kind_name in blast)

end
