(* ===== verification/Bytebuf.thy ===== *)
theory Bytebuf
  imports Enums
begin

text \<open>
  \<^verbatim>\<open>include/stateindex/bytebuf.hpp\<close>: the bounded serializer and the checking reader.

  A \<^verbatim>\<open>ByteWriter\<close> only ever appends, so each \<open>push_\<close> operation is the list of bytes it
  appends and a sequence of pushes is their concatenation. A \<^verbatim>\<open>ByteReader\<close> is the span it
  reads and a position; a read either throws or returns a value and the advanced reader.
  \<open>decodes p bs x\<close> says that the reader \<open>p\<close>, placed at bytes \<open>bs\<close> anywhere in a buffer,
  consumes exactly \<open>bs\<close> and returns \<open>x\<close>; \<open>safe p\<close> says that \<open>p\<close> never moves past the end of
  the span. The locale \<open>codec\<close> is the contract of every \<^verbatim>\<open>serialize\<close>/\<^verbatim>\<open>deserialize\<close> pair.
\<close>

section \<open>Writer\<close>

definition push_byte :: "u8 \<Rightarrow> bytes" where
  "push_byte b = [b]"

definition push_u16 :: "u16 \<Rightarrow> bytes" where
  "push_u16 v = [ucast (and v 0xff), ucast (and (drop_bit 8 v) 0xff)]"

definition push_u32 :: "u32 \<Rightarrow> bytes" where
  "push_u32 v = List.map (\<lambda>i. ucast (and (drop_bit (8 * i) v) 0xff)) [0..<4]"

definition push_u64 :: "u64 \<Rightarrow> bytes" where
  "push_u64 v = List.map (\<lambda>i. ucast (and (drop_bit (8 * i) v) 0xff)) [0..<8]"

definition push_i64 :: "i64 \<Rightarrow> bytes" where
  "push_i64 v = push_u64 v"

definition push_bytes :: "bytes \<Rightarrow> bytes" where
  "push_bytes p = p"

definition push_string :: "string \<Rightarrow> bytes" where
  "push_string s = push_u64 (of_nat (length s)) @ push_bytes (List.map byte_of_char s)"

definition push_span :: "bytes \<Rightarrow> bytes" where
  "push_span s = push_bytes s"

text \<open>A C string is read up to its NUL; the null pointer stands for the empty string.\<close>

definition push_cstr :: "string option \<Rightarrow> bytes" where
  "push_cstr s = push_string (case s of None \<Rightarrow> [] | Some cs \<Rightarrow> takeWhile (\<lambda>c. c \<noteq> CHR 0x00) cs)"

section \<open>Reader\<close>

record ByteReader =
  rd_span :: bytes
  rd_pos :: nat

type_synonym 'a parser = "ByteReader \<Rightarrow> exn + 'a \<times> ByteReader"

definition remaining :: "ByteReader \<Rightarrow> nat" where
  "remaining r = length (rd_span r) - rd_pos r"

definition reader :: "bytes \<Rightarrow> ByteReader" where
  "reader bs = \<lparr>rd_span = bs, rd_pos = 0\<rparr>"

text \<open>Sequencing: an exception of the first step ends the whole computation.\<close>

definition ret :: "'a \<Rightarrow> 'a parser" where
  "ret x r = Inr (x, r)"

definition throw :: "string \<Rightarrow> 'a parser" where
  "throw msg r = Inl (runtime_error msg)"

definition bindr :: "'a parser \<Rightarrow> ('a \<Rightarrow> 'b parser) \<Rightarrow> 'b parser" where
  "bindr p f r = (case p r of Inl e \<Rightarrow> Inl e | Inr (x, r') \<Rightarrow> f x r')"

definition require :: "nat \<Rightarrow> unit parser" where
  "require n r = (if remaining r < n then throw ''byte reader: out of bounds'' r else ret () r)"

text \<open>\<open>peek r i\<close> is \<^verbatim>\<open>span_.data[pos_ + i]\<close>, whose callers have checked the bounds; the integer
  readers fold over the bytes, least significant first.\<close>

definition peek :: "ByteReader \<Rightarrow> nat \<Rightarrow> u8" where
  "peek r i = rd_span r ! (rd_pos r + i)"

definition advance :: "nat \<Rightarrow> ByteReader \<Rightarrow> ByteReader" where
  "advance n r = r\<lparr>rd_pos := rd_pos r + n\<rparr>"

definition read_u8 :: "u8 parser" where
  "read_u8 = bindr (require 1) (\<lambda>_ r. Inr (peek r 0, advance 1 r))"

definition read_u16 :: "u16 parser" where
  "read_u16 = bindr (require 2) (\<lambda>_ r.
     Inr (or (ucast (peek r 0)) (push_bit 8 (ucast (peek r 1))), advance 2 r))"

definition read_u32 :: "u32 parser" where
  "read_u32 = bindr (require 4) (\<lambda>_ r.
     Inr (fold (\<lambda>i v. or v (push_bit (8 * i) (ucast (peek r i)))) [0..<4] 0, advance 4 r))"

definition read_u64 :: "u64 parser" where
  "read_u64 = bindr (require 8) (\<lambda>_ r.
     Inr (fold (\<lambda>i v. or v (push_bit (8 * i) (ucast (peek r i)))) [0..<8] 0, advance 8 r))"

definition read_i64 :: "i64 parser" where
  "read_i64 = read_u64"

definition read_bytes :: "nat \<Rightarrow> bytes parser" where
  "read_bytes n = bindr (require n) (\<lambda>_ r. Inr (take n (drop (rd_pos r) (rd_span r)), advance n r))"

definition read_string :: "string parser" where
  "read_string = bindr read_u64 (\<lambda>n r.
     if unat n > remaining r
     then throw ''byte reader: string length exceeds remaining bytes'' r
     else bindr (require (unat n)) (\<lambda>_ r.
       Inr (List.map char_of_byte (take (unat n) (drop (rd_pos r) (rd_span r))),
            advance (unat n) r)) r)"

definition has :: "nat \<Rightarrow> ByteReader \<Rightarrow> bool" where
  "has n r \<longleftrightarrow> remaining r \<ge> n"

definition skip :: "nat \<Rightarrow> unit parser" where
  "skip n = bindr (require n) (\<lambda>_ r. Inr ((), advance n r))"

section \<open>What a reader consumes\<close>

definition decodes :: "'a parser \<Rightarrow> bytes \<Rightarrow> 'a \<Rightarrow> bool" where
  "decodes p bs x \<longleftrightarrow>
     (\<forall>pre rest. p \<lparr>rd_span = pre @ bs @ rest, rd_pos = length pre\<rparr>
        = Inr (x, \<lparr>rd_span = pre @ bs @ rest, rd_pos = length pre + length bs\<rparr>))"

definition safe :: "'a parser \<Rightarrow> bool" where
  "safe p \<longleftrightarrow>
     (\<forall>r x r'. p r = Inr (x, r') \<longrightarrow> rd_span r' = rd_span r \<and> rd_pos r \<le> rd_pos r' \<and>
        (rd_pos r \<le> length (rd_span r) \<longrightarrow> rd_pos r' \<le> length (rd_span r)))"

lemma decodesD:
  "decodes p bs x \<Longrightarrow> p \<lparr>rd_span = pre @ bs @ rest, rd_pos = length pre\<rparr>
     = Inr (x, \<lparr>rd_span = pre @ bs @ rest, rd_pos = length pre + length bs\<rparr>)"
  by (simp add: decodes_def)

lemma decodes_whole:
  "decodes p bs x \<Longrightarrow> p (reader bs) = Inr (x, \<lparr>rd_span = bs, rd_pos = length bs\<rparr>)"
  using decodesD [of p bs x "[]" "[]"] by (simp add: reader_def)

lemma decodes_prefix:
  "decodes p bs x \<Longrightarrow> p (reader (bs @ rest)) = Inr (x, \<lparr>rd_span = bs @ rest, rd_pos = length bs\<rparr>)"
  using decodesD [of p bs x "[]" rest] by (simp add: reader_def)

lemma decodes_unique:
  "decodes p bs x \<Longrightarrow> decodes p cs y \<Longrightarrow> bs @ r = cs @ s \<Longrightarrow> x = y \<and> bs = cs \<and> r = s"
  using decodes_prefix [of p bs x r] decodes_prefix [of p cs y s] by auto

lemma decodes_ret [codec_intro]: "x = y \<Longrightarrow> decodes (ret x) [] y"
  by (simp add: decodes_def ret_def)

lemma decodes_bind [codec_intro]:
  assumes "decodes p bs x" and "decodes (f x) cs y"
  shows "decodes (bindr p f) (bs @ cs) y"
proof -
  have "bindr p f \<lparr>rd_span = pre @ (bs @ cs) @ rest, rd_pos = length pre\<rparr> =
      Inr (y, \<lparr>rd_span = pre @ (bs @ cs) @ rest, rd_pos = length pre + length (bs @ cs)\<rparr>)" for pre rest
    using decodesD [OF assms(1), of pre "cs @ rest"] decodesD [OF assms(2), of "pre @ bs" rest]
    by (simp add: bindr_def add.assoc)
  then show ?thesis by (simp only: decodes_def) blast
qed

lemma bindr_InrE:
  assumes "bindr p f r = Inr (y, r')"
  obtains x s where "p r = Inr (x, s)" and "f x s = Inr (y, r')"
  using assms by (auto simp: bindr_def split: sum.splits prod.splits)

text \<open>The last field of a record: its bytes end the encoding.\<close>

lemma decodes_bind_last:
  "decodes p bs x \<Longrightarrow> decodes (f x) [] y \<Longrightarrow> decodes (bindr p f) bs y"
  using decodes_bind [of p bs x f "[]" y] by simp

text \<open>Exposes the final \<open>ret\<close> of a chain of fields to \<open>decodes_ret\<close>.\<close>

lemma decodes_nilI: "decodes p (bs @ []) x \<Longrightarrow> decodes p bs x"
  by simp

lemma safe_ret [safe_intro]: "safe (ret x)"
  by (simp add: safe_def ret_def)

lemma safe_throw [safe_intro]: "safe (throw e)"
  by (simp add: safe_def throw_def)

lemma safe_bind [safe_intro]:
  assumes p: "safe p" and f: "\<And>x. safe (f x)"
  shows "safe (bindr p f)"
  unfolding safe_def
proof (intro allI impI)
  fix r y r'
  assume "bindr p f r = Inr (y, r')"
  then obtain x s where 1: "p r = Inr (x, s)" and 2: "f x s = Inr (y, r')"
    by (auto simp: bindr_def split: sum.splits prod.splits)
  show "rd_span r' = rd_span r \<and> rd_pos r \<le> rd_pos r' \<and>
      (rd_pos r \<le> length (rd_span r) \<longrightarrow> rd_pos r' \<le> length (rd_span r))"
    using p [unfolded safe_def, rule_format, OF 1] f [of x, unfolded safe_def, rule_format, OF 2]
    by auto
qed

lemma safe_if [safe_intro]: "safe p \<Longrightarrow> safe q \<Longrightarrow> safe (if b then p else q)"
  by simp

lemma safe_guard: "safe p \<Longrightarrow> safe q \<Longrightarrow> safe (\<lambda>r. if b r then p r else q r)"
  by (simp add: safe_def)

text \<open>A read of \<open>n\<close> bytes behind the bounds check.\<close>

lemma safe_require [safe_intro]: "safe (bindr (require n) (\<lambda>_ r. Inr (g r, advance n r)))"
  by (auto simp: safe_def bindr_def require_def throw_def ret_def advance_def remaining_def
      split: if_splits)

lemma decodes_require:
  assumes "length bs = n" and "\<And>pre rest. g \<lparr>rd_span = pre @ bs @ rest, rd_pos = length pre\<rparr> = x"
  shows "decodes (bindr (require n) (\<lambda>_ r. Inr (g r, advance n r))) bs x"
  using assms
  by (simp add: decodes_def bindr_def require_def ret_def advance_def remaining_def)

lemma peek_append:
  "i < length bs \<Longrightarrow> peek \<lparr>rd_span = pre @ bs @ rest, rd_pos = length pre\<rparr> i = bs ! i"
  by (simp add: peek_def nth_append)

section \<open>Integers round-trip\<close>

lemma mask_byte: "(255 :: 'a::len word) = mask 8"
  by (simp add: mask_eq_exp_minus_1)

lemma bit_byte_of_word:
  "bit (ucast (ucast (and (drop_bit k v) 0xff) :: u8) :: 'a::len word) n \<longleftrightarrow>
     n < 8 \<and> n < LENGTH('a) \<and> bit (v :: 'a word) (k + n)"
  by (auto simp: bit_simps mask_byte dest: bit_imp_le_length)

lemma fold_le_bytes:
  assumes "\<And>i. i < k \<Longrightarrow> b i = (ucast (and (drop_bit (8 * i) v) 0xff) :: u8)"
  shows "fold (\<lambda>i w. or w (push_bit (8 * i) (ucast (b i)))) [0..<k] 0 = take_bit (8 * k) (v :: 'a::len word)"
  using assms
proof (induction k)
  case 0
  then show ?case by simp
next
  case (Suc k)
  have "or (take_bit (8 * k) v) (push_bit (8 * k) (ucast (b k))) = take_bit (8 * Suc k) v"
    by (rule bit_word_eqI)
      (auto simp: Suc.prems bit_byte_of_word bit_take_bit_iff bit_or_iff bit_push_bit_iff)
  with Suc show ?case by simp
qed

lemma decodes_u8 [codec_intro]: "decodes read_u8 (push_byte b) b"
  unfolding read_u8_def push_byte_def
  by (rule decodes_require) (simp_all add: peek_def nth_append)

lemma decodes_u16 [codec_intro]: "decodes read_u16 (push_u16 v) v"
  unfolding read_u16_def
proof (rule decodes_require)
  have "or (ucast (ucast (and v 0xff) :: u8))
      (push_bit 8 (ucast (ucast (and (drop_bit 8 v) 0xff) :: u8))) = v"
    by (rule bit_word_eqI)
      (auto simp: bit_simps mask_byte)
  then show "or (ucast (peek \<lparr>rd_span = pre @ push_u16 v @ rest, rd_pos = length pre\<rparr> 0))
      (push_bit 8 (ucast (peek \<lparr>rd_span = pre @ push_u16 v @ rest, rd_pos = length pre\<rparr> 1))) = v"
    for pre rest
    by (subst (1 2) peek_append) (simp_all add: push_u16_def)
qed (simp add: push_u16_def)

lemma decodes_u32 [codec_intro]: "decodes read_u32 (push_u32 v) v"
  unfolding read_u32_def
  by (rule decodes_require)
    (simp_all add: push_u32_def fold_le_bytes [where v = v] peek_append take_bit_word_eq_self)

lemma decodes_u64 [codec_intro]: "decodes read_u64 (push_u64 v) v"
  unfolding read_u64_def
  by (rule decodes_require)
    (simp_all add: push_u64_def fold_le_bytes [where v = v] peek_append take_bit_word_eq_self)

lemma decodes_i64 [codec_intro]: "decodes read_i64 (push_i64 v) v"
  by (simp add: read_i64_def push_i64_def decodes_u64)

lemma decodes_bytes [codec_intro]: "length p = n \<Longrightarrow> decodes (read_bytes n) (push_bytes p) p"
  unfolding read_bytes_def push_bytes_def by (rule decodes_require) simp_all

lemma decodes_skip: "decodes (skip (length p)) (push_span p) ()"
  unfolding skip_def push_span_def push_bytes_def by (rule decodes_require) simp_all

text \<open>The check callers may make beforehand is the one the reader makes.\<close>

lemma has_skip: "skip n r = (if has n r then Inr ((), advance n r) else Inl (runtime_error ''byte reader: out of bounds''))"
  by (simp add: skip_def has_def bindr_def require_def throw_def ret_def)

lemma decodes_string [codec_intro]:
  assumes "length s < 2 ^ 64"
  shows "decodes read_string (push_string s) s"
  unfolding read_string_def push_string_def
proof (rule decodes_bind [OF decodes_u64])
  have n: "unat (of_nat (length s) :: u64) = length s"
    using assms by (simp add: unat_of_nat)
  show "decodes (\<lambda>r. if unat (of_nat (length s) :: u64) > remaining r
      then throw ''byte reader: string length exceeds remaining bytes'' r
      else bindr (require (unat (of_nat (length s) :: u64))) (\<lambda>_ r.
        Inr (List.map char_of_byte (take (unat (of_nat (length s) :: u64)) (drop (rd_pos r) (rd_span r))),
             advance (unat (of_nat (length s) :: u64)) r)) r)
      (push_bytes (List.map byte_of_char s)) s"
    unfolding n
    by (simp add: decodes_def remaining_def bindr_def require_def ret_def advance_def push_bytes_def
        take_map comp_def)
qed

lemma decodes_cstr:
  assumes "length s < 2 ^ 64"
  shows "decodes read_string (push_cstr (Some s)) (takeWhile (\<lambda>c. c \<noteq> CHR 0x00) s)"
    and "decodes read_string (push_cstr None) []"
  unfolding push_cstr_def
  using le_less_trans [OF length_takeWhile_le assms] by (auto intro!: decodes_string)

lemma safe_u8 [safe_intro]: "safe read_u8"
  unfolding read_u8_def by (rule safe_require)

lemma safe_u16 [safe_intro]: "safe read_u16"
  unfolding read_u16_def by (rule safe_require)

lemma safe_u32 [safe_intro]: "safe read_u32"
  unfolding read_u32_def by (rule safe_require)

lemma safe_u64 [safe_intro]: "safe read_u64"
  unfolding read_u64_def by (rule safe_require)

lemma safe_i64 [safe_intro]: "safe read_i64"
  unfolding read_i64_def by (rule safe_u64)

lemma safe_bytes [safe_intro]: "safe (read_bytes n)"
  unfolding read_bytes_def by (rule safe_require)

lemma safe_skip [safe_intro]: "safe (skip n)"
  unfolding skip_def by (rule safe_require)

lemma safe_string [safe_intro]: "safe read_string"
  unfolding read_string_def
  by (intro safe_bind [OF safe_u64] safe_guard safe_throw safe_require)

section \<open>Every byte string is an encoding of integers\<close>

lemma length_push [simp]:
  "length (push_u16 a) = 2" "length (push_u32 b) = 4" "length (push_u64 c) = 8" "length (push_bytes p) = length p"
  by (simp_all add: push_u16_def push_u32_def push_u64_def push_bytes_def)

lemma bindr_decodes:
  assumes "decodes p bs x" and "rd_span r = pre @ bs @ rest" and "rd_pos r = length pre"
  shows "bindr p f r = f x (r\<lparr>rd_pos := length (pre @ bs)\<rparr>)"
  using assms by (cases r) (simp add: bindr_def decodesD)

lemma fold_bytes_bit:
  "bit (fold (\<lambda>i w. or w (push_bit (8 * i) (ucast (b i :: u8)))) [0..<k] (0 :: 'a::len word)) n \<longleftrightarrow>
     n < 8 * k \<and> n < LENGTH('a) \<and> bit (b (n div 8)) (n mod 8)"
proof (induction k)
  case (Suc k)
  have top: "bit (push_bit (8 * k) (ucast (b k)) :: 'a word) n \<longleftrightarrow>
      8 * k \<le> n \<and> n < 8 * Suc k \<and> n < LENGTH('a) \<and> bit (b (n div 8)) (n mod 8)"
  proof (cases "8 * k \<le> n \<and> n < 8 * Suc k")
    case True
    then obtain j where n: "n = 8 * k + j" "j < 8" by (metis add_less_cancel_left le_iff_add mult_Suc_right add.commute)
    have "n div 8 = k" "n mod 8 = j" unfolding n(1) using n(2) by simp_all
    then show ?thesis unfolding n(1) using n(2) by (simp only:) (auto simp: bit_push_bit_iff bit_ucast_iff)
  next
    case False
    have "bit (b k) (n - 8 * k) \<Longrightarrow> n - 8 * k < 8" using bit_imp_le_length [of "b k" "n - 8 * k"] by simp
    with False show ?thesis by (auto simp: bit_push_bit_iff bit_ucast_iff)
  qed
  show ?case
    by (simp add: bit_or_iff Suc.IH top del: mult_Suc_right) auto
qed simp

lemma byte_of_fold:
  assumes "i < k" and "8 * k \<le> LENGTH('a)"
  shows "ucast (and (drop_bit (8 * i) (fold (\<lambda>i w. or w (push_bit (8 * i) (ucast (b i)))) [0..<k] (0 :: 'a::len word))) 0xff)
    = (b i :: u8)"
proof (rule bit_word_eqI)
  fix n assume "n < LENGTH(8)"
  then have "n < 8" by simp
  with assms show "bit (ucast (and (drop_bit (8 * i) (fold (\<lambda>i w. or w (push_bit (8 * i) (ucast (b i)))) [0..<k]
      (0 :: 'a word))) 0xff) :: u8) n \<longleftrightarrow> bit (b i) n"
    by (simp add: bit_ucast_iff bit_and_iff bit_drop_bit_eq fold_bytes_bit mask_byte bit_mask_iff)
qed

lemma u32_bytes: "length bs = 4 \<Longrightarrow> \<exists>v. bs = push_u32 v"
  by (rule exI [where x = "fold (\<lambda>i w. or w (push_bit (8 * i) (ucast (bs ! i)))) [0..<4] 0"], rule nth_equalityI)
    (simp_all add: push_u32_def byte_of_fold del: upt_rec_numeral)

lemma u64_bytes: "length bs = 8 \<Longrightarrow> \<exists>v. bs = push_u64 v"
  by (rule exI [where x = "fold (\<lambda>i w. or w (push_bit (8 * i) (ucast (bs ! i)))) [0..<8] 0"], rule nth_equalityI)
    (simp_all add: push_u64_def byte_of_fold del: upt_rec_numeral)

lemma u16_bytes:
  assumes "length bs = 2"
  shows "\<exists>v. bs = push_u16 v"
proof -
  let ?v = "fold (\<lambda>i w. or w (push_bit (8 * i) (ucast (bs ! i)))) [0..<2] (0 :: u16)"
  have "bs = [bs ! 0, bs ! 1]" using assms by (auto simp: length_Suc_conv numeral_2_eq_2)
  also have "\<dots> = push_u16 ?v"
    using byte_of_fold [where 'a = 16, of 0 2 "\<lambda>i. bs ! i"] byte_of_fold [where 'a = 16, of 1 2 "\<lambda>i. bs ! i"]
    by (simp add: push_u16_def del: upt_rec_numeral)
  finally show ?thesis by blast
qed

lemma push_u32_inject [simp]: "push_u32 a = push_u32 b \<longleftrightarrow> a = b"
  using decodes_unique [OF decodes_u32 [of a] decodes_u32 [of b], of "[]" "[]"] by auto

section \<open>Booleans, optional fields and counted sequences\<close>

text \<open>The idioms the \<^verbatim>\<open>serialize\<close> methods share: \<^verbatim>\<open>push_byte(b ? 1 : 0)\<close>, a presence byte before
  an optional field, a 64-bit count before a sequence whose reader first checks a bound.\<close>

definition push_bool :: "bool \<Rightarrow> bytes" where
  "push_bool b = push_byte (if b then 1 else 0)"

definition read_bool :: "bool parser" where
  "read_bool = bindr read_u8 (\<lambda>b. ret (b \<noteq> 0))"

definition push_opt :: "('a \<Rightarrow> bytes) \<Rightarrow> 'a option \<Rightarrow> bytes" where
  "push_opt enc x = push_bool (x \<noteq> None) @ (case x of None \<Rightarrow> [] | Some y \<Rightarrow> enc y)"

definition read_opt :: "'a parser \<Rightarrow> 'a option parser" where
  "read_opt dec = bindr read_bool (\<lambda>b. if b then bindr dec (\<lambda>x. ret (Some x)) else ret None)"

definition push_list :: "('a \<Rightarrow> bytes) \<Rightarrow> 'a list \<Rightarrow> bytes" where
  "push_list enc xs = push_u64 (of_nat (length xs)) @ concat (List.map enc xs)"

fun read_n :: "nat \<Rightarrow> 'a parser \<Rightarrow> 'a list parser" where
  "read_n 0 dec = ret []"
| "read_n (Suc n) dec = bindr dec (\<lambda>x. bindr (read_n n dec) (\<lambda>xs. ret (x # xs)))"

definition read_list :: "u64 \<Rightarrow> string \<Rightarrow> 'a parser \<Rightarrow> 'a list parser" where
  "read_list bound msg dec =
     bindr read_u64 (\<lambda>n. if n > bound then throw msg else read_n (unat n) dec)"

lemma decodes_bool [codec_intro]: "decodes read_bool (push_bool b) b"
  unfolding read_bool_def push_bool_def
  by (rule decodes_bind_last [OF decodes_u8], rule decodes_ret) simp

lemma decodes_opt [codec_intro]:
  assumes "\<And>y. x = Some y \<Longrightarrow> decodes dec (enc y) y"
  shows "decodes (read_opt dec) (push_opt enc x) x"
  unfolding read_opt_def push_opt_def
proof (rule decodes_bind [OF decodes_bool])
  show "decodes (if x \<noteq> None then bindr dec (\<lambda>x. ret (Some x)) else ret None)
      (case x of None \<Rightarrow> [] | Some y \<Rightarrow> enc y) x"
  proof (cases x)
    case None
    then show ?thesis by (simp add: decodes_ret)
  next
    case (Some y)
    with assms have "decodes (bindr dec (\<lambda>x. ret (Some x))) (enc y) (Some y)"
      by (intro decodes_bind_last decodes_ret) auto
    with Some show ?thesis by simp
  qed
qed

lemma decodes_n:
  "(\<And>x. x \<in> set xs \<Longrightarrow> decodes dec (enc x) x) \<Longrightarrow>
     decodes (read_n (length xs) dec) (concat (List.map enc xs)) xs"
proof (induction xs)
  case Nil
  then show ?case by (simp add: decodes_ret)
next
  case (Cons x xs)
  then have "decodes (bindr (read_n (length xs) dec) (\<lambda>ys. ret (x # ys))) (concat (List.map enc xs)) (x # xs)"
    by (intro decodes_bind_last decodes_ret) auto
  with Cons show ?case by (auto intro!: decodes_bind)
qed

lemma decodes_list [codec_intro]:
  assumes "\<And>x. x \<in> set xs \<Longrightarrow> decodes dec (enc x) x" and "length xs \<le> unat bound"
  shows "decodes (read_list bound msg dec) (push_list enc xs) xs"
  unfolding read_list_def push_list_def
proof (rule decodes_bind [OF decodes_u64])
  have n: "unat (of_nat (length xs) :: u64) = length xs"
    using assms(2) unsigned_less [of bound, where ?'a = nat] by (simp add: unat_of_nat)
  with assms(2) have "\<not> of_nat (length xs) > bound"
    by (simp add: word_less_nat_alt)
  with n decodes_n [OF assms(1)]
  show "decodes (if of_nat (length xs) > bound then throw msg
      else read_n (unat (of_nat (length xs) :: u64)) dec) (concat (List.map enc xs)) xs"
    by simp
qed

lemma safe_bool [safe_intro]: "safe read_bool"
  unfolding read_bool_def by (intro safe_intro)

lemma safe_opt [safe_intro]: "safe dec \<Longrightarrow> safe (read_opt dec)"
  unfolding read_opt_def by (intro safe_intro)

lemma safe_n [safe_intro]: "safe dec \<Longrightarrow> safe (read_n n dec)"
  by (induction n) (auto intro!: safe_intro)

lemma safe_list [safe_intro]: "safe dec \<Longrightarrow> safe (read_list bound msg dec)"
  unfolding read_list_def by (intro safe_intro)

text \<open>A count above the bound is refused before any element is read.\<close>

lemma read_list_bound:
  assumes "read_list bound msg dec r = Inr (xs, r')"
  shows "length xs \<le> unat bound"
proof -
  have len: "read_n n dec r = Inr (xs, r') \<Longrightarrow> length xs = n" for n r xs r'
    by (induction n arbitrary: r xs) (auto simp: bindr_def ret_def split: sum.splits prod.splits)
  from assms show ?thesis
    by (auto simp: read_list_def bindr_def throw_def word_less_nat_alt not_less
        split: sum.splits prod.splits if_splits dest!: len)
qed

section \<open>The contract of serialize and deserialize\<close>

locale codec =
  fixes enc :: "'a \<Rightarrow> bytes" and dec :: "'a parser" and valid :: "'a \<Rightarrow> bool"
  assumes dec_enc: "valid x \<Longrightarrow> decodes dec (enc x) x"
    and dec_safe: "safe dec"
begin

lemma roundtrip:
  "valid x \<Longrightarrow> dec (reader (enc x @ rest)) = Inr (x, \<lparr>rd_span = enc x @ rest, rd_pos = length (enc x)\<rparr>)"
  by (rule decodes_prefix [OF dec_enc])

lemma enc_prefix_free:
  "valid x \<Longrightarrow> valid y \<Longrightarrow> enc x @ r = enc y @ s \<Longrightarrow> x = y \<and> r = s"
  using decodes_unique [OF dec_enc dec_enc] by blast

lemma enc_inject: "valid x \<Longrightarrow> valid y \<Longrightarrow> enc x = enc y \<longleftrightarrow> x = y"
  using enc_prefix_free [of x y "[]" "[]"] by auto

lemma in_bounds:
  "dec (reader bs) = Inr (x, r) \<Longrightarrow> rd_span r = bs \<and> rd_pos r \<le> length bs"
  using dec_safe [unfolded safe_def, rule_format, of "reader bs" x r] by (simp add: reader_def)

lemma list_dec_enc:
  "\<forall>x\<in>set xs. valid x \<Longrightarrow> length xs \<le> unat bound \<Longrightarrow>
     decodes (read_list bound msg dec) (push_list enc xs) xs"
  by (intro decodes_list dec_enc) auto

lemma opt_dec_enc:
  "pred_option valid x \<Longrightarrow> decodes (read_opt dec) (push_opt enc x) x"
  by (intro decodes_opt dec_enc) (auto simp: option.pred_set)

end

section \<open>Codecs of the strong types\<close>

definition id_serialize :: "'tag StrongId \<Rightarrow> bytes" where
  "id_serialize i = push_u64 (id_value i)"

definition id_deserialize :: "'tag StrongId parser" where
  "id_deserialize = bindr read_u64 (\<lambda>v. ret (StrongId v))"

definition gen_serialize :: "'tag Generation \<Rightarrow> bytes" where
  "gen_serialize g = push_u64 (gen_value g)"

definition gen_deserialize :: "'tag Generation parser" where
  "gen_deserialize = bindr read_u64 (\<lambda>v. ret (Generation v))"

lemma decodes_id [codec_intro]: "decodes id_deserialize (id_serialize i) i"
  unfolding id_deserialize_def id_serialize_def
  by (rule decodes_bind_last [OF decodes_u64], rule decodes_ret) simp

lemma decodes_gen [codec_intro]: "decodes gen_deserialize (gen_serialize g) g"
  unfolding gen_deserialize_def gen_serialize_def
  by (rule decodes_bind_last [OF decodes_u64], rule decodes_ret) simp

lemma safe_id [safe_intro]: "safe id_deserialize"
  unfolding id_deserialize_def by (intro safe_intro)

lemma safe_gen [safe_intro]: "safe gen_deserialize"
  unfolding gen_deserialize_def by (intro safe_intro)

interpretation u64_codec: codec push_u64 read_u64 "\<lambda>_. True"
  by unfold_locales (auto intro: codec_intro safe_intro)

interpretation string_codec: codec push_string read_string "\<lambda>s. length s < 2 ^ 64"
  by unfold_locales (auto intro: codec_intro safe_intro)

interpretation id_codec: codec id_serialize id_deserialize "\<lambda>_. True"
  by unfold_locales (auto intro: codec_intro safe_intro)

interpretation gen_codec: codec gen_serialize gen_deserialize "\<lambda>_. True"
  by unfold_locales (auto intro: codec_intro safe_intro)

end
