(* ===== verification/Digest.thy ===== *)
theory Digest
  imports Bytebuf
begin

unbundle bit_operations_syntax

text \<open>
  \<^verbatim>\<open>include/stateindex/digest.hpp\<close> and \<^verbatim>\<open>crc32_over_two\<close> of \<^verbatim>\<open>protocol.hpp\<close>: the table-driven
  CRC-32, SHA-256 and hexadecimal text. The CRC lemmas show that the table computes the
  bitwise shift register, that running it over two buffers is running it over their
  concatenation, and that a change of a single byte always changes the checksum.
\<close>

section \<open>CRC-32\<close>

definition kPoly :: u32 where
  "kPoly = 0xEDB88320"

text \<open>One turn of the inner loop that fills the table.\<close>

definition crc_shift :: "u32 \<Rightarrow> u32" where
  "crc_shift c = (if c AND 1 \<noteq> 0 then kPoly XOR (drop_bit 1 c) else drop_bit 1 c)"

definition crc_table :: "u32 list" where
  "crc_table = List.map (\<lambda>i. (crc_shift ^^ 8) (of_nat i)) [0..<256]"

definition crc_update :: "u32 \<Rightarrow> u8 \<Rightarrow> u32" where
  "crc_update crc b = crc_table ! unat ((crc XOR ucast b) AND 0xff) XOR drop_bit 8 crc"

definition crc32 :: "bytes \<Rightarrow> u32" where
  "crc32 bs = foldl crc_update 0xFFFFFFFF bs XOR 0xFFFFFFFF"

definition crc32_over_two :: "bytes \<Rightarrow> bytes \<Rightarrow> u32" where
  "crc32_over_two a b = foldl crc_update (foldl crc_update 0xFFFFFFFF a) b XOR 0xFFFFFFFF"

text \<open>The checksum without a table: eight shifts per byte.\<close>

definition crc_update_ref :: "u32 \<Rightarrow> u8 \<Rightarrow> u32" where
  "crc_update_ref crc b = (crc_shift ^^ 8) (crc XOR ucast b)"

lemma xor_left_cancel: "(a :: 'a::len word) XOR b = a XOR c \<longleftrightarrow> b = c"
  by (metis xor.assoc xor.left_neutral xor_self_eq)

lemma xor_right_cancel: "b XOR (a :: 'a::len word) = c XOR a \<longleftrightarrow> b = c"
  by (simp add: xor.commute [of _ a] xor_left_cancel)

lemma crc_shift_alt: "crc_shift c = drop_bit 1 c XOR (if bit c 0 then kPoly else 0)"
  by (simp add: crc_shift_def and_one_eq odd_iff_mod_2_eq_one bit_0 xor.commute)

lemma crc_shift_xor: "crc_shift (a XOR b) = crc_shift a XOR crc_shift b"
  by (rule bit_word_eqI) (auto simp: crc_shift_alt bit_simps)

lemma crc_shift_pow_xor: "(crc_shift ^^ n) (a XOR b) = (crc_shift ^^ n) a XOR (crc_shift ^^ n) b"
  by (induction n) (simp_all add: crc_shift_xor)

lemma crc_shift_high: "take_bit n x = 0 \<Longrightarrow> (crc_shift ^^ n) x = drop_bit n x"
proof (induction n)
  case 0
  then show ?case by simp
next
  case (Suc n)
  have low: "take_bit n x = 0"
    using Suc.prems take_bit_take_bit [of n "Suc n" x] by simp
  have bn: "\<not> bit x n"
    using Suc.prems bit_take_bit_iff [of "Suc n" x n] by simp
  from bn have "\<not> bit (drop_bit n x) 0"
    by (simp add: bit_drop_bit_eq)
  with Suc.IH [OF low] show ?case
    by (simp add: crc_shift_alt add.commute)
qed

lemma crc_table_nth: "crc_table ! unat (x AND 0xff) = (crc_shift ^^ 8) (x AND 0xff)"
proof -
  have "unat (x AND 0xff) \<le> unat (0xff :: u32)"
    by (rule word_and_le1 [THEN word_le_nat_alt [THEN iffD1]])
  then have "unat (x AND 0xff) < 256" by simp
  then show ?thesis
    unfolding crc_table_def by (subst nth_map) (simp_all del: upt_rec_numeral)
qed

lemma crc_update_eq_ref: "crc_update crc b = crc_update_ref crc b"
proof -
  let ?x = "crc XOR ucast b :: u32"
  have split: "?x = (?x AND 0xff) XOR (?x AND NOT 0xff)"
    by (rule bit_word_eqI) (auto simp: bit_simps)
  have "take_bit 8 (?x AND NOT 0xff) = 0"
    by (rule bit_word_eqI) (auto simp: bit_simps mask_byte)
  then have "(crc_shift ^^ 8) (?x AND NOT 0xff) = drop_bit 8 (?x AND NOT 0xff)"
    by (rule crc_shift_high)
  also have "\<dots> = drop_bit 8 crc"
    by (rule bit_word_eqI) (auto simp: bit_simps mask_byte dest: bit_imp_le_length)
  finally show ?thesis
    unfolding crc_update_def crc_update_ref_def crc_table_nth
    by (subst (2) split) (simp only: crc_shift_pow_xor)
qed

lemma crc_shift_inj: "crc_shift x = crc_shift y \<Longrightarrow> x = y"
proof -
  assume eq: "crc_shift x = crc_shift y"
  have top: "bit (crc_shift z) 31 \<longleftrightarrow> bit z 0" for z
    by (auto simp: crc_shift_alt kPoly_def bit_simps dest: bit_imp_le_length)
  from eq top have low: "bit x 0 = bit y 0" by metis
  with eq have high: "drop_bit 1 x = drop_bit 1 y"
    by (auto simp: crc_shift_alt xor_right_cancel split: if_splits)
  show "x = y"
  proof (rule bit_word_eqI)
    fix n
    show "bit x n = bit y n"
    proof (cases n)
      case 0
      with low show ?thesis by simp
    next
      case (Suc m)
      have "bit (drop_bit 1 x) m = bit (drop_bit 1 y) m" by (simp only: high)
      with Suc show ?thesis by (simp add: bit_drop_bit_eq)
    qed
  qed
qed

lemma crc_shift_pow_inj: "(crc_shift ^^ n) x = (crc_shift ^^ n) y \<Longrightarrow> x = y"
  by (induction n) (auto dest: crc_shift_inj)

lemma crc_update_inj_byte: "crc_update c a = crc_update c b \<Longrightarrow> a = b"
proof -
  assume "crc_update c a = crc_update c b"
  then have "(ucast a :: u32) = ucast b"
    by (auto simp: crc_update_eq_ref crc_update_ref_def xor_left_cancel dest: crc_shift_pow_inj)
  then show "a = b" by (auto simp: bit_eq_iff bit_ucast_iff dest: bit_imp_le_length)
qed

lemma crc_update_inj_crc: "crc_update c b = crc_update d b \<Longrightarrow> c = d"
  by (auto simp: crc_update_eq_ref crc_update_ref_def xor.commute [of _ "ucast b"] xor_left_cancel
      dest!: crc_shift_pow_inj)

lemma crc_foldl_inj: "foldl crc_update c bs = foldl crc_update d bs \<Longrightarrow> c = d"
  by (induction bs arbitrary: c d) (auto dest: crc_update_inj_crc)

lemma crc32_over_two_append: "crc32_over_two a b = crc32 (a @ b)"
  by (simp add: crc32_over_two_def crc32_def)

lemma crc32_one_byte:
  assumes "b \<noteq> b'"
  shows "crc32 (xs @ b # ys) \<noteq> crc32 (xs @ b' # ys)"
proof
  assume "crc32 (xs @ b # ys) = crc32 (xs @ b' # ys)"
  then have "foldl crc_update (crc_update (foldl crc_update 0xFFFFFFFF xs) b) ys
      = foldl crc_update (crc_update (foldl crc_update 0xFFFFFFFF xs) b') ys"
    by (simp add: crc32_def xor.commute [of _ "0xFFFFFFFF"] xor_left_cancel)
  with assms show False
    by (auto dest!: crc_foldl_inj crc_update_inj_byte)
qed

lemma crc32_update:
  assumes "i < length xs" and "b \<noteq> xs ! i"
  shows "crc32 (xs[i := b]) \<noteq> crc32 xs"
  using crc32_one_byte [of b "xs ! i" "take i xs" "drop (Suc i) xs"] assms
  by (simp add: upd_conv_take_nth_drop id_take_nth_drop [symmetric])

section \<open>SHA-256\<close>

definition sha_k :: "u32 list" where
  "sha_k = concat [
     [0x428a2f98, 0x71374491, 0xb5c0fbcf, 0xe9b5dba5, 0x3956c25b, 0x59f111f1],
     [0x923f82a4, 0xab1c5ed5, 0xd807aa98, 0x12835b01, 0x243185be, 0x550c7dc3],
     [0x72be5d74, 0x80deb1fe, 0x9bdc06a7, 0xc19bf174, 0xe49b69c1, 0xefbe4786],
     [0x0fc19dc6, 0x240ca1cc, 0x2de92c6f, 0x4a7484aa, 0x5cb0a9dc, 0x76f988da],
     [0x983e5152, 0xa831c66d, 0xb00327c8, 0xbf597fc7, 0xc6e00bf3, 0xd5a79147],
     [0x06ca6351, 0x14292967, 0x27b70a85, 0x2e1b2138, 0x4d2c6dfc, 0x53380d13],
     [0x650a7354, 0x766a0abb, 0x81c2c92e, 0x92722c85, 0xa2bfe8a1, 0xa81a664b],
     [0xc24b8b70, 0xc76c51a3, 0xd192e819, 0xd6990624, 0xf40e3585, 0x106aa070],
     [0x19a4c116, 0x1e376c08, 0x2748774c, 0x34b0bcb5, 0x391c0cb3, 0x4ed8aa4a],
     [0x5b9cca4f, 0x682e6ff3, 0x748f82ee, 0x78a5636f, 0x84c87814, 0x8cc70208],
     [0x90befffa, 0xa4506ceb, 0xbef9a3f7, 0xc67178f2]]"

definition sha_init :: "u32 list" where
  "sha_init =
     [0x6a09e667, 0xbb67ae85, 0x3c6ef372, 0xa54ff53a,
      0x510e527f, 0x9b05688c, 0x1f83d9ab, 0x5be0cd19]"

text \<open>Message padding: \<^verbatim>\<open>while ((msg.size() % 64u) != 56u) msg.push_back(0x00u)\<close>.\<close>

definition pad_measure :: "nat \<Rightarrow> nat" where
  "pad_measure m = (if m \<le> 56 then 56 - m else 120 - m)"

lemma pad_measure_less:
  assumes "n mod 64 \<noteq> 56"
  shows "pad_measure (Suc n mod 64) < pad_measure (n mod 64)"
proof -
  have less: "m < 64 \<Longrightarrow> m \<noteq> 56 \<Longrightarrow> pad_measure (if Suc m = 64 then 0 else Suc m) < pad_measure m" for m
    by (cases "m < 56"; cases "m = 63") (auto simp: pad_measure_def)
  have "n mod 64 < 64" by simp
  from less [OF this assms] show ?thesis by (simp only: mod_Suc)
qed

function sha_pad_loop :: "bytes \<Rightarrow> bytes" where
  "sha_pad_loop msg = (if length msg mod 64 \<noteq> 56 then sha_pad_loop (msg @ [0]) else msg)"
  by pat_completeness auto
termination
  by (relation "measure (\<lambda>msg. pad_measure (length msg mod 64))") (simp_all add: pad_measure_less)

declare sha_pad_loop.simps [simp del]

definition sha_pad :: "bytes \<Rightarrow> bytes" where
  "sha_pad bs =
     (let bit_len = (of_nat (length bs) :: u64) * 8
      in sha_pad_loop (bs @ [0x80])
         @ List.map (\<lambda>i. ucast (drop_bit (8 * i) bit_len AND 0xff)) (rev [0..<8]))"

definition rotr :: "u32 \<Rightarrow> nat \<Rightarrow> u32" where
  "rotr x n = drop_bit n x OR push_bit (32 - n) x"

text \<open>The first sixteen words of the schedule are the block, big-endian.\<close>

definition sha_block_word :: "bytes \<Rightarrow> nat \<Rightarrow> nat \<Rightarrow> u32" where
  "sha_block_word msg block i =
     (let off = block + i * 4
      in push_bit 24 (ucast (msg ! off)) OR push_bit 16 (ucast (msg ! (off + 1)))
         OR push_bit 8 (ucast (msg ! (off + 2))) OR ucast (msg ! (off + 3)))"

definition sha_extend :: "u32 list \<Rightarrow> nat \<Rightarrow> u32 list" where
  "sha_extend w i =
     (let s0 = rotr (w ! (i - 15)) 7 XOR rotr (w ! (i - 15)) 18 XOR drop_bit 3 (w ! (i - 15));
          s1 = rotr (w ! (i - 2)) 17 XOR rotr (w ! (i - 2)) 19 XOR drop_bit 10 (w ! (i - 2))
      in w @ [w ! (i - 16) + s0 + w ! (i - 7) + s1])"

definition sha_schedule :: "bytes \<Rightarrow> nat \<Rightarrow> u32 list" where
  "sha_schedule msg block =
     foldl sha_extend (List.map (sha_block_word msg block) [0..<16]) [16..<64]"

text \<open>One of the 64 rounds on the working variables \<open>a\<close> to \<open>h\<close>.\<close>

type_synonym sha_vars = "u32 \<times> u32 \<times> u32 \<times> u32 \<times> u32 \<times> u32 \<times> u32 \<times> u32"

definition sha_round :: "u32 list \<Rightarrow> sha_vars \<Rightarrow> nat \<Rightarrow> sha_vars" where
  "sha_round w v i =
     (case v of (a, b, c, d, e, f, g, hh) \<Rightarrow>
      let s1 = rotr e 6 XOR rotr e 11 XOR rotr e 25;
          ch = (e AND f) XOR (NOT e AND g);
          t1 = hh + s1 + ch + sha_k ! i + w ! i;
          s0 = rotr a 2 XOR rotr a 13 XOR rotr a 22;
          maj = (a AND b) XOR (a AND c) XOR (b AND c);
          t2 = s0 + maj
      in (t1 + t2, a, b, c, d + t1, e, f, g))"

definition sha_block :: "bytes \<Rightarrow> u32 list \<Rightarrow> nat \<Rightarrow> u32 list" where
  "sha_block msg h block =
     (case foldl (sha_round (sha_schedule msg block))
             (h ! 0, h ! 1, h ! 2, h ! 3, h ! 4, h ! 5, h ! 6, h ! 7) [0..<64]
      of (a, b, c, d, e, f, g, hh) \<Rightarrow>
        [h ! 0 + a, h ! 1 + b, h ! 2 + c, h ! 3 + d, h ! 4 + e, h ! 5 + f, h ! 6 + g, h ! 7 + hh])"

definition sha256 :: "bytes \<Rightarrow> bytes" where
  "sha256 bs =
     (let msg = sha_pad bs;
          h = foldl (sha_block msg) sha_init (List.map (\<lambda>i. 64 * i) [0..<length msg div 64])
      in concat (List.map (\<lambda>x. List.map (\<lambda>i. ucast (drop_bit (8 * i) x AND 0xff)) (rev [0..<4])) h))"

section \<open>Hexadecimal text\<close>

definition hex_digit :: "nat \<Rightarrow> char" where
  "hex_digit n = ''0123456789abcdef'' ! n"

definition to_hex :: "bytes \<Rightarrow> string" where
  "to_hex bs = concat (List.map (\<lambda>b. [hex_digit (unat (drop_bit 4 b AND 0xf)), hex_digit (unat (b AND 0xf))]) bs)"

definition sha256_hex :: "bytes \<Rightarrow> string" where
  "sha256_hex bs = to_hex (sha256 bs)"

lemma sha_pad_loop_length: "length (sha_pad_loop msg) mod 64 = 56"
proof (induction msg rule: sha_pad_loop.induct)
  case (1 msg)
  then show ?case by (cases "length msg mod 64 = 56") (simp_all add: sha_pad_loop.simps [of msg])
qed

lemma sha_pad_length: "64 dvd length (sha_pad bs)"
proof -
  have "length (sha_pad bs) mod 64 = (length (sha_pad_loop (bs @ [0x80])) mod 64 + 8) mod 64"
    by (simp add: sha_pad_def mod_add_left_eq)
  then show ?thesis by (simp add: sha_pad_loop_length mod_0_imp_dvd)
qed

lemma pad_measure_Suc:
  assumes "n mod 64 \<noteq> 56"
  shows "pad_measure (n mod 64) = Suc (pad_measure (Suc n mod 64))"
  using assms by (auto simp: pad_measure_def mod_Suc)

lemma sha_pad_loop_eq: "sha_pad_loop msg = msg @ replicate (pad_measure (length msg mod 64)) 0"
proof (induction msg rule: sha_pad_loop.induct)
  case (1 msg)
  then show ?case
    by (cases "length msg mod 64 = 56")
      (simp_all add: sha_pad_loop.simps [of msg] pad_measure_Suc replicate_append_same [symmetric], simp_all add: pad_measure_def)
qed

lemma sha_pad_prefix: "take (length bs) (sha_pad bs) = bs"
  by (simp add: sha_pad_def sha_pad_loop_eq)

lemma sha_pad_short: "length (sha_pad bs) < length bs + 73"
proof -
  have "pad_measure (n mod 64) \<le> 63" for n
    using mod_less_divisor [of 64 n] by (auto simp: pad_measure_def simp del: mod_less_divisor)
  from this [of "Suc (length bs)"] show ?thesis by (simp add: sha_pad_def sha_pad_loop_eq)
qed

lemma length_sha_block: "length (sha_block msg h block) = 8"
  unfolding sha_block_def by (simp only: split_def list.size)

lemma length_sha_blocks: "length h = 8 \<Longrightarrow> length (foldl (sha_block msg) h bs) = 8"
  by (induction bs arbitrary: h) (simp_all add: length_sha_block)

lemma length_sha256: "length (sha256 bs) = 32"
proof -
  have four: "length (concat (List.map (\<lambda>x. List.map (f x) (rev [0..<4])) h)) = 4 * length h"
    for f :: "u32 \<Rightarrow> nat \<Rightarrow> u8" and h
    by (induction h) simp_all
  show ?thesis by (simp add: sha256_def Let_def four length_sha_blocks sha_init_def del: upt_rec_numeral)
qed

lemma length_to_hex: "length (to_hex bs) = 2 * length bs"
  by (induction bs) (simp_all add: to_hex_def)

lemma length_sha256_hex: "length (sha256_hex bs) = 64"
  by (simp add: sha256_hex_def length_to_hex length_sha256)

end
