(* ===== verification/Cost.thy ===== *)
theory Cost
  imports Digest
begin

text \<open>
  \<^verbatim>\<open>include/stateindex/cost.hpp\<close>: the retrieval estimate. A \<^verbatim>\<open>double\<close> is its object
  representation, the 64 bits that \<^verbatim>\<open>append_double\<close> and \<^verbatim>\<open>read_double\<close> copy with
  \<^verbatim>\<open>memcpy\<close>.
\<close>

datatype double = Double (double_bits: u64)

definition push_double :: "double \<Rightarrow> bytes" where
  "push_double v = push_u64 (double_bits v)"

definition read_double :: "double parser" where
  "read_double = bindr read_u64 (\<lambda>bits. ret (Double bits))"

lemma decodes_double [codec_intro]: "decodes read_double (push_double v) v"
  unfolding read_double_def push_double_def
  by (rule decodes_bind_last [OF decodes_u64], rule decodes_ret) simp

lemma safe_double [safe_intro]: "safe read_double"
  unfolding read_double_def by (intro safe_intro)

record RetrievalEstimate =
  re_local_access_cost :: double
  re_expected_latency_ms :: double
  re_expected_bandwidth_mbps :: double
  re_transfer_bytes :: double
  re_restore_cost :: double
  re_recompute_cost :: double
  re_adaptation_cost :: double
  re_staging_required :: bool
  re_restore_required :: bool
  re_evidence :: Evidence

definition RetrievalEstimate_serialize :: "RetrievalEstimate \<Rightarrow> bytes" where
  "RetrievalEstimate_serialize e =
     push_byte (Evidence_code (re_evidence e))
     @ push_double (re_local_access_cost e)
     @ push_double (re_expected_latency_ms e)
     @ push_double (re_expected_bandwidth_mbps e)
     @ push_double (re_transfer_bytes e)
     @ push_double (re_restore_cost e)
     @ push_double (re_recompute_cost e)
     @ push_double (re_adaptation_cost e)
     @ push_bool (re_staging_required e)
     @ push_bool (re_restore_required e)"

definition RetrievalEstimate_deserialize :: "RetrievalEstimate parser" where
  "RetrievalEstimate_deserialize =
     bindr read_u8 (\<lambda>evidence'.
     bindr read_double (\<lambda>local_access_cost'.
     bindr read_double (\<lambda>expected_latency_ms'.
     bindr read_double (\<lambda>expected_bandwidth_mbps'.
     bindr read_double (\<lambda>transfer_bytes'.
     bindr read_double (\<lambda>restore_cost'.
     bindr read_double (\<lambda>recompute_cost'.
     bindr read_double (\<lambda>adaptation_cost'.
     bindr read_bool (\<lambda>staging_required'.
     bindr read_bool (\<lambda>restore_required'.
     ret \<lparr>re_local_access_cost = local_access_cost',
       re_expected_latency_ms = expected_latency_ms',
       re_expected_bandwidth_mbps = expected_bandwidth_mbps',
       re_transfer_bytes = transfer_bytes',
       re_restore_cost = restore_cost',
       re_recompute_cost = recompute_cost',
       re_adaptation_cost = adaptation_cost',
       re_staging_required = staging_required',
       re_restore_required = restore_required',
       re_evidence = Evidence_of evidence'\<rparr>))))))))))"

definition RetrievalEstimate_valid :: "RetrievalEstimate \<Rightarrow> bool" where
  "RetrievalEstimate_valid e \<longleftrightarrow>
     Evidence_ok (re_evidence e)"

lemma decodes_RetrievalEstimate [codec_intro]: "RetrievalEstimate_valid e \<Longrightarrow> decodes RetrievalEstimate_deserialize (RetrievalEstimate_serialize e) e"
  unfolding RetrievalEstimate_serialize_def RetrievalEstimate_deserialize_def
  by (rule decodes_nilI, simp only: append_assoc)
    ((rule codec_intro | fastforce simp: RetrievalEstimate_valid_def Evidence.cast_code option.pred_set)+)

lemma safe_RetrievalEstimate [safe_intro]: "safe RetrievalEstimate_deserialize"
  unfolding RetrievalEstimate_deserialize_def by (intro safe_intro)

interpretation RetrievalEstimate: codec RetrievalEstimate_serialize RetrievalEstimate_deserialize RetrievalEstimate_valid
  by unfold_locales (auto intro: codec_intro safe_intro)

definition default_estimate :: RetrievalEstimate where
  "default_estimate = \<lparr>re_local_access_cost = Double 0, re_expected_latency_ms = Double 0,
     re_expected_bandwidth_mbps = Double 0, re_transfer_bytes = Double 0, re_restore_cost = Double 0,
     re_recompute_cost = Double 0, re_adaptation_cost = Double 0, re_staging_required = False,
     re_restore_required = False, re_evidence = Evidence_UNKNOWN\<rparr>"

definition estimate_known :: "RetrievalEstimate \<Rightarrow> bool" where
  "estimate_known e \<longleftrightarrow> re_evidence e \<noteq> Evidence_UNKNOWN"

end
