(* ===== verification/Refs.thy ===== *)
theory Refs
  imports Cost
begin

text \<open>
  \<^verbatim>\<open>include/stateindex/refs.hpp\<close>: references to compatibility, provenance and dependencies.
\<close>

section \<open>Compatibility\<close>

record CompatibilityRef =
  comp_id :: CompatibilityId
  comp_generation :: CompatibilityGeneration
  comp_outcome :: CompatibilityOutcome
  comp_freshness :: Freshness
  comp_provenance :: Evidence
  comp_evidence_note :: string

definition CompatibilityRef_serialize :: "CompatibilityRef \<Rightarrow> bytes" where
  "CompatibilityRef_serialize c =
     id_serialize (comp_id c)
     @ gen_serialize (comp_generation c)
     @ push_byte (CompatibilityOutcome_code (comp_outcome c))
     @ push_byte (Freshness_code (comp_freshness c))
     @ push_byte (Evidence_code (comp_provenance c))
     @ push_string (comp_evidence_note c)"

definition CompatibilityRef_deserialize :: "CompatibilityRef parser" where
  "CompatibilityRef_deserialize =
     bindr id_deserialize (\<lambda>id'.
     bindr gen_deserialize (\<lambda>generation'.
     bindr read_u8 (\<lambda>outcome'.
     bindr read_u8 (\<lambda>freshness'.
     bindr read_u8 (\<lambda>provenance'.
     bindr read_string (\<lambda>evidence_note'.
     ret \<lparr>comp_id = id',
       comp_generation = generation',
       comp_outcome = CompatibilityOutcome_of outcome',
       comp_freshness = Freshness_of freshness',
       comp_provenance = Evidence_of provenance',
       comp_evidence_note = evidence_note'\<rparr>))))))"

definition CompatibilityRef_valid :: "CompatibilityRef \<Rightarrow> bool" where
  "CompatibilityRef_valid c \<longleftrightarrow>
     CompatibilityOutcome_ok (comp_outcome c) \<and>
     Freshness_ok (comp_freshness c) \<and>
     Evidence_ok (comp_provenance c) \<and>
     length (comp_evidence_note c) < 2 ^ 64"

lemma decodes_CompatibilityRef [codec_intro]: "CompatibilityRef_valid c \<Longrightarrow> decodes CompatibilityRef_deserialize (CompatibilityRef_serialize c) c"
  unfolding CompatibilityRef_serialize_def CompatibilityRef_deserialize_def
  by (rule decodes_nilI, simp only: append_assoc)
    ((rule codec_intro | fastforce simp: CompatibilityRef_valid_def CompatibilityOutcome.cast_code Evidence.cast_code Freshness.cast_code option.pred_set)+)

lemma safe_CompatibilityRef [safe_intro]: "safe CompatibilityRef_deserialize"
  unfolding CompatibilityRef_deserialize_def by (intro safe_intro)

interpretation CompatibilityRef: codec CompatibilityRef_serialize CompatibilityRef_deserialize CompatibilityRef_valid
  by unfold_locales (auto intro: codec_intro safe_intro)

text \<open>\<^verbatim>\<open>CompatibilityRef::satisfies\<close>: a requirement outside the enumerators is never met.\<close>

definition satisfies :: "CompatibilityRef \<Rightarrow> CompatibilityRequirement \<Rightarrow> bool" where
  "satisfies c req \<longleftrightarrow>
     (case req of
        CompatibilityRequirement_NONE \<Rightarrow> True
      | CompatibilityRequirement_EXACT \<Rightarrow> comp_outcome c = CompatibilityOutcome_EXACT
      | CompatibilityRequirement_COMPATIBLE \<Rightarrow>
          comp_outcome c = CompatibilityOutcome_EXACT \<or>
          comp_outcome c = CompatibilityOutcome_COMPATIBLE
      | CompatibilityRequirement_COMPATIBLE_WITH_ADAPTATION \<Rightarrow>
          comp_outcome c = CompatibilityOutcome_EXACT \<or>
          comp_outcome c = CompatibilityOutcome_COMPATIBLE \<or>
          comp_outcome c = CompatibilityOutcome_COMPATIBLE_WITH_ADAPTATION
      | CompatibilityRequirement_unnamed _ \<Rightarrow> False)"

section \<open>Provenance\<close>

record ProvenanceRef =
  prov_id :: ProvenanceId
  prov_generation :: ProvenanceGeneration
  prov_producer :: ProducerId
  prov_source_generation :: StateGeneration
  prov_derivation_digest :: string
  prov_quality :: Evidence
  prov_freshness :: Freshness

definition ProvenanceRef_serialize :: "ProvenanceRef \<Rightarrow> bytes" where
  "ProvenanceRef_serialize p =
     id_serialize (prov_id p)
     @ gen_serialize (prov_generation p)
     @ id_serialize (prov_producer p)
     @ gen_serialize (prov_source_generation p)
     @ push_string (prov_derivation_digest p)
     @ push_byte (Evidence_code (prov_quality p))
     @ push_byte (Freshness_code (prov_freshness p))"

definition ProvenanceRef_deserialize :: "ProvenanceRef parser" where
  "ProvenanceRef_deserialize =
     bindr id_deserialize (\<lambda>id'.
     bindr gen_deserialize (\<lambda>generation'.
     bindr id_deserialize (\<lambda>producer'.
     bindr gen_deserialize (\<lambda>source_generation'.
     bindr read_string (\<lambda>derivation_digest'.
     bindr read_u8 (\<lambda>quality'.
     bindr read_u8 (\<lambda>freshness'.
     ret \<lparr>prov_id = id',
       prov_generation = generation',
       prov_producer = producer',
       prov_source_generation = source_generation',
       prov_derivation_digest = derivation_digest',
       prov_quality = Evidence_of quality',
       prov_freshness = Freshness_of freshness'\<rparr>)))))))"

definition ProvenanceRef_valid :: "ProvenanceRef \<Rightarrow> bool" where
  "ProvenanceRef_valid p \<longleftrightarrow>
     length (prov_derivation_digest p) < 2 ^ 64 \<and>
     Evidence_ok (prov_quality p) \<and>
     Freshness_ok (prov_freshness p)"

lemma decodes_ProvenanceRef [codec_intro]: "ProvenanceRef_valid p \<Longrightarrow> decodes ProvenanceRef_deserialize (ProvenanceRef_serialize p) p"
  unfolding ProvenanceRef_serialize_def ProvenanceRef_deserialize_def
  by (rule decodes_nilI, simp only: append_assoc)
    ((rule codec_intro | fastforce simp: ProvenanceRef_valid_def Evidence.cast_code Freshness.cast_code option.pred_set)+)

lemma safe_ProvenanceRef [safe_intro]: "safe ProvenanceRef_deserialize"
  unfolding ProvenanceRef_deserialize_def by (intro safe_intro)

interpretation ProvenanceRef: codec ProvenanceRef_serialize ProvenanceRef_deserialize ProvenanceRef_valid
  by unfold_locales (auto intro: codec_intro safe_intro)

section \<open>Dependencies\<close>

record DependencyRef =
  dep_id :: DependencyId
  dep_generation :: DependencyGeneration
  dep_kind :: DependencyKind
  dep_target_state :: StateId
  dep_required_generation :: StateGeneration
  dep_required :: bool

definition DependencyRef_serialize :: "DependencyRef \<Rightarrow> bytes" where
  "DependencyRef_serialize d =
     id_serialize (dep_id d)
     @ gen_serialize (dep_generation d)
     @ push_byte (DependencyKind_code (dep_kind d))
     @ id_serialize (dep_target_state d)
     @ gen_serialize (dep_required_generation d)
     @ push_bool (dep_required d)"

definition DependencyRef_deserialize :: "DependencyRef parser" where
  "DependencyRef_deserialize =
     bindr id_deserialize (\<lambda>id'.
     bindr gen_deserialize (\<lambda>generation'.
     bindr read_u8 (\<lambda>kind'.
     bindr id_deserialize (\<lambda>target_state'.
     bindr gen_deserialize (\<lambda>required_generation'.
     bindr read_bool (\<lambda>required'.
     ret \<lparr>dep_id = id',
       dep_generation = generation',
       dep_kind = DependencyKind_of kind',
       dep_target_state = target_state',
       dep_required_generation = required_generation',
       dep_required = required'\<rparr>))))))"

definition DependencyRef_valid :: "DependencyRef \<Rightarrow> bool" where
  "DependencyRef_valid d \<longleftrightarrow>
     DependencyKind_ok (dep_kind d)"

lemma decodes_DependencyRef [codec_intro]: "DependencyRef_valid d \<Longrightarrow> decodes DependencyRef_deserialize (DependencyRef_serialize d) d"
  unfolding DependencyRef_serialize_def DependencyRef_deserialize_def
  by (rule decodes_nilI, simp only: append_assoc)
    ((rule codec_intro | fastforce simp: DependencyRef_valid_def DependencyKind.cast_code option.pred_set)+)

lemma safe_DependencyRef [safe_intro]: "safe DependencyRef_deserialize"
  unfolding DependencyRef_deserialize_def by (intro safe_intro)

interpretation DependencyRef: codec DependencyRef_serialize DependencyRef_deserialize DependencyRef_valid
  by unfold_locales (auto intro: codec_intro safe_intro)

end
