(* ===== verification/Location.thy ===== *)
theory Location
  imports Cost
begin

text \<open>
  \<^verbatim>\<open>include/stateindex/location.hpp\<close>: where a copy of a state lives. The two process-scoped
  debug fields are never serialized, so a decoded location has neither.
\<close>

record StateLocation =
  loc_placement_id :: PlacementId
  loc_replica_id :: ReplicaId
  loc_node_id :: NodeId
  loc_device_id :: DeviceId
  loc_domain_id :: MemoryDomainId
  loc_domain :: MemoryDomain
  loc_backend :: StorageBackend
  loc_tier :: StorageTier
  loc_location_generation :: LocationGeneration
  loc_placement_generation :: PlacementGeneration
  loc_replica_generation :: ReplicaGeneration
  loc_address :: string
  loc_byte_size :: u64
  loc_access_class :: AccessClass
  loc_health :: Health
  loc_freshness :: Freshness
  loc_provenance :: Evidence
  loc_locality_metadata :: string
  loc_retrieval :: RetrievalEstimate
  loc_observation_generation :: ObservationGeneration
  loc_provenance_generation :: ProvenanceGeneration
  loc_authority_epoch :: CoordinatorEpoch
  loc_authority_boot :: WorkerBootId
  loc_created_at :: i64
  loc_updated_at :: i64
  loc_process_handle :: "u64 option"
  loc_process_scope :: "WorkerBootId option"

definition StateLocation_serialize :: "StateLocation \<Rightarrow> bytes" where
  "StateLocation_serialize l =
     id_serialize (loc_placement_id l)
     @ id_serialize (loc_replica_id l)
     @ id_serialize (loc_node_id l)
     @ id_serialize (loc_device_id l)
     @ id_serialize (loc_domain_id l)
     @ push_byte (MemoryDomain_code (loc_domain l))
     @ push_byte (StorageBackend_code (loc_backend l))
     @ push_byte (StorageTier_code (loc_tier l))
     @ gen_serialize (loc_location_generation l)
     @ gen_serialize (loc_placement_generation l)
     @ gen_serialize (loc_replica_generation l)
     @ push_string (loc_address l)
     @ push_u64 (loc_byte_size l)
     @ push_byte (AccessClass_code (loc_access_class l))
     @ push_byte (Health_code (loc_health l))
     @ push_byte (Freshness_code (loc_freshness l))
     @ push_byte (Evidence_code (loc_provenance l))
     @ push_string (loc_locality_metadata l)
     @ RetrievalEstimate_serialize (loc_retrieval l)
     @ gen_serialize (loc_observation_generation l)
     @ gen_serialize (loc_provenance_generation l)
     @ gen_serialize (loc_authority_epoch l)
     @ id_serialize (loc_authority_boot l)
     @ push_i64 (loc_created_at l)
     @ push_i64 (loc_updated_at l)"

definition StateLocation_deserialize :: "StateLocation parser" where
  "StateLocation_deserialize =
     bindr id_deserialize (\<lambda>placement_id'.
     bindr id_deserialize (\<lambda>replica_id'.
     bindr id_deserialize (\<lambda>node_id'.
     bindr id_deserialize (\<lambda>device_id'.
     bindr id_deserialize (\<lambda>domain_id'.
     bindr read_u8 (\<lambda>domain'.
     bindr read_u8 (\<lambda>backend'.
     bindr read_u8 (\<lambda>tier'.
     bindr gen_deserialize (\<lambda>location_generation'.
     bindr gen_deserialize (\<lambda>placement_generation'.
     bindr gen_deserialize (\<lambda>replica_generation'.
     bindr read_string (\<lambda>address'.
     bindr read_u64 (\<lambda>byte_size'.
     bindr read_u8 (\<lambda>access_class'.
     bindr read_u8 (\<lambda>health'.
     bindr read_u8 (\<lambda>freshness'.
     bindr read_u8 (\<lambda>provenance'.
     bindr read_string (\<lambda>locality_metadata'.
     bindr RetrievalEstimate_deserialize (\<lambda>retrieval'.
     bindr gen_deserialize (\<lambda>observation_generation'.
     bindr gen_deserialize (\<lambda>provenance_generation'.
     bindr gen_deserialize (\<lambda>authority_epoch'.
     bindr id_deserialize (\<lambda>authority_boot'.
     bindr read_i64 (\<lambda>created_at'.
     bindr read_i64 (\<lambda>updated_at'.
     ret \<lparr>loc_placement_id = placement_id',
       loc_replica_id = replica_id',
       loc_node_id = node_id',
       loc_device_id = device_id',
       loc_domain_id = domain_id',
       loc_domain = MemoryDomain_of domain',
       loc_backend = StorageBackend_of backend',
       loc_tier = StorageTier_of tier',
       loc_location_generation = location_generation',
       loc_placement_generation = placement_generation',
       loc_replica_generation = replica_generation',
       loc_address = address',
       loc_byte_size = byte_size',
       loc_access_class = AccessClass_of access_class',
       loc_health = Health_of health',
       loc_freshness = Freshness_of freshness',
       loc_provenance = Evidence_of provenance',
       loc_locality_metadata = locality_metadata',
       loc_retrieval = retrieval',
       loc_observation_generation = observation_generation',
       loc_provenance_generation = provenance_generation',
       loc_authority_epoch = authority_epoch',
       loc_authority_boot = authority_boot',
       loc_created_at = created_at',
       loc_updated_at = updated_at',
       loc_process_handle = None,
       loc_process_scope = None\<rparr>)))))))))))))))))))))))))"

definition StateLocation_valid :: "StateLocation \<Rightarrow> bool" where
  "StateLocation_valid l \<longleftrightarrow>
     MemoryDomain_ok (loc_domain l) \<and>
     StorageBackend_ok (loc_backend l) \<and>
     StorageTier_ok (loc_tier l) \<and>
     length (loc_address l) < 2 ^ 64 \<and>
     AccessClass_ok (loc_access_class l) \<and>
     Health_ok (loc_health l) \<and>
     Freshness_ok (loc_freshness l) \<and>
     Evidence_ok (loc_provenance l) \<and>
     length (loc_locality_metadata l) < 2 ^ 64 \<and>
     RetrievalEstimate_valid (loc_retrieval l) \<and>
     loc_process_handle l = None \<and>
     loc_process_scope l = None"

lemma decodes_StateLocation [codec_intro]: "StateLocation_valid l \<Longrightarrow> decodes StateLocation_deserialize (StateLocation_serialize l) l"
  unfolding StateLocation_serialize_def StateLocation_deserialize_def
  by (rule decodes_nilI, simp only: append_assoc)
    ((rule codec_intro | fastforce simp: StateLocation_valid_def AccessClass.cast_code Evidence.cast_code Freshness.cast_code Health.cast_code MemoryDomain.cast_code StorageBackend.cast_code StorageTier.cast_code option.pred_set)+)

lemma safe_StateLocation [safe_intro]: "safe StateLocation_deserialize"
  unfolding StateLocation_deserialize_def by (intro safe_intro)

interpretation StateLocation: codec StateLocation_serialize StateLocation_deserialize StateLocation_valid
  by unfold_locales (auto intro: codec_intro safe_intro)

definition usable :: "StateLocation \<Rightarrow> bool" where
  "usable l \<longleftrightarrow> loc_health l = Health_HEALTHY \<or> loc_health l = Health_DEGRADED"

text \<open>The part of a location that is written out.\<close>

definition persisted_location :: "StateLocation \<Rightarrow> StateLocation" where
  "persisted_location l = l\<lparr>loc_process_handle := None, loc_process_scope := None\<rparr>"

lemma serialize_persisted_location [simp]:
  "StateLocation_serialize (persisted_location l) = StateLocation_serialize l"
  by (simp add: StateLocation_serialize_def persisted_location_def)

end
