(* ===== verification/Records.thy ===== *)
theory Records
  imports Refs Location
begin

text \<open>
  \<^verbatim>\<open>include/stateindex/record.hpp\<close>: the state record, its byte form, the semantic digest and
  the guarded lifecycle transitions, with the bounds of \<^verbatim>\<open>limits.hpp\<close>. The flag
  \<open>rec_is_historical\<close> is not serialized, so it takes no part in the digest.
\<close>

section \<open>Bounds\<close>

definition kMaxRecordCount :: u64 where
  "kMaxRecordCount = 1000000"

definition kMaxLocationsPerRecord :: u64 where
  "kMaxLocationsPerRecord = 4096"

definition kMaxDependenciesPerRecord :: u64 where
  "kMaxDependenciesPerRecord = 4096"

section \<open>Lifecycle transitions\<close>

definition can_transition :: "Lifecycle \<Rightarrow> Lifecycle \<Rightarrow> bool" where
  "can_transition from to \<longleftrightarrow>
     (if from = to then True
      else if from = Lifecycle_TOMBSTONED \<or> from = Lifecycle_RETIRED then to = from
      else case to of
        Lifecycle_DISCOVERED \<Rightarrow> from = Lifecycle_FAILED
      | Lifecycle_AVAILABLE \<Rightarrow> from = Lifecycle_DISCOVERED \<or> from = Lifecycle_DEGRADED
      | Lifecycle_DEGRADED \<Rightarrow> from = Lifecycle_AVAILABLE \<or> from = Lifecycle_DISCOVERED
      | Lifecycle_STALE \<Rightarrow>
          from = Lifecycle_AVAILABLE \<or> from = Lifecycle_DEGRADED \<or> from = Lifecycle_DISCOVERED
      | Lifecycle_INVALIDATED \<Rightarrow> True
      | Lifecycle_SUPERSEDED \<Rightarrow> True
      | Lifecycle_TOMBSTONED \<Rightarrow> True
      | Lifecycle_RETIRED \<Rightarrow> True
      | Lifecycle_MISSING \<Rightarrow> True
      | Lifecycle_FAILED \<Rightarrow> True
      | Lifecycle_unnamed _ \<Rightarrow> False)"

section \<open>The record\<close>

record StateRecord =
  rec_record_id :: StateRecordId
  rec_state_id :: StateId
  rec_state_generation :: StateGeneration
  rec_record_generation :: RecordGeneration
  rec_kind :: StateKind
  rec_namespace_id :: NamespaceId
  rec_owner_id :: OwnerId
  rec_producer_id :: ProducerId
  rec_logical_size :: u64
  rec_content_digest :: string
  rec_compatibility :: "CompatibilityRef option"
  rec_provenance :: "ProvenanceRef option"
  rec_dependencies :: "DependencyRef list"
  rec_locations :: "StateLocation list"
  rec_lifecycle :: Lifecycle
  rec_freshness :: Freshness
  rec_health :: Health
  rec_policy_generation :: PolicyGeneration
  rec_authority_epoch :: CoordinatorEpoch
  rec_authority_boot :: WorkerBootId
  rec_created_at :: i64
  rec_updated_at :: i64
  rec_supersedes_generation :: StateGeneration
  rec_description :: string
  rec_semantic_digest :: string
  rec_is_historical :: bool

definition StateRecord_serialize :: "StateRecord \<Rightarrow> bytes" where
  "StateRecord_serialize r =
     id_serialize (rec_record_id r)
     @ id_serialize (rec_state_id r)
     @ gen_serialize (rec_state_generation r)
     @ gen_serialize (rec_record_generation r)
     @ push_u16 (StateKind_code (rec_kind r))
     @ id_serialize (rec_namespace_id r)
     @ id_serialize (rec_owner_id r)
     @ id_serialize (rec_producer_id r)
     @ push_u64 (rec_logical_size r)
     @ push_string (rec_content_digest r)
     @ push_opt CompatibilityRef_serialize (rec_compatibility r)
     @ push_opt ProvenanceRef_serialize (rec_provenance r)
     @ push_list DependencyRef_serialize (rec_dependencies r)
     @ push_list StateLocation_serialize (rec_locations r)
     @ push_byte (Lifecycle_code (rec_lifecycle r))
     @ push_byte (Freshness_code (rec_freshness r))
     @ push_byte (Health_code (rec_health r))
     @ gen_serialize (rec_policy_generation r)
     @ gen_serialize (rec_authority_epoch r)
     @ id_serialize (rec_authority_boot r)
     @ push_i64 (rec_created_at r)
     @ push_i64 (rec_updated_at r)
     @ gen_serialize (rec_supersedes_generation r)
     @ push_string (rec_description r)
     @ push_string (rec_semantic_digest r)"

definition StateRecord_deserialize :: "StateRecord parser" where
  "StateRecord_deserialize =
     bindr id_deserialize (\<lambda>record_id'.
     bindr id_deserialize (\<lambda>state_id'.
     bindr gen_deserialize (\<lambda>state_generation'.
     bindr gen_deserialize (\<lambda>record_generation'.
     bindr read_u16 (\<lambda>kind'.
     bindr id_deserialize (\<lambda>namespace_id'.
     bindr id_deserialize (\<lambda>owner_id'.
     bindr id_deserialize (\<lambda>producer_id'.
     bindr read_u64 (\<lambda>logical_size'.
     bindr read_string (\<lambda>content_digest'.
     bindr (read_opt CompatibilityRef_deserialize) (\<lambda>compatibility'.
     bindr (read_opt ProvenanceRef_deserialize) (\<lambda>provenance'.
     bindr (read_list kMaxDependenciesPerRecord ''record: dependency count exceeds bound'' DependencyRef_deserialize) (\<lambda>dependencies'.
     bindr (read_list kMaxLocationsPerRecord ''record: location count exceeds bound'' StateLocation_deserialize) (\<lambda>locations'.
     bindr read_u8 (\<lambda>lifecycle'.
     bindr read_u8 (\<lambda>freshness'.
     bindr read_u8 (\<lambda>health'.
     bindr gen_deserialize (\<lambda>policy_generation'.
     bindr gen_deserialize (\<lambda>authority_epoch'.
     bindr id_deserialize (\<lambda>authority_boot'.
     bindr read_i64 (\<lambda>created_at'.
     bindr read_i64 (\<lambda>updated_at'.
     bindr gen_deserialize (\<lambda>supersedes_generation'.
     bindr read_string (\<lambda>description'.
     bindr read_string (\<lambda>semantic_digest'.
     ret \<lparr>rec_record_id = record_id',
       rec_state_id = state_id',
       rec_state_generation = state_generation',
       rec_record_generation = record_generation',
       rec_kind = StateKind_of kind',
       rec_namespace_id = namespace_id',
       rec_owner_id = owner_id',
       rec_producer_id = producer_id',
       rec_logical_size = logical_size',
       rec_content_digest = content_digest',
       rec_compatibility = compatibility',
       rec_provenance = provenance',
       rec_dependencies = dependencies',
       rec_locations = locations',
       rec_lifecycle = Lifecycle_of lifecycle',
       rec_freshness = Freshness_of freshness',
       rec_health = Health_of health',
       rec_policy_generation = policy_generation',
       rec_authority_epoch = authority_epoch',
       rec_authority_boot = authority_boot',
       rec_created_at = created_at',
       rec_updated_at = updated_at',
       rec_supersedes_generation = supersedes_generation',
       rec_description = description',
       rec_semantic_digest = semantic_digest',
       rec_is_historical = False\<rparr>)))))))))))))))))))))))))"

definition StateRecord_valid :: "StateRecord \<Rightarrow> bool" where
  "StateRecord_valid r \<longleftrightarrow>
     StateKind_ok (rec_kind r) \<and>
     length (rec_content_digest r) < 2 ^ 64 \<and>
     pred_option CompatibilityRef_valid (rec_compatibility r) \<and>
     pred_option ProvenanceRef_valid (rec_provenance r) \<and>
     (\<forall>y\<in>set (rec_dependencies r). DependencyRef_valid y) \<and> length (rec_dependencies r) \<le> unat kMaxDependenciesPerRecord \<and>
     (\<forall>y\<in>set (rec_locations r). StateLocation_valid y) \<and> length (rec_locations r) \<le> unat kMaxLocationsPerRecord \<and>
     Lifecycle_ok (rec_lifecycle r) \<and>
     Freshness_ok (rec_freshness r) \<and>
     Health_ok (rec_health r) \<and>
     length (rec_description r) < 2 ^ 64 \<and>
     length (rec_semantic_digest r) < 2 ^ 64 \<and>
     \<not> rec_is_historical r"

lemma decodes_StateRecord [codec_intro]: "StateRecord_valid r \<Longrightarrow> decodes StateRecord_deserialize (StateRecord_serialize r) r"
  unfolding StateRecord_serialize_def StateRecord_deserialize_def
  by (rule decodes_nilI, simp only: append_assoc)
    ((rule codec_intro | fastforce simp: StateRecord_valid_def Freshness.cast_code Health.cast_code Lifecycle.cast_code StateKind.cast_code option.pred_set)+)

lemma safe_StateRecord [safe_intro]: "safe StateRecord_deserialize"
  unfolding StateRecord_deserialize_def by (intro safe_intro)

interpretation StateRecord: codec StateRecord_serialize StateRecord_deserialize StateRecord_valid
  by unfold_locales (auto intro: codec_intro safe_intro)

lemma StateRecord_lists_bound:
  assumes "StateRecord_deserialize rd0 = Inr (r, rd)"
  shows "length (rec_dependencies r) \<le> unat kMaxDependenciesPerRecord \<and>
    length (rec_locations r) \<le> unat kMaxLocationsPerRecord"
  using assms unfolding StateRecord_deserialize_def
  by (elim bindr_InrE) (auto simp: ret_def dest!: read_list_bound)

section \<open>Digest and usability\<close>

definition canonical_without_digest :: "StateRecord \<Rightarrow> bytes" where
  "canonical_without_digest r = StateRecord_serialize (r\<lparr>rec_semantic_digest := []\<rparr>)"

definition compute_semantic_digest :: "StateRecord \<Rightarrow> string" where
  "compute_semantic_digest r = sha256_hex (canonical_without_digest r)"

definition has_usable_location :: "StateRecord \<Rightarrow> bool" where
  "has_usable_location r \<longleftrightarrow>
     list_ex (\<lambda>l. usable l \<and> loc_freshness l \<noteq> Freshness_STALE) (rec_locations r)"

text \<open>The assignment \<^verbatim>\<open>u.semantic_digest = u.compute_semantic_digest()\<close> that ends every
  update of a record, and the property it establishes.\<close>

definition redigest :: "StateRecord \<Rightarrow> StateRecord" where
  "redigest r = r\<lparr>rec_semantic_digest := compute_semantic_digest r\<rparr>"

definition digest_ok :: "StateRecord \<Rightarrow> bool" where
  "digest_ok r \<longleftrightarrow> rec_semantic_digest r = compute_semantic_digest r"

lemma compute_semantic_digest_cong [simp]:
  "compute_semantic_digest (r\<lparr>rec_semantic_digest := d\<rparr>) = compute_semantic_digest r"
  "compute_semantic_digest (r\<lparr>rec_is_historical := h\<rparr>) = compute_semantic_digest r"
  by (simp_all add: compute_semantic_digest_def canonical_without_digest_def StateRecord_serialize_def)

lemma digest_ok_redigest [simp, intro]: "digest_ok (redigest r)"
  by (simp add: digest_ok_def redigest_def)

lemma digest_ok_historical [simp]: "digest_ok (r\<lparr>rec_is_historical := h\<rparr>) = digest_ok r"
  by (simp add: digest_ok_def)

lemma redigest_simps [simp]:
  "rec_record_id (redigest r) = rec_record_id r"
  "rec_state_id (redigest r) = rec_state_id r"
  "rec_state_generation (redigest r) = rec_state_generation r"
  "rec_kind (redigest r) = rec_kind r"
  "rec_namespace_id (redigest r) = rec_namespace_id r"
  "rec_owner_id (redigest r) = rec_owner_id r"
  "rec_producer_id (redigest r) = rec_producer_id r"
  "rec_logical_size (redigest r) = rec_logical_size r"
  "rec_content_digest (redigest r) = rec_content_digest r"
  "rec_compatibility (redigest r) = rec_compatibility r"
  "rec_provenance (redigest r) = rec_provenance r"
  "rec_dependencies (redigest r) = rec_dependencies r"
  "rec_locations (redigest r) = rec_locations r"
  "rec_lifecycle (redigest r) = rec_lifecycle r"
  "rec_freshness (redigest r) = rec_freshness r"
  "rec_health (redigest r) = rec_health r"
  "rec_authority_boot (redigest r) = rec_authority_boot r"
  "rec_is_historical (redigest r) = rec_is_historical r"
  by (simp_all add: redigest_def)

end
