(* ===== verification/Binary64.thy ===== *)
theory Binary64
  imports Cost
begin

text \<open>
  The arithmetic on \<^verbatim>\<open>double\<close> that the query planner uses: comparison, addition, multiplication,
  division, conversion from and to \<^verbatim>\<open>std::uint64_t\<close>, and the text of \<^verbatim>\<open>std::to_string\<close>, as IEEE 754
  binary64 with rounding to nearest, ties to even, defines them. A finite value is an integer
  number of units of \<open>2 ^ -1074\<close>, the smallest positive double, so that every operation is
  exact integer arithmetic followed by one rounding.
\<close>

section \<open>Fields\<close>

definition f64_sign :: "double \<Rightarrow> bool" where
  "f64_sign d = bit (double_bits d) 63"

text \<open>Exponent and fraction together: the low 63 bits, which order the non-negative values.\<close>

definition f64_mag :: "double \<Rightarrow> nat" where
  "f64_mag d = unat (take_bit 63 (double_bits d))"

definition inf_mag :: nat where
  "inf_mag = 2047 * 2 ^ 52"

definition f64_is_nan :: "double \<Rightarrow> bool" where
  "f64_is_nan d \<longleftrightarrow> inf_mag < f64_mag d"

definition f64_is_inf :: "double \<Rightarrow> bool" where
  "f64_is_inf d \<longleftrightarrow> f64_mag d = inf_mag"

definition f64_finite :: "double \<Rightarrow> bool" where
  "f64_finite d \<longleftrightarrow> f64_mag d < inf_mag"

definition f64_make :: "bool \<Rightarrow> nat \<Rightarrow> double" where
  "f64_make s m = Double (of_nat (m + (if s then 2 ^ 63 else 0)))"

definition f64_nan :: double where
  "f64_nan = f64_make False (2047 * 2 ^ 52 + 2 ^ 51)"

definition f64_inf :: "bool \<Rightarrow> double" where
  "f64_inf s = f64_make s inf_mag"

text \<open>The units of a magnitude: \<open>f\<close> below exponent 1, \<open>(2 ^ 52 + f) * 2 ^ (E - 1)\<close> from there on.\<close>

definition mag_units :: "nat \<Rightarrow> nat" where
  "mag_units m =
     (let E = m div 2 ^ 52; f = m mod 2 ^ 52
      in if E = 0 then f else (2 ^ 52 + f) * 2 ^ (E - 1))"

definition f64_units :: "double \<Rightarrow> int" where
  "f64_units d = (if f64_sign d then - int (mag_units (f64_mag d)) else int (mag_units (f64_mag d)))"

section \<open>Rounding\<close>

fun bit_length :: "nat \<Rightarrow> nat" where
  "bit_length n = (if n = 0 then 0 else Suc (bit_length (n div 2)))"

declare bit_length.simps [simp del]

text \<open>The magnitude nearest to \<open>num / den\<close> units: \<open>k\<close> is the number of binary digits beyond the 53
  of the significand.\<close>

definition round_quot :: "nat \<Rightarrow> nat \<Rightarrow> nat" where
  "round_quot num den =
     (let q = num div den; r = num mod den
      in if 2 * r > den \<or> (2 * r = den \<and> odd q) then Suc q else q)"

definition round_mag :: "nat \<Rightarrow> nat \<Rightarrow> nat" where
  "round_mag num den =
     (let k = bit_length (num div den) - 53
      in min inf_mag (k * 2 ^ 52 + round_quot num (den * 2 ^ k)))"

definition f64_round :: "bool \<Rightarrow> nat \<Rightarrow> nat \<Rightarrow> double" where
  "f64_round s num den = f64_make s (round_mag num den)"

section \<open>Operations\<close>

definition one_units :: nat where
  "one_units = 2 ^ 1074"

text \<open>An operation on a NaN gives that NaN; an invalid operation gives the default NaN.\<close>

definition f64_add :: "double \<Rightarrow> double \<Rightarrow> double" where
  "f64_add a b =
     (if f64_is_nan a then a else if f64_is_nan b then b
      else if f64_is_inf a then (if f64_is_inf b \<and> f64_sign a \<noteq> f64_sign b then f64_nan else a)
      else if f64_is_inf b then b
      else let u = f64_units a + f64_units b
           in if u = 0 then f64_make (f64_sign a \<and> f64_sign b) 0
              else f64_round (u < 0) (nat \<bar>u\<bar>) 1)"

definition f64_mul :: "double \<Rightarrow> double \<Rightarrow> double" where
  "f64_mul a b =
     (let s = (f64_sign a \<noteq> f64_sign b) in
      if f64_is_nan a then a else if f64_is_nan b then b
      else if f64_is_inf a \<or> f64_is_inf b then
        (if f64_mag a = 0 \<or> f64_mag b = 0 then f64_nan else f64_inf s)
      else f64_round s (nat \<bar>f64_units a\<bar> * nat \<bar>f64_units b\<bar>) one_units)"

definition f64_div :: "double \<Rightarrow> double \<Rightarrow> double" where
  "f64_div a b =
     (let s = (f64_sign a \<noteq> f64_sign b) in
      if f64_is_nan a then a else if f64_is_nan b then b
      else if f64_is_inf a then (if f64_is_inf b then f64_nan else f64_inf s)
      else if f64_is_inf b then f64_make s 0
      else if f64_mag b = 0 then (if f64_mag a = 0 then f64_nan else f64_inf s)
      else f64_round s (nat \<bar>f64_units a\<bar> * one_units) (nat \<bar>f64_units b\<bar>))"

definition f64_of_nat :: "nat \<Rightarrow> double" where
  "f64_of_nat n = f64_round False (n * one_units) 1"

definition f64_one :: double where
  "f64_one = f64_of_nat 1"

text \<open>\<^verbatim>\<open>static_cast<std::uint64_t>(d)\<close> truncates; it is undefined, here \<open>None\<close>, when the truncated
  value does not fit.\<close>

definition f64_to_u64 :: "double \<Rightarrow> u64 option" where
  "f64_to_u64 d =
     (let n = nat \<bar>f64_units d\<bar> div one_units in
      if \<not> f64_finite d then None
      else if f64_sign d \<and> n \<noteq> 0 then None
      else if n < 2 ^ 64 then Some (of_nat n) else None)"

definition f64_key :: "double \<Rightarrow> int" where
  "f64_key d = (if f64_sign d then - int (f64_mag d) else int (f64_mag d))"

definition f64_less :: "double \<Rightarrow> double \<Rightarrow> bool" where
  "f64_less a b \<longleftrightarrow> \<not> f64_is_nan a \<and> \<not> f64_is_nan b \<and> f64_key a < f64_key b"

definition f64_eq :: "double \<Rightarrow> double \<Rightarrow> bool" where
  "f64_eq a b \<longleftrightarrow> \<not> f64_is_nan a \<and> \<not> f64_is_nan b \<and> f64_key a = f64_key b"

text \<open>\<^verbatim>\<open>std::to_string(double)\<close> is \<^verbatim>\<open>%f\<close>: the decimal expansion rounded to six digits after the point.\<close>

definition f64_to_string :: "double \<Rightarrow> string" where
  "f64_to_string d =
     (if f64_sign d then ''-'' else [])
     @ (if f64_is_nan d then ''nan'' else if f64_is_inf d then ''inf''
        else let n = round_quot (nat \<bar>f64_units d\<bar> * 10 ^ 6) one_units;
                 frac = decimal (n mod 10 ^ 6)
             in decimal (n div 10 ^ 6) @ ''.'' @ replicate (6 - length frac) CHR ''0'' @ frac)"

section \<open>Fields of made values\<close>

lemma f64_make_fields [simp]:
  assumes "m < 2 ^ 63"
  shows "f64_mag (f64_make s m) = m" and "f64_sign (f64_make s m) = s"
proof -
  have u: "unat (of_nat (m + (if s then 2 ^ 63 else 0)) :: u64) = m + (if s then 2 ^ 63 else 0)"
    by (subst unat_of_nat, rule mod_less) (use assms in simp)
  show "f64_mag (f64_make s m) = m"
    using assms unfolding f64_mag_def f64_make_def double.sel unsigned_take_bit_eq u
    by (simp add: take_bit_eq_mod)
  have "bit (of_nat (m + (if s then 2 ^ 63 else 0)) :: u64) 63 \<longleftrightarrow>
      bit (unat (of_nat (m + (if s then 2 ^ 63 else 0)) :: u64)) 63"
    by (simp only: bit_unsigned_iff possible_bit_def) simp
  also have "\<dots> \<longleftrightarrow> s"
    unfolding u using assms by (cases s) (auto simp: bit_iff_odd div_add_self2)
  finally show "f64_sign (f64_make s m) = s" by (simp add: f64_sign_def f64_make_def)
qed

lemma inf_mag_bound: "inf_mag < 2 ^ 63"
  by (simp add: inf_mag_def)

lemma round_mag_bound: "round_mag num den \<le> inf_mag"
  by (simp add: round_mag_def Let_def)

lemma f64_round_fields [simp]:
  "f64_mag (f64_round s num den) = round_mag num den" "f64_sign (f64_round s num den) = s"
  "\<not> f64_is_nan (f64_round s num den)"
  using round_mag_bound [of num den] inf_mag_bound
  by (simp_all add: f64_round_def f64_is_nan_def)

section \<open>Rounding is monotone\<close>

lemma round_quot_bounds: "num div den \<le> round_quot num den" "round_quot num den \<le> Suc (num div den)"
  by (auto simp: round_quot_def Let_def)

lemma frac_div_mono:
  fixes n1 d1 n2 d2 :: nat
  assumes "0 < d1" "0 < d2" "n1 * d2 \<le> n2 * d1"
  shows "n1 div d1 \<le> n2 div d2"
proof -
  have "n1 div d1 = (n1 * d2) div (d1 * d2)" using assms by simp
  also have "\<dots> \<le> (n2 * d1) div (d1 * d2)" by (rule div_le_mono [OF assms(3)])
  also have "\<dots> = n2 div d2" using assms by (metis div_mult_mult1 mult.commute less_not_refl)
  finally show ?thesis .
qed

lemma frac_mod_mono:
  fixes n1 d1 n2 d2 :: nat
  assumes "n1 * d2 \<le> n2 * d1" "n1 div d1 = n2 div d2"
  shows "(n1 mod d1) * d2 \<le> (n2 mod d2) * d1"
proof -
  let ?q = "n1 div d1"
  have "n1 * d2 = ?q * d1 * d2 + (n1 mod d1) * d2"
    by (metis add_mult_distrib div_mult_mod_eq)
  moreover have "n2 * d1 = ?q * d1 * d2 + (n2 mod d2) * d1"
    by (metis add_mult_distrib assms(2) div_mult_mod_eq mult.assoc mult.commute)
  ultimately show ?thesis using assms(1) by simp
qed

lemma round_quot_mono:
  assumes d: "0 < d1" "0 < d2" and le: "n1 * d2 \<le> n2 * d1"
  shows "round_quot n1 d1 \<le> round_quot n2 d2"
proof (cases "n1 div d1 = n2 div d2")
  case False
  then have "Suc (n1 div d1) \<le> n2 div d2" using frac_div_mono [OF d le] by simp
  then show ?thesis using round_quot_bounds [of n1 d1] round_quot_bounds [of n2 d2] by linarith
next
  case True
  have r: "(n1 mod d1) * d2 \<le> (n2 mod d2) * d1" by (rule frac_mod_mono [OF le True])
  have up: "d2 < 2 * (n2 mod d2)" if "d1 < 2 * (n1 mod d1)"
  proof -
    have "d1 * d2 < (2 * (n1 mod d1)) * d2" using that d by simp
    also have "\<dots> \<le> (2 * (n2 mod d2)) * d1" using r by simp
    finally show ?thesis by (simp add: mult.commute)
  qed
  have tie: "d2 \<le> 2 * (n2 mod d2)" if "2 * (n1 mod d1) = d1"
  proof -
    have "d1 * d2 = (2 * (n1 mod d1)) * d2" using that by simp
    also have "\<dots> \<le> (2 * (n2 mod d2)) * d1" using r by simp
    finally have "d1 * d2 \<le> d1 * (2 * (n2 mod d2))" by (simp add: mult.commute)
    then show ?thesis using d(1) by simp
  qed
  show ?thesis using up tie True by (auto simp: round_quot_def Let_def)
qed

lemma bit_length_bounds: "0 < n \<Longrightarrow> 2 ^ (bit_length n - 1) \<le> n" "n < 2 ^ bit_length n"
proof (induction n rule: bit_length.induct)
  case (1 n)
  have pos: "0 < bit_length m" if "0 < m" for m using that by (subst bit_length.simps) simp
  { case 1
    show ?case
    proof (cases "n div 2 = 0")
      case False
      then have IH: "2 ^ (bit_length (n div 2) - 1) \<le> n div 2"
        using "1.IH"(1) 1 by simp
      have "(2::nat) ^ bit_length (n div 2) = 2 * 2 ^ (bit_length (n div 2) - 1)"
        using pos [of "n div 2"] False by (cases "bit_length (n div 2)") auto
      then have "2 ^ bit_length (n div 2) \<le> n" using IH by linarith
      then show ?thesis using 1 by (subst bit_length.simps) simp
    qed (use 1 in \<open>simp add: bit_length.simps [of n] bit_length.simps [of 0]\<close>)
  }
  { case 2
    show ?case
    proof (cases "n = 0")
      case False
      then have "n div 2 < 2 ^ bit_length (n div 2)" using "1.IH"(2) by simp
      then have "n < 2 * 2 ^ bit_length (n div 2)" by linarith
      then show ?thesis using False by (simp add: bit_length.simps [of n])
    qed (simp add: bit_length.simps [of 0])
  }
qed

lemma bit_length_mono: "m \<le> n \<Longrightarrow> bit_length m \<le> bit_length n"
proof (cases "m = 0")
  case False
  assume "m \<le> n"
  have "(2::nat) ^ (bit_length m - 1) < 2 ^ bit_length n"
    using bit_length_bounds(1) [of m] bit_length_bounds(2) [of n] False \<open>m \<le> n\<close> by linarith
  then show ?thesis by (simp add: power_less_imp_less_exp)
qed (simp add: bit_length.simps [of 0])

text \<open>The digits beyond the significand, and what rounding at that scale leaves.\<close>

definition excess :: "nat \<Rightarrow> nat \<Rightarrow> nat" where
  "excess num den = bit_length (num div den) - 53"

lemma round_mag_excess:
  "round_mag num den = min inf_mag (excess num den * 2 ^ 52 + round_quot num (den * 2 ^ excess num den))"
  by (simp add: round_mag_def excess_def Let_def)

lemma scaled_quot: "num div (den * 2 ^ k) = num div den div (2 ^ k :: nat)"
  by (simp add: div_mult2_eq)

lemma scaled_upper: "num div (den * 2 ^ excess num den) < 2 ^ 53"
proof -
  have "num div den < 2 ^ bit_length (num div den)" by (rule bit_length_bounds)
  also have "\<dots> \<le> 2 ^ (53 + excess num den)"
    by (rule power_increasing) (auto simp: excess_def)
  finally have "num div den < 2 ^ 53 * 2 ^ excess num den" by (simp only: power_add)
  then show ?thesis unfolding scaled_quot by (rule less_mult_imp_div_less)
qed

lemma scaled_lower:
  assumes "0 < excess num den"
  shows "2 ^ 52 \<le> num div (den * 2 ^ excess num den)"
proof -
  let ?n = "num div den"
  have len: "bit_length ?n = 53 + excess num den" and pos: "0 < ?n"
    using assms by (auto simp: excess_def bit_length.simps [of 0] intro: gr0I)
  have "(2::nat) ^ 52 * 2 ^ excess num den = 2 ^ (bit_length ?n - 1)"
    unfolding power_add [symmetric] len by simp
  also have "\<dots> \<le> ?n" by (rule bit_length_bounds(1) [OF pos])
  finally show ?thesis
    unfolding scaled_quot by (simp add: less_eq_div_iff_mult_less_eq)
qed

theorem round_mag_mono:
  assumes d: "0 < d1" "0 < d2" and le: "n1 * d2 \<le> n2 * d1"
  shows "round_mag n1 d1 \<le> round_mag n2 d2"
proof -
  let ?k1 = "excess n1 d1" and ?k2 = "excess n2 d2"
  have k: "?k1 \<le> ?k2"
    unfolding excess_def by (intro diff_le_mono bit_length_mono frac_div_mono assms)
  have "?k1 * 2 ^ 52 + round_quot n1 (d1 * 2 ^ ?k1) \<le> ?k2 * 2 ^ 52 + round_quot n2 (d2 * 2 ^ ?k2)"
  proof (cases "?k1 = ?k2")
    case True
    have "n1 * (d2 * 2 ^ ?k2) \<le> n2 * (d1 * 2 ^ ?k2)" using le by (simp add: mult.assoc [symmetric])
    then have "round_quot n1 (d1 * 2 ^ ?k1) \<le> round_quot n2 (d2 * 2 ^ ?k2)"
      unfolding True by (intro round_quot_mono) (use d in auto)
    then show ?thesis by (simp add: True)
  next
    case False
    with k have less: "?k1 < ?k2" by simp
    have "round_quot n1 (d1 * 2 ^ ?k1) \<le> 2 ^ 53"
      using scaled_upper [of n1 d1] round_quot_bounds(2) [of n1 "d1 * 2 ^ ?k1"] by linarith
    moreover have "2 ^ 52 \<le> round_quot n2 (d2 * 2 ^ ?k2)"
      using scaled_lower [of n2 d2] less round_quot_bounds(1) [of n2 "d2 * 2 ^ ?k2"] by linarith
    moreover have "?k1 * 2 ^ 52 + 2 ^ 53 \<le> ?k2 * 2 ^ 52 + (2 ^ 52 :: nat)" using less by simp
    ultimately show ?thesis by linarith
  qed
  then show ?thesis unfolding round_mag_excess by (rule min.mono [OF order_refl])
qed

section \<open>Values and rounding\<close>

lemma mag_units_small: "m < 2 ^ 53 \<Longrightarrow> mag_units m = m"
proof (cases "m < 2 ^ 52")
  case False
  assume "m < 2 ^ 53"
  with False have "m div 2 ^ 52 = 1" "m mod 2 ^ 52 = m - 2 ^ 52"
    by (simp_all add: div_nat_eqI le_div_geq le_mod_geq)
  then show ?thesis using False by (simp add: mag_units_def)
qed (simp add: mag_units_def)

lemma mag_units_split:
  assumes "2 ^ 52 \<le> m"
  obtains E f where "m = Suc E * 2 ^ 52 + f" "f < 2 ^ 52" "mag_units m = (2 ^ 52 + f) * 2 ^ E"
proof
  let ?E = "m div 2 ^ 52 - 1" and ?f = "m mod 2 ^ 52"
  have pos: "0 < m div 2 ^ 52" using assms by (simp add: div_greater_zero_iff)
  then have "Suc ?E = m div 2 ^ 52" by simp
  then show "m = Suc ?E * 2 ^ 52 + ?f" by (metis div_mult_mod_eq)
  show "?f < 2 ^ 52" by simp
  show "mag_units m = (2 ^ 52 + ?f) * 2 ^ ?E" using pos by (simp add: mag_units_def)
qed

text \<open>Rounding a representable value gives it back.\<close>

lemma bit_length_unique: "2 ^ k \<le> n \<Longrightarrow> n < 2 ^ Suc k \<Longrightarrow> bit_length n = Suc k"
proof -
  assume lo: "2 ^ k \<le> n" and hi: "n < 2 ^ Suc k"
  have pos: "0 < n" using lo by (metis less_le_trans zero_less_numeral zero_less_power)
  have "(2::nat) ^ k < 2 ^ bit_length n" using lo bit_length_bounds(2) [of n] by linarith
  then have a: "k < bit_length n" by (simp add: power_less_imp_less_exp)
  have "(2::nat) ^ (bit_length n - 1) < 2 ^ Suc k" using hi bit_length_bounds(1) [OF pos] by linarith
  then have "bit_length n - 1 < Suc k" by (rule power_less_imp_less_exp [rotated]) simp
  with a show ?thesis by simp
qed

theorem round_mag_exact:
  assumes "m \<le> inf_mag"
  shows "round_mag (mag_units m) 1 = m"
proof (cases "m < 2 ^ 53")
  case True
  have "bit_length m \<le> bit_length (2 ^ 53 - 1)" using True by (intro bit_length_mono) simp
  also have "\<dots> = Suc 52" by (rule bit_length_unique) simp_all
  finally show ?thesis
    using assms True by (simp add: mag_units_small round_mag_def round_quot_def)
next
  case False
  then have "2 ^ 52 \<le> m" by simp
  then obtain E f where m: "m = Suc E * 2 ^ 52 + f" "f < 2 ^ 52" "mag_units m = (2 ^ 52 + f) * 2 ^ E"
    by (rule mag_units_split)
  have "2 ^ (52 + E) \<le> mag_units m" "mag_units m < 2 ^ Suc (52 + E)"
    using m(2) unfolding m(3) by (simp_all add: power_add)
  then have "bit_length (mag_units m) = Suc (52 + E)" by (rule bit_length_unique)
  then have e: "excess (mag_units m) 1 = E" by (simp add: excess_def)
  have "round_quot (mag_units m) (1 * 2 ^ E) = 2 ^ 52 + f" by (simp add: m(3) round_quot_def)
  then show ?thesis
    using assms m(1) unfolding round_mag_excess e by simp
qed

lemma mag_units_strict_mono:
  assumes "m < n" "n \<le> inf_mag"
  shows "mag_units m < mag_units n"
proof (rule ccontr)
  assume "\<not> mag_units m < mag_units n"
  then have "round_mag (mag_units n) 1 \<le> round_mag (mag_units m) 1" by (intro round_mag_mono) simp_all
  with assms show False by (simp add: round_mag_exact [simplified])
qed

lemma mag_units_le_iff:
  "m \<le> inf_mag \<Longrightarrow> n \<le> inf_mag \<Longrightarrow> mag_units m \<le> mag_units n \<longleftrightarrow> m \<le> n"
  using mag_units_strict_mono [of m n] mag_units_strict_mono [of n m] by (metis leD leI less_imp_le nat_less_le)

lemma mag_units_0 [simp]: "mag_units 0 = 0"
  by (simp add: mag_units_def)

lemma mag_units_eq_0 [simp]: "m \<le> inf_mag \<Longrightarrow> mag_units m = 0 \<longleftrightarrow> m = 0"
  using mag_units_le_iff [of m 0] by auto

lemma mag_units_pos [simp]: "m \<le> inf_mag \<Longrightarrow> 0 < mag_units m \<longleftrightarrow> 0 < m"
  by (metis mag_units_eq_0 neq0_conv)

lemma round_mag_0 [simp]: "round_mag 0 den = 0"
  by (simp add: round_mag_def round_quot_def bit_length.simps [of 0])

text \<open>Among finite values the order of the keys is the order of the numbers they stand for.\<close>

theorem f64_less_units:
  assumes "f64_finite a" "f64_finite b"
  shows "f64_less a b \<longleftrightarrow> f64_units a < f64_units b"
proof -
  have "f64_mag a \<le> inf_mag" "f64_mag b \<le> inf_mag" using assms by (auto simp: f64_finite_def)
  with mag_units_le_iff [of "f64_mag a" "f64_mag b"] mag_units_le_iff [of "f64_mag b" "f64_mag a"]
    mag_units_eq_0 [of "f64_mag a"] mag_units_eq_0 [of "f64_mag b"]
    mag_units_pos [of "f64_mag a"] mag_units_pos [of "f64_mag b"]
  show ?thesis
    by (auto simp: f64_less_def f64_is_nan_def f64_key_def f64_units_def not_le)
qed

lemma f64_less_irrefl [simp]: "\<not> f64_less a a"
  by (simp add: f64_less_def)

lemma f64_less_trans: "f64_less a b \<Longrightarrow> f64_less b c \<Longrightarrow> f64_less a c"
  by (auto simp: f64_less_def)

lemma f64_neq_cases:
  "\<not> f64_is_nan a \<Longrightarrow> \<not> f64_is_nan b \<Longrightarrow> f64_eq a b \<or> f64_less a b \<or> f64_less b a"
  by (auto simp: f64_eq_def f64_less_def)

lemma f64_of_nat_fields [simp]: "\<not> f64_is_nan (f64_of_nat n)" "\<not> f64_sign (f64_of_nat n)"
  by (simp_all add: f64_of_nat_def)

lemma f64_mag_bound: "f64_mag x < 2 ^ 63"
  unfolding f64_mag_def unsigned_take_bit_eq by (rule take_bit_nat_less_exp)

lemma mag_units_one: "mag_units (1023 * 2 ^ 52) = one_units"
  by (simp add: one_units_def mag_units_def)

lemma one_round: "round_mag one_units 1 = 1023 * 2 ^ 52"
  using round_mag_exact [of "1023 * 2 ^ 52"] by (simp only: mag_units_one) (simp add: inf_mag_def)

lemma f64_one_fields [simp]:
  "f64_mag f64_one = 1023 * 2 ^ 52" "\<not> f64_sign f64_one" "\<not> f64_is_nan f64_one" "\<not> f64_is_inf f64_one"
  "f64_units f64_one = int one_units"
proof -
  have one: "f64_one = f64_make False (1023 * 2 ^ 52)"
    using one_round by (simp add: f64_one_def f64_of_nat_def f64_round_def)
  show "f64_mag f64_one = 1023 * 2 ^ 52" "\<not> f64_sign f64_one" "\<not> f64_is_nan f64_one" "\<not> f64_is_inf f64_one"
    "f64_units f64_one = int one_units"
    unfolding one
    by (simp_all add: f64_is_nan_def f64_is_inf_def inf_mag_def f64_units_def mag_units_def one_units_def)
qed

lemma f64_make_nan [simp]: "m < 2 ^ 63 \<Longrightarrow> f64_is_nan (f64_make s m) \<longleftrightarrow> inf_mag < m"
  by (simp add: f64_is_nan_def)

lemma f64_add_not_nan:
  "\<not> f64_is_nan a \<Longrightarrow> \<not> f64_is_nan b \<Longrightarrow> \<not> (f64_is_inf a \<and> f64_is_inf b) \<Longrightarrow> \<not> f64_is_nan (f64_add a b)"
  by (auto simp: f64_add_def Let_def)

lemma f64_add_nonneg:
  assumes "\<not> f64_is_nan a" "\<not> f64_sign a" "\<not> f64_is_nan b" "\<not> f64_sign b"
  shows "\<not> f64_is_nan (f64_add a b) \<and> \<not> f64_sign (f64_add a b)"
proof -
  have "\<not> f64_units a + f64_units b < 0" using assms by (simp add: f64_units_def)
  with assms show ?thesis by (auto simp: f64_add_def Let_def)
qed

text \<open>Integers keep their order, and up to \<open>2 ^ 53\<close> their value.\<close>

lemma f64_of_nat_mono: "m \<le> n \<Longrightarrow> f64_key (f64_of_nat m) \<le> f64_key (f64_of_nat n)"
  unfolding f64_key_def f64_of_nat_def by (simp add: round_mag_mono)

lemma round_quot_cancel: "0 < c \<Longrightarrow> round_quot (a * c) (b * c) = round_quot a b"
  by (simp add: round_quot_def Let_def mod_mult_mult2 div_mult_mult2 mult.left_commute [of 2 _ c] mult.commute [of _ c])

lemma round_mag_cancel:
  assumes "0 < c"
  shows "round_mag (a * c) (b * c) = round_mag a b"
proof -
  have "round_quot (a * c) (b * c * 2 ^ k) = round_quot a (b * 2 ^ k)" for k
    using round_quot_cancel [OF assms, of a "b * 2 ^ k"] by (simp add: mult_ac)
  with assms show ?thesis by (simp add: round_mag_def Let_def div_mult_mult2)
qed

text \<open>Rounding a fraction whose binary length is known, without dividing by the small power.\<close>

lemma round_mag_eval:
  assumes "0 < den" "2 ^ (52 + k) * den \<le> num" "num < 2 ^ Suc (52 + k) * den"
    and "round_quot num (den * 2 ^ k) = s" "k * 2 ^ 52 + s \<le> inf_mag"
  shows "round_mag num den = k * 2 ^ 52 + s"
proof -
  have "bit_length (num div den) = Suc (52 + k)"
    using assms(1-3) by (intro bit_length_unique) (simp_all add: less_eq_div_iff_mult_less_eq div_less_iff_less_mult)
  then have "excess num den = k" by (simp add: excess_def)
  with assms(4,5) show ?thesis by (simp add: round_mag_excess)
qed

lemma f64_of_nat_exact:
  assumes "mag_units m = n * one_units" and "m \<le> inf_mag"
  shows "f64_mag (f64_of_nat n) = m" and "nat \<bar>f64_units (f64_of_nat n)\<bar> = n * one_units"
  using round_mag_exact [OF assms(2)] assms(1)
  by (simp_all add: f64_units_def) (simp_all add: f64_of_nat_def)

lemma zero_double [simp]:
  "f64_mag (Double 0) = 0" "\<not> f64_sign (Double 0)" "\<not> f64_is_nan (Double 0)"
  by (simp_all add: f64_mag_def f64_sign_def f64_is_nan_def)

lemma zero_num [simp]: "f64_mag (f64_of_nat 0) = 0"
  by (simp add: f64_of_nat_def)

end
