(* ===== verification/Query.thy ===== *)
theory Query
  imports Records Binary64
begin

text \<open>
  \<^verbatim>\<open>include/stateindex/query.hpp\<close>: what a query asks for, and its byte form. The cost limit, a
  \<^verbatim>\<open>double\<close>, travels as an integer number of thousandths: the one field of the library that does
  not survive the round trip.
\<close>

section \<open>The generation rule\<close>

datatype GenerationRule =
    GenerationRule_CURRENT
  | GenerationRule_MINIMUM
  | GenerationRule_EXACT
  | GenerationRule_ANY
  | GenerationRule_AS_OF
  | GenerationRule_unnamed u8

primrec GenerationRule_code :: "GenerationRule \<Rightarrow> u8" where
  "GenerationRule_code GenerationRule_CURRENT = 0"
| "GenerationRule_code GenerationRule_MINIMUM = 1"
| "GenerationRule_code GenerationRule_EXACT = 2"
| "GenerationRule_code GenerationRule_ANY = 3"
| "GenerationRule_code GenerationRule_AS_OF = 4"
| "GenerationRule_code (GenerationRule_unnamed b) = b"

definition GenerationRule_of :: "u8 \<Rightarrow> GenerationRule" where
  "GenerationRule_of b =
    (if b = 0 then GenerationRule_CURRENT
     else if b = 1 then GenerationRule_MINIMUM
     else if b = 2 then GenerationRule_EXACT
     else if b = 3 then GenerationRule_ANY
     else if b = 4 then GenerationRule_AS_OF
     else GenerationRule_unnamed b)"

definition GenerationRule_ok :: "GenerationRule \<Rightarrow> bool" where
  "GenerationRule_ok x \<longleftrightarrow> GenerationRule_of (GenerationRule_code x) = x"

primrec GenerationRule_to_string :: "GenerationRule \<Rightarrow> string" where
  "GenerationRule_to_string GenerationRule_CURRENT = ''CURRENT''"
| "GenerationRule_to_string GenerationRule_MINIMUM = ''MINIMUM''"
| "GenerationRule_to_string GenerationRule_EXACT = ''EXACT''"
| "GenerationRule_to_string GenerationRule_ANY = ''ANY''"
| "GenerationRule_to_string GenerationRule_AS_OF = ''AS_OF''"
| "GenerationRule_to_string (GenerationRule_unnamed b) = ''UNKNOWN''"

interpretation GenerationRule: enum_cast GenerationRule_code GenerationRule_of GenerationRule_ok
  by unfold_locales (auto simp: GenerationRule_of_def GenerationRule_ok_def)

lemma GenerationRule_ok_named [simp]:
  "GenerationRule_ok GenerationRule_CURRENT"
  "GenerationRule_ok GenerationRule_MINIMUM"
  "GenerationRule_ok GenerationRule_EXACT"
  "GenerationRule_ok GenerationRule_ANY"
  "GenerationRule_ok GenerationRule_AS_OF"
  by (simp_all add: GenerationRule_ok_def GenerationRule_of_def)

section \<open>Elements of the descriptor's sequences\<close>

definition domain_serialize :: "MemoryDomain \<Rightarrow> bytes" where
  "domain_serialize d = push_byte (MemoryDomain_code d)"

definition domain_deserialize :: "MemoryDomain parser" where
  "domain_deserialize = bindr read_u8 (\<lambda>b. ret (MemoryDomain_of b))"

definition kind_serialize :: "StateKind \<Rightarrow> bytes" where
  "kind_serialize k = push_u16 (StateKind_code k)"

definition kind_deserialize :: "StateKind parser" where
  "kind_deserialize = bindr read_u16 (\<lambda>w. ret (StateKind_of w))"

lemma decodes_domain [codec_intro]: "MemoryDomain_ok d \<Longrightarrow> decodes domain_deserialize (domain_serialize d) d"
  unfolding domain_serialize_def domain_deserialize_def
  by (rule decodes_bind_last [OF decodes_u8], rule decodes_ret) (simp add: MemoryDomain.cast_code)

lemma decodes_kind [codec_intro]: "StateKind_ok k \<Longrightarrow> decodes kind_deserialize (kind_serialize k) k"
  unfolding kind_serialize_def kind_deserialize_def
  by (rule decodes_bind_last [OF decodes_u16], rule decodes_ret) (simp add: StateKind.cast_code)

lemma safe_domain [safe_intro]: "safe domain_deserialize"
  unfolding domain_deserialize_def by (intro safe_intro)

lemma safe_kind [safe_intro]: "safe kind_deserialize"
  unfolding kind_deserialize_def by (intro safe_intro)

interpretation domain_codec: codec domain_serialize domain_deserialize MemoryDomain_ok
  by unfold_locales (auto intro: codec_intro safe_intro)

interpretation kind_codec: codec kind_serialize kind_deserialize StateKind_ok
  by unfold_locales (auto intro: codec_intro safe_intro)

section \<open>Dependency requirements and location constraints\<close>

record DependencyRequirement =
  dr_target_state :: StateId
  dr_minimum_generation :: StateGeneration
  dr_required :: bool

definition DependencyRequirement_serialize :: "DependencyRequirement \<Rightarrow> bytes" where
  "DependencyRequirement_serialize d =
     id_serialize (dr_target_state d)
     @ gen_serialize (dr_minimum_generation d)
     @ push_bool (dr_required d)"

definition DependencyRequirement_deserialize :: "DependencyRequirement parser" where
  "DependencyRequirement_deserialize =
     bindr id_deserialize (\<lambda>target_state'.
     bindr gen_deserialize (\<lambda>minimum_generation'.
     bindr read_bool (\<lambda>required'.
     ret \<lparr>dr_target_state = target_state',
       dr_minimum_generation = minimum_generation',
       dr_required = required'\<rparr>)))"

definition DependencyRequirement_valid :: "DependencyRequirement \<Rightarrow> bool" where
  "DependencyRequirement_valid d \<longleftrightarrow> True"

lemma decodes_DependencyRequirement [codec_intro]: "DependencyRequirement_valid d \<Longrightarrow> decodes DependencyRequirement_deserialize (DependencyRequirement_serialize d) d"
  unfolding DependencyRequirement_serialize_def DependencyRequirement_deserialize_def
  by (rule decodes_nilI, simp only: append_assoc)
    ((rule codec_intro | fastforce simp: DependencyRequirement_valid_def option.pred_set)+)

lemma safe_DependencyRequirement [safe_intro]: "safe DependencyRequirement_deserialize"
  unfolding DependencyRequirement_deserialize_def by (intro safe_intro)

interpretation DependencyRequirement: codec DependencyRequirement_serialize DependencyRequirement_deserialize DependencyRequirement_valid
  by unfold_locales (auto intro: codec_intro safe_intro)

record LocationConstraint =
  lc_domains :: "MemoryDomain list"
  lc_nodes :: "NodeId list"
  lc_devices :: "DeviceId list"
  lc_preferred_access :: AccessClass

definition LocationConstraint_serialize :: "LocationConstraint \<Rightarrow> bytes" where
  "LocationConstraint_serialize c =
     push_list domain_serialize (lc_domains c)
     @ push_list id_serialize (lc_nodes c)
     @ push_list id_serialize (lc_devices c)
     @ push_byte (AccessClass_code (lc_preferred_access c))"

definition LocationConstraint_deserialize :: "LocationConstraint parser" where
  "LocationConstraint_deserialize =
     bindr (read_list kMaxLocationsPerRecord ''query: domain count exceeds bound'' domain_deserialize) (\<lambda>domains'.
     bindr (read_list kMaxLocationsPerRecord ''query: node count exceeds bound'' id_deserialize) (\<lambda>nodes'.
     bindr (read_list kMaxLocationsPerRecord ''query: device count exceeds bound'' id_deserialize) (\<lambda>devices'.
     bindr read_u8 (\<lambda>preferred_access'.
     ret \<lparr>lc_domains = domains',
       lc_nodes = nodes',
       lc_devices = devices',
       lc_preferred_access = AccessClass_of preferred_access'\<rparr>))))"

definition LocationConstraint_valid :: "LocationConstraint \<Rightarrow> bool" where
  "LocationConstraint_valid c \<longleftrightarrow>
     (\<forall>y\<in>set (lc_domains c). MemoryDomain_ok y) \<and> length (lc_domains c) \<le> unat kMaxLocationsPerRecord \<and>
     length (lc_nodes c) \<le> unat kMaxLocationsPerRecord \<and>
     length (lc_devices c) \<le> unat kMaxLocationsPerRecord \<and>
     AccessClass_ok (lc_preferred_access c)"

lemma decodes_LocationConstraint [codec_intro]: "LocationConstraint_valid c \<Longrightarrow> decodes LocationConstraint_deserialize (LocationConstraint_serialize c) c"
  unfolding LocationConstraint_serialize_def LocationConstraint_deserialize_def
  by (rule decodes_nilI, simp only: append_assoc)
    ((rule codec_intro | fastforce simp: LocationConstraint_valid_def AccessClass.cast_code option.pred_set)+)

lemma safe_LocationConstraint [safe_intro]: "safe LocationConstraint_deserialize"
  unfolding LocationConstraint_deserialize_def by (intro safe_intro)

interpretation LocationConstraint: codec LocationConstraint_serialize LocationConstraint_deserialize LocationConstraint_valid
  by unfold_locales (auto intro: codec_intro safe_intro)

section \<open>The descriptor\<close>

text \<open>\<^verbatim>\<open>static_cast<std::uint64_t>(max_retrieval_cost * 1000.0)\<close> and its way back; the conversion is
  undefined behaviour for a product that is not finite, is \<open>-1\<close> or less, or reaches \<open>2 ^ 64\<close>.\<close>

definition cost_milli :: "double \<Rightarrow> u64 option" where
  "cost_milli c = f64_to_u64 (f64_mul c (f64_of_nat 1000))"

definition cost_of_milli :: "u64 \<Rightarrow> double" where
  "cost_of_milli n = f64_div (f64_of_nat (unat n)) (f64_of_nat 1000)"

record QueryDescriptor =
  qd_query_id :: QueryId
  qd_kind :: "StateKind option"
  qd_state_id :: "StateId option"
  qd_wildcard_state_id :: bool
  qd_namespace_id :: "NamespaceId option"
  qd_generation_rule :: GenerationRule
  qd_minimum_generation :: "StateGeneration option"
  qd_exact_generation :: "StateGeneration option"
  qd_as_of_generation :: "StateGeneration option"
  qd_compatibility :: CompatibilityRequirement
  qd_dependency_requirements :: "DependencyRequirement list"
  qd_content_digest :: string
  qd_owner_id :: "OwnerId option"
  qd_producer_id :: "ProducerId option"
  qd_location_constraint :: LocationConstraint
  qd_required_freshness :: Freshness
  qd_required_health :: Health
  qd_max_retrieval_cost :: double
  qd_locality_preference :: "MemoryDomain list"
  qd_min_replica_count :: u32
  qd_policy_generation :: PolicyGeneration
  qd_query_generation :: QueryGeneration
  qd_include_invalidated :: bool
  qd_historical_only :: bool

definition QueryDescriptor_bytes :: "u64 \<Rightarrow> QueryDescriptor \<Rightarrow> bytes" where
  "QueryDescriptor_bytes milli q =
     id_serialize (qd_query_id q)
     @ push_opt kind_serialize (qd_kind q)
     @ push_opt id_serialize (qd_state_id q)
     @ push_bool (qd_wildcard_state_id q)
     @ push_opt id_serialize (qd_namespace_id q)
     @ push_byte (GenerationRule_code (qd_generation_rule q))
     @ push_opt gen_serialize (qd_minimum_generation q)
     @ push_opt gen_serialize (qd_exact_generation q)
     @ push_opt gen_serialize (qd_as_of_generation q)
     @ push_byte (CompatibilityRequirement_code (qd_compatibility q))
     @ push_list DependencyRequirement_serialize (qd_dependency_requirements q)
     @ push_string (qd_content_digest q)
     @ push_opt id_serialize (qd_owner_id q)
     @ push_opt id_serialize (qd_producer_id q)
     @ LocationConstraint_serialize (qd_location_constraint q)
     @ push_byte (Freshness_code (qd_required_freshness q))
     @ push_byte (Health_code (qd_required_health q))
     @ push_u64 milli
     @ push_list domain_serialize (qd_locality_preference q)
     @ push_u32 (qd_min_replica_count q)
     @ gen_serialize (qd_policy_generation q)
     @ gen_serialize (qd_query_generation q)
     @ push_bool (qd_include_invalidated q)
     @ push_bool (qd_historical_only q)"

definition QueryDescriptor_serialize :: "QueryDescriptor \<Rightarrow> bytes option" where
  "QueryDescriptor_serialize q =
     map_option (\<lambda>milli. QueryDescriptor_bytes milli q) (cost_milli (qd_max_retrieval_cost q))"

definition QueryDescriptor_deserialize :: "QueryDescriptor parser" where
  "QueryDescriptor_deserialize =
     bindr id_deserialize (\<lambda>query_id'.
     bindr (read_opt kind_deserialize) (\<lambda>kind'.
     bindr (read_opt id_deserialize) (\<lambda>state_id'.
     bindr read_bool (\<lambda>wildcard_state_id'.
     bindr (read_opt id_deserialize) (\<lambda>namespace_id'.
     bindr read_u8 (\<lambda>generation_rule'.
     bindr (read_opt gen_deserialize) (\<lambda>minimum_generation'.
     bindr (read_opt gen_deserialize) (\<lambda>exact_generation'.
     bindr (read_opt gen_deserialize) (\<lambda>as_of_generation'.
     bindr read_u8 (\<lambda>compatibility'.
     bindr (read_list kMaxDependenciesPerRecord ''query: dependency requirement count exceeds bound'' DependencyRequirement_deserialize) (\<lambda>dependency_requirements'.
     bindr read_string (\<lambda>content_digest'.
     bindr (read_opt id_deserialize) (\<lambda>owner_id'.
     bindr (read_opt id_deserialize) (\<lambda>producer_id'.
     bindr LocationConstraint_deserialize (\<lambda>location_constraint'.
     bindr read_u8 (\<lambda>required_freshness'.
     bindr read_u8 (\<lambda>required_health'.
     bindr read_u64 (\<lambda>max_retrieval_cost'.
     bindr (read_list kMaxLocationsPerRecord ''query: locality count exceeds bound'' domain_deserialize) (\<lambda>locality_preference'.
     bindr read_u32 (\<lambda>min_replica_count'.
     bindr gen_deserialize (\<lambda>policy_generation'.
     bindr gen_deserialize (\<lambda>query_generation'.
     bindr read_bool (\<lambda>include_invalidated'.
     bindr read_bool (\<lambda>historical_only'.
     ret \<lparr>qd_query_id = query_id',
       qd_kind = kind',
       qd_state_id = state_id',
       qd_wildcard_state_id = wildcard_state_id',
       qd_namespace_id = namespace_id',
       qd_generation_rule = GenerationRule_of generation_rule',
       qd_minimum_generation = minimum_generation',
       qd_exact_generation = exact_generation',
       qd_as_of_generation = as_of_generation',
       qd_compatibility = CompatibilityRequirement_of compatibility',
       qd_dependency_requirements = dependency_requirements',
       qd_content_digest = content_digest',
       qd_owner_id = owner_id',
       qd_producer_id = producer_id',
       qd_location_constraint = location_constraint',
       qd_required_freshness = Freshness_of required_freshness',
       qd_required_health = Health_of required_health',
       qd_max_retrieval_cost = cost_of_milli max_retrieval_cost',
       qd_locality_preference = locality_preference',
       qd_min_replica_count = min_replica_count',
       qd_policy_generation = policy_generation',
       qd_query_generation = query_generation',
       qd_include_invalidated = include_invalidated',
       qd_historical_only = historical_only'\<rparr>))))))))))))))))))))))))"

definition QueryDescriptor_valid :: "QueryDescriptor \<Rightarrow> bool" where
  "QueryDescriptor_valid q \<longleftrightarrow>
     pred_option StateKind_ok (qd_kind q) \<and>
     GenerationRule_ok (qd_generation_rule q) \<and>
     CompatibilityRequirement_ok (qd_compatibility q) \<and>
     (\<forall>y\<in>set (qd_dependency_requirements q). DependencyRequirement_valid y) \<and> length (qd_dependency_requirements q) \<le> unat kMaxDependenciesPerRecord \<and>
     length (qd_content_digest q) < 2 ^ 64 \<and>
     LocationConstraint_valid (qd_location_constraint q) \<and>
     Freshness_ok (qd_required_freshness q) \<and>
     Health_ok (qd_required_health q) \<and>
     (\<forall>y\<in>set (qd_locality_preference q). MemoryDomain_ok y) \<and> length (qd_locality_preference q) \<le> unat kMaxLocationsPerRecord"

lemma decodes_QueryDescriptor [codec_intro]: "QueryDescriptor_valid q \<Longrightarrow> 
    decodes QueryDescriptor_deserialize (QueryDescriptor_bytes milli q) (q\<lparr>qd_max_retrieval_cost := cost_of_milli milli\<rparr>)"
  unfolding QueryDescriptor_bytes_def QueryDescriptor_deserialize_def
  by (rule decodes_nilI, simp only: append_assoc)
    ((rule codec_intro | fastforce simp: QueryDescriptor_valid_def CompatibilityRequirement.cast_code Freshness.cast_code GenerationRule.cast_code Health.cast_code option.pred_set)+)

lemma safe_QueryDescriptor [safe_intro]: "safe QueryDescriptor_deserialize"
  unfolding QueryDescriptor_deserialize_def by (intro safe_intro)

text \<open>For a fixed number of thousandths the fields around the limit form a codec.\<close>

interpretation descriptor_codec: codec "QueryDescriptor_bytes milli" QueryDescriptor_deserialize
    "\<lambda>q. QueryDescriptor_valid q \<and> qd_max_retrieval_cost q = cost_of_milli milli"
proof unfold_locales
  fix q assume "QueryDescriptor_valid q \<and> qd_max_retrieval_cost q = cost_of_milli milli"
  then have "q\<lparr>qd_max_retrieval_cost := cost_of_milli milli\<rparr> = q" and "QueryDescriptor_valid q"
    by (cases q, simp)+
  then show "decodes QueryDescriptor_deserialize (QueryDescriptor_bytes milli q) q"
    using decodes_QueryDescriptor [of q milli] by simp
qed (rule safe_QueryDescriptor)

definition exact_identity :: "QueryDescriptor \<Rightarrow> bool" where
  "exact_identity q \<longleftrightarrow> qd_state_id q \<noteq> None \<and> \<not> qd_wildcard_state_id q"

definition default_constraint :: LocationConstraint where
  "default_constraint = \<lparr>lc_domains = [], lc_nodes = [], lc_devices = [],
     lc_preferred_access = AccessClass_UNKNOWN\<rparr>"

definition default_query :: QueryDescriptor where
  "default_query = \<lparr>qd_query_id = null_id, qd_kind = None, qd_state_id = None, qd_wildcard_state_id = False,
     qd_namespace_id = None, qd_generation_rule = GenerationRule_CURRENT, qd_minimum_generation = None,
     qd_exact_generation = None, qd_as_of_generation = None, qd_compatibility = CompatibilityRequirement_NONE,
     qd_dependency_requirements = [], qd_content_digest = [], qd_owner_id = None, qd_producer_id = None,
     qd_location_constraint = default_constraint, qd_required_freshness = Freshness_UNKNOWN,
     qd_required_health = Health_UNKNOWN, qd_max_retrieval_cost = Double 0, qd_locality_preference = [],
     qd_min_replica_count = 0, qd_policy_generation = unset_gen, qd_query_generation = unset_gen,
     qd_include_invalidated = False, qd_historical_only = False\<rparr>"

section \<open>The cost limit drifts\<close>

lemma mag_1000: "mag_units 4652007308841189376 = 1000 * one_units"
  by (simp add: mag_units_def one_units_def)

lemma mag_1001: "mag_units 4652016104934211584 = 1001 * one_units"
  by (simp add: mag_units_def one_units_def)

lemmas num_1000 = f64_of_nat_exact [OF mag_1000, unfolded inf_mag_def, simplified]
lemmas num_1001 = f64_of_nat_exact [OF mag_1001, unfolded inf_mag_def, simplified]

lemma cost_milli_product:
  assumes "\<not> f64_sign c" "f64_mag c < inf_mag" "f64_mag c \<noteq> 0"
  shows "cost_milli c = (let m = round_mag (1000 * mag_units (f64_mag c)) 1; n = mag_units m div one_units in
    if m < inf_mag \<and> n < 2 ^ 64 then Some (of_nat n) else None)"
proof -
  have "nat \<bar>f64_units c\<bar> = mag_units (f64_mag c)" using assms by (simp add: f64_units_def)
  then have "f64_mul c (f64_of_nat 1000) = f64_round False (mag_units (f64_mag c) * (1000 * one_units)) one_units"
    using assms by (simp add: f64_mul_def f64_is_nan_def f64_is_inf_def num_1000 inf_mag_def Let_def)
  also have "\<dots> = f64_round False (1000 * mag_units (f64_mag c)) 1"
    using round_mag_cancel [of one_units "1000 * mag_units (f64_mag c)" 1]
    by (simp add: f64_round_def one_units_def mult_ac)
  finally show ?thesis
    by (simp add: cost_milli_def f64_to_u64_def f64_finite_def f64_units_def Let_def)
qed

lemma mag_thousandths: "mag_units 4607186922399644778 = 4508103226997866 * 2 ^ 1022"
  by (simp add: mag_units_def)

lemma round_quotient: "round_mag (1001 * one_units) 1000 = 4607186922399644778"
proof -
  have "round_quot (1001 * 2 ^ 52 * 2 ^ 1022) (1000 * 2 ^ 1022) = 4508103226997866"
    by (subst round_quot_cancel) (simp_all add: round_quot_def)
  then have "round_mag (1001 * one_units) 1000 = 1022 * 2 ^ 52 + 4508103226997866"
    by (intro round_mag_eval) (simp_all add: one_units_def inf_mag_def)
  then show ?thesis by simp
qed

lemma round_product: "round_mag (1000 * (4508103226997866 * 2 ^ 1022)) 1 = 4652016104934211583"
proof -
  have "round_quot (1000 * 4508103226997866 * 2 ^ 1022) (2 ^ 9 * 2 ^ 1022) = 8804889115230207"
    by (subst round_quot_cancel) (simp_all add: round_quot_def)
  then have "round_mag (1000 * (4508103226997866 * 2 ^ 1022)) 1 = 1031 * 2 ^ 52 + 8804889115230207"
    by (intro round_mag_eval) (simp_all add: inf_mag_def)
  then show ?thesis by simp
qed

text \<open>A limit of 1001 thousandths, read from the wire and sent on, becomes 1000.\<close>

lemma cost_limit_drifts: "cost_milli (cost_of_milli 1001) = Some 1000"
proof -
  let ?c = "cost_of_milli 1001"
  have "f64_is_nan (f64_of_nat n) = False" "f64_sign (f64_of_nat n) = False" for n by simp_all
  then have "?c = f64_round False (1001 * one_units * one_units) (1000 * one_units)"
    by (simp add: cost_of_milli_def f64_div_def f64_is_inf_def num_1000 num_1001 inf_mag_def Let_def)
  also have "\<dots> = f64_make False 4607186922399644778"
    using round_mag_cancel [of one_units "1001 * one_units" 1000] round_quotient
    by (simp add: f64_round_def one_units_def)
  finally have "f64_mag ?c = 4607186922399644778" "\<not> f64_sign ?c" by simp_all
  moreover have "mag_units 4652016104934211583 div one_units = 1000" by (simp add: mag_units_def one_units_def)
  ultimately show ?thesis
    using round_product by (subst cost_milli_product) (simp_all add: mag_thousandths inf_mag_def Let_def)
qed

end
