(* ===== verification/Result.thy ===== *)
theory Result
  imports Query
begin

text \<open>
  \<^verbatim>\<open>include/stateindex/result.hpp\<close>: the answer to a query, with the factors that ranked each candidate
  and the reason that eliminated each of the others, and its byte form.
\<close>

definition kMaxStrings :: u64 where
  "kMaxStrings = push_bit 24 1"

definition factor_serialize :: "RankingFactor \<times> double \<Rightarrow> bytes" where
  "factor_serialize fv = push_byte (RankingFactor_code (fst fv)) @ push_double (snd fv)"

definition factor_deserialize :: "(RankingFactor \<times> double) parser" where
  "factor_deserialize = bindr read_u8 (\<lambda>f. bindr read_double (\<lambda>v. ret (RankingFactor_of f, v)))"

lemma decodes_factor [codec_intro]:
  "RankingFactor_ok (fst fv) \<Longrightarrow> decodes factor_deserialize (factor_serialize fv) fv"
  unfolding factor_serialize_def factor_deserialize_def
  by (rule decodes_bind [OF decodes_u8], rule decodes_bind_last [OF decodes_double], rule decodes_ret)
    (simp add: RankingFactor.cast_code)

lemma safe_factor [safe_intro]: "safe factor_deserialize"
  unfolding factor_deserialize_def by (intro safe_intro)

interpretation factor_codec: codec factor_serialize factor_deserialize "\<lambda>fv. RankingFactor_ok (fst fv)"
  by unfold_locales (auto intro: codec_intro safe_intro)

record CandidateRanking =
  cr_record_id :: StateRecordId
  cr_generation :: StateGeneration
  cr_best_placement :: "PlacementId option"
  cr_factors :: "(RankingFactor \<times> double) list"
  cr_factor_notes :: "string list"
  cr_summary :: string

definition CandidateRanking_serialize :: "CandidateRanking \<Rightarrow> bytes" where
  "CandidateRanking_serialize c =
     id_serialize (cr_record_id c)
     @ gen_serialize (cr_generation c)
     @ push_opt id_serialize (cr_best_placement c)
     @ push_list factor_serialize (cr_factors c)
     @ push_list push_string (cr_factor_notes c)
     @ push_string (cr_summary c)"

definition CandidateRanking_deserialize :: "CandidateRanking parser" where
  "CandidateRanking_deserialize =
     bindr id_deserialize (\<lambda>record_id'.
     bindr gen_deserialize (\<lambda>generation'.
     bindr (read_opt id_deserialize) (\<lambda>best_placement'.
     bindr (read_list 64 ''query result: factor count exceeds bound'' factor_deserialize) (\<lambda>factors'.
     bindr (read_list 64 ''query result: note count exceeds bound'' read_string) (\<lambda>factor_notes'.
     bindr read_string (\<lambda>summary'.
     ret \<lparr>cr_record_id = record_id',
       cr_generation = generation',
       cr_best_placement = best_placement',
       cr_factors = factors',
       cr_factor_notes = factor_notes',
       cr_summary = summary'\<rparr>))))))"

definition CandidateRanking_valid :: "CandidateRanking \<Rightarrow> bool" where
  "CandidateRanking_valid c \<longleftrightarrow>
     (\<forall>y\<in>set (cr_factors c). RankingFactor_ok (fst y)) \<and> length (cr_factors c) \<le> 64 \<and>
     (\<forall>y\<in>set (cr_factor_notes c). length y < 2 ^ 64) \<and> length (cr_factor_notes c) \<le> 64 \<and>
     length (cr_summary c) < 2 ^ 64"

lemma decodes_CandidateRanking [codec_intro]: "CandidateRanking_valid c \<Longrightarrow> decodes CandidateRanking_deserialize (CandidateRanking_serialize c) c"
  unfolding CandidateRanking_serialize_def CandidateRanking_deserialize_def
  by (rule decodes_nilI, simp only: append_assoc)
    ((rule codec_intro | fastforce simp: CandidateRanking_valid_def option.pred_set)+)

lemma safe_CandidateRanking [safe_intro]: "safe CandidateRanking_deserialize"
  unfolding CandidateRanking_deserialize_def by (intro safe_intro)

interpretation CandidateRanking: codec CandidateRanking_serialize CandidateRanking_deserialize CandidateRanking_valid
  by unfold_locales (auto intro: codec_intro safe_intro)

record EliminatedCandidate =
  el_record_id :: StateRecordId
  el_reason :: RejectionReason
  el_note :: string

definition EliminatedCandidate_serialize :: "EliminatedCandidate \<Rightarrow> bytes" where
  "EliminatedCandidate_serialize e =
     id_serialize (el_record_id e)
     @ push_byte (RejectionReason_code (el_reason e))
     @ push_string (el_note e)"

definition EliminatedCandidate_deserialize :: "EliminatedCandidate parser" where
  "EliminatedCandidate_deserialize =
     bindr id_deserialize (\<lambda>record_id'.
     bindr read_u8 (\<lambda>reason'.
     bindr read_string (\<lambda>note'.
     ret \<lparr>el_record_id = record_id',
       el_reason = RejectionReason_of reason',
       el_note = note'\<rparr>)))"

definition EliminatedCandidate_valid :: "EliminatedCandidate \<Rightarrow> bool" where
  "EliminatedCandidate_valid e \<longleftrightarrow>
     RejectionReason_ok (el_reason e) \<and>
     length (el_note e) < 2 ^ 64"

lemma decodes_EliminatedCandidate [codec_intro]: "EliminatedCandidate_valid e \<Longrightarrow> decodes EliminatedCandidate_deserialize (EliminatedCandidate_serialize e) e"
  unfolding EliminatedCandidate_serialize_def EliminatedCandidate_deserialize_def
  by (rule decodes_nilI, simp only: append_assoc)
    ((rule codec_intro | fastforce simp: EliminatedCandidate_valid_def RejectionReason.cast_code option.pred_set)+)

lemma safe_EliminatedCandidate [safe_intro]: "safe EliminatedCandidate_deserialize"
  unfolding EliminatedCandidate_deserialize_def by (intro safe_intro)

interpretation EliminatedCandidate: codec EliminatedCandidate_serialize EliminatedCandidate_deserialize EliminatedCandidate_valid
  by unfold_locales (auto intro: codec_intro safe_intro)

record QueryResult =
  qr_result_id :: ResultId
  qr_query_id :: QueryId
  qr_query_plan_id :: QueryPlanId
  qr_query_generation :: QueryGeneration
  qr_outcome :: QueryOutcome
  qr_selected_record_id :: "StateRecordId option"
  qr_selected_generation :: "StateGeneration option"
  qr_selected_placement :: "PlacementId option"
  qr_selected_state_id :: "StateId option"
  qr_compatibility_outcome :: string
  qr_freshness :: Freshness
  qr_health :: Health
  qr_provenance :: Evidence
  qr_authority_boot :: string
  qr_source :: string
  qr_ranked_candidates :: "CandidateRanking list"
  qr_eliminated :: "EliminatedCandidate list"
  qr_notes :: "string list"
  qr_retrieval :: RetrievalEstimate
  qr_semantic_digest :: string
  qr_summary :: string

definition QueryResult_serialize :: "QueryResult \<Rightarrow> bytes" where
  "QueryResult_serialize q =
     id_serialize (qr_result_id q)
     @ id_serialize (qr_query_id q)
     @ id_serialize (qr_query_plan_id q)
     @ gen_serialize (qr_query_generation q)
     @ push_byte (QueryOutcome_code (qr_outcome q))
     @ push_opt id_serialize (qr_selected_record_id q)
     @ push_opt gen_serialize (qr_selected_generation q)
     @ push_opt id_serialize (qr_selected_placement q)
     @ push_opt id_serialize (qr_selected_state_id q)
     @ push_string (qr_compatibility_outcome q)
     @ push_byte (Freshness_code (qr_freshness q))
     @ push_byte (Health_code (qr_health q))
     @ push_byte (Evidence_code (qr_provenance q))
     @ push_string (qr_authority_boot q)
     @ push_string (qr_source q)
     @ push_list CandidateRanking_serialize (qr_ranked_candidates q)
     @ push_list EliminatedCandidate_serialize (qr_eliminated q)
     @ push_list push_string (qr_notes q)
     @ RetrievalEstimate_serialize (qr_retrieval q)
     @ push_string (qr_semantic_digest q)
     @ push_string (qr_summary q)"

definition QueryResult_deserialize :: "QueryResult parser" where
  "QueryResult_deserialize =
     bindr id_deserialize (\<lambda>result_id'.
     bindr id_deserialize (\<lambda>query_id'.
     bindr id_deserialize (\<lambda>query_plan_id'.
     bindr gen_deserialize (\<lambda>query_generation'.
     bindr read_u8 (\<lambda>outcome'.
     bindr (read_opt id_deserialize) (\<lambda>selected_record_id'.
     bindr (read_opt gen_deserialize) (\<lambda>selected_generation'.
     bindr (read_opt id_deserialize) (\<lambda>selected_placement'.
     bindr (read_opt id_deserialize) (\<lambda>selected_state_id'.
     bindr read_string (\<lambda>compatibility_outcome'.
     bindr read_u8 (\<lambda>freshness'.
     bindr read_u8 (\<lambda>health'.
     bindr read_u8 (\<lambda>provenance'.
     bindr read_string (\<lambda>authority_boot'.
     bindr read_string (\<lambda>source'.
     bindr (read_list kMaxRecordCount ''query result: candidate count exceeds bound'' CandidateRanking_deserialize) (\<lambda>ranked_candidates'.
     bindr (read_list kMaxRecordCount ''query result: eliminated count exceeds bound'' EliminatedCandidate_deserialize) (\<lambda>eliminated'.
     bindr (read_list kMaxStrings ''query result: note count exceeds bound'' read_string) (\<lambda>notes'.
     bindr RetrievalEstimate_deserialize (\<lambda>retrieval'.
     bindr read_string (\<lambda>semantic_digest'.
     bindr read_string (\<lambda>summary'.
     ret \<lparr>qr_result_id = result_id',
       qr_query_id = query_id',
       qr_query_plan_id = query_plan_id',
       qr_query_generation = query_generation',
       qr_outcome = QueryOutcome_of outcome',
       qr_selected_record_id = selected_record_id',
       qr_selected_generation = selected_generation',
       qr_selected_placement = selected_placement',
       qr_selected_state_id = selected_state_id',
       qr_compatibility_outcome = compatibility_outcome',
       qr_freshness = Freshness_of freshness',
       qr_health = Health_of health',
       qr_provenance = Evidence_of provenance',
       qr_authority_boot = authority_boot',
       qr_source = source',
       qr_ranked_candidates = ranked_candidates',
       qr_eliminated = eliminated',
       qr_notes = notes',
       qr_retrieval = retrieval',
       qr_semantic_digest = semantic_digest',
       qr_summary = summary'\<rparr>)))))))))))))))))))))"

definition QueryResult_valid :: "QueryResult \<Rightarrow> bool" where
  "QueryResult_valid q \<longleftrightarrow>
     QueryOutcome_ok (qr_outcome q) \<and>
     length (qr_compatibility_outcome q) < 2 ^ 64 \<and>
     Freshness_ok (qr_freshness q) \<and>
     Health_ok (qr_health q) \<and>
     Evidence_ok (qr_provenance q) \<and>
     length (qr_authority_boot q) < 2 ^ 64 \<and>
     length (qr_source q) < 2 ^ 64 \<and>
     (\<forall>y\<in>set (qr_ranked_candidates q). CandidateRanking_valid y) \<and> length (qr_ranked_candidates q) \<le> unat kMaxRecordCount \<and>
     (\<forall>y\<in>set (qr_eliminated q). EliminatedCandidate_valid y) \<and> length (qr_eliminated q) \<le> unat kMaxRecordCount \<and>
     (\<forall>y\<in>set (qr_notes q). length y < 2 ^ 64) \<and> length (qr_notes q) \<le> unat kMaxStrings \<and>
     RetrievalEstimate_valid (qr_retrieval q) \<and>
     length (qr_semantic_digest q) < 2 ^ 64 \<and>
     length (qr_summary q) < 2 ^ 64"

lemma decodes_QueryResult [codec_intro]: "QueryResult_valid q \<Longrightarrow> decodes QueryResult_deserialize (QueryResult_serialize q) q"
  unfolding QueryResult_serialize_def QueryResult_deserialize_def
  by (rule decodes_nilI, simp only: append_assoc)
    ((rule codec_intro | fastforce simp: QueryResult_valid_def Evidence.cast_code Freshness.cast_code Health.cast_code QueryOutcome.cast_code option.pred_set)+)

lemma safe_QueryResult [safe_intro]: "safe QueryResult_deserialize"
  unfolding QueryResult_deserialize_def by (intro safe_intro)

interpretation QueryResult: codec QueryResult_serialize QueryResult_deserialize QueryResult_valid
  by unfold_locales (auto intro: codec_intro safe_intro)

definition found :: "QueryResult \<Rightarrow> bool" where
  "found r \<longleftrightarrow> qr_outcome r = QueryOutcome_FOUND_EXACT \<or> qr_outcome r = QueryOutcome_FOUND_COMPATIBLE \<or>
     qr_outcome r = QueryOutcome_FOUND_MULTIPLE"

definition empty_result :: QueryResult where
  "empty_result = \<lparr>qr_result_id = null_id, qr_query_id = null_id, qr_query_plan_id = null_id,
     qr_query_generation = unset_gen, qr_outcome = QueryOutcome_UNKNOWN, qr_selected_record_id = None,
     qr_selected_generation = None, qr_selected_placement = None, qr_selected_state_id = None,
     qr_compatibility_outcome = [], qr_freshness = Freshness_UNKNOWN, qr_health = Health_UNKNOWN,
     qr_provenance = Evidence_UNKNOWN, qr_authority_boot = [], qr_source = [], qr_ranked_candidates = [],
     qr_eliminated = [], qr_notes = [], qr_retrieval = default_estimate, qr_semantic_digest = [],
     qr_summary = []\<rparr>"

end
