(* ===== verification/Invalidation.thy ===== *)
theory Invalidation
  imports Bytebuf
begin

text \<open>
  \<^verbatim>\<open>include/stateindex/invalidation.hpp\<close>: invalidations and tombstones.
\<close>

section \<open>Invalidations\<close>

record InvalidationRecord =
  inv_invalidation_seq :: u64
  inv_invalidation_id :: InvalidationId
  inv_state_id :: StateId
  inv_bound_generation :: StateGeneration
  inv_coordinator_epoch :: CoordinatorEpoch
  inv_worker_boot :: WorkerBootId
  inv_record_generation :: RecordGeneration
  inv_location_generation :: LocationGeneration
  inv_compatibility_generation :: CompatibilityGeneration
  inv_provenance_generation :: ProvenanceGeneration
  inv_dependency_generation :: DependencyGeneration
  inv_policy_generation :: PolicyGeneration
  inv_reason :: string
  inv_timestamp :: i64
  inv_evidence :: Evidence
  inv_current :: bool

definition InvalidationRecord_serialize :: "InvalidationRecord \<Rightarrow> bytes" where
  "InvalidationRecord_serialize i =
     push_u64 (inv_invalidation_seq i)
     @ id_serialize (inv_invalidation_id i)
     @ id_serialize (inv_state_id i)
     @ gen_serialize (inv_bound_generation i)
     @ gen_serialize (inv_coordinator_epoch i)
     @ id_serialize (inv_worker_boot i)
     @ gen_serialize (inv_record_generation i)
     @ gen_serialize (inv_location_generation i)
     @ gen_serialize (inv_compatibility_generation i)
     @ gen_serialize (inv_provenance_generation i)
     @ gen_serialize (inv_dependency_generation i)
     @ gen_serialize (inv_policy_generation i)
     @ push_string (inv_reason i)
     @ push_i64 (inv_timestamp i)
     @ push_byte (Evidence_code (inv_evidence i))
     @ push_bool (inv_current i)"

definition InvalidationRecord_deserialize :: "InvalidationRecord parser" where
  "InvalidationRecord_deserialize =
     bindr read_u64 (\<lambda>invalidation_seq'.
     bindr id_deserialize (\<lambda>invalidation_id'.
     bindr id_deserialize (\<lambda>state_id'.
     bindr gen_deserialize (\<lambda>bound_generation'.
     bindr gen_deserialize (\<lambda>coordinator_epoch'.
     bindr id_deserialize (\<lambda>worker_boot'.
     bindr gen_deserialize (\<lambda>record_generation'.
     bindr gen_deserialize (\<lambda>location_generation'.
     bindr gen_deserialize (\<lambda>compatibility_generation'.
     bindr gen_deserialize (\<lambda>provenance_generation'.
     bindr gen_deserialize (\<lambda>dependency_generation'.
     bindr gen_deserialize (\<lambda>policy_generation'.
     bindr read_string (\<lambda>reason'.
     bindr read_i64 (\<lambda>timestamp'.
     bindr read_u8 (\<lambda>evidence'.
     bindr read_bool (\<lambda>current'.
     ret \<lparr>inv_invalidation_seq = invalidation_seq',
       inv_invalidation_id = invalidation_id',
       inv_state_id = state_id',
       inv_bound_generation = bound_generation',
       inv_coordinator_epoch = coordinator_epoch',
       inv_worker_boot = worker_boot',
       inv_record_generation = record_generation',
       inv_location_generation = location_generation',
       inv_compatibility_generation = compatibility_generation',
       inv_provenance_generation = provenance_generation',
       inv_dependency_generation = dependency_generation',
       inv_policy_generation = policy_generation',
       inv_reason = reason',
       inv_timestamp = timestamp',
       inv_evidence = Evidence_of evidence',
       inv_current = current'\<rparr>))))))))))))))))"

definition InvalidationRecord_valid :: "InvalidationRecord \<Rightarrow> bool" where
  "InvalidationRecord_valid i \<longleftrightarrow>
     length (inv_reason i) < 2 ^ 64 \<and>
     Evidence_ok (inv_evidence i)"

lemma decodes_InvalidationRecord [codec_intro]: "InvalidationRecord_valid i \<Longrightarrow> decodes InvalidationRecord_deserialize (InvalidationRecord_serialize i) i"
  unfolding InvalidationRecord_serialize_def InvalidationRecord_deserialize_def
  by (rule decodes_nilI, simp only: append_assoc)
    ((rule codec_intro | fastforce simp: InvalidationRecord_valid_def Evidence.cast_code option.pred_set)+)

lemma safe_InvalidationRecord [safe_intro]: "safe InvalidationRecord_deserialize"
  unfolding InvalidationRecord_deserialize_def by (intro safe_intro)

interpretation InvalidationRecord: codec InvalidationRecord_serialize InvalidationRecord_deserialize InvalidationRecord_valid
  by unfold_locales (auto intro: codec_intro safe_intro)

section \<open>Tombstones\<close>

record TombstoneRecord =
  tomb_tombstone_id :: TombstoneId
  tomb_state_id :: StateId
  tomb_floor_generation :: StateGeneration
  tomb_coordinator_epoch :: CoordinatorEpoch
  tomb_worker_boot :: WorkerBootId
  tomb_reason :: string
  tomb_timestamp :: i64
  tomb_evidence :: Evidence
  tomb_current :: bool

definition TombstoneRecord_serialize :: "TombstoneRecord \<Rightarrow> bytes" where
  "TombstoneRecord_serialize t =
     id_serialize (tomb_tombstone_id t)
     @ id_serialize (tomb_state_id t)
     @ gen_serialize (tomb_floor_generation t)
     @ gen_serialize (tomb_coordinator_epoch t)
     @ id_serialize (tomb_worker_boot t)
     @ push_string (tomb_reason t)
     @ push_i64 (tomb_timestamp t)
     @ push_byte (Evidence_code (tomb_evidence t))
     @ push_bool (tomb_current t)"

definition TombstoneRecord_deserialize :: "TombstoneRecord parser" where
  "TombstoneRecord_deserialize =
     bindr id_deserialize (\<lambda>tombstone_id'.
     bindr id_deserialize (\<lambda>state_id'.
     bindr gen_deserialize (\<lambda>floor_generation'.
     bindr gen_deserialize (\<lambda>coordinator_epoch'.
     bindr id_deserialize (\<lambda>worker_boot'.
     bindr read_string (\<lambda>reason'.
     bindr read_i64 (\<lambda>timestamp'.
     bindr read_u8 (\<lambda>evidence'.
     bindr read_bool (\<lambda>current'.
     ret \<lparr>tomb_tombstone_id = tombstone_id',
       tomb_state_id = state_id',
       tomb_floor_generation = floor_generation',
       tomb_coordinator_epoch = coordinator_epoch',
       tomb_worker_boot = worker_boot',
       tomb_reason = reason',
       tomb_timestamp = timestamp',
       tomb_evidence = Evidence_of evidence',
       tomb_current = current'\<rparr>)))))))))"

definition TombstoneRecord_valid :: "TombstoneRecord \<Rightarrow> bool" where
  "TombstoneRecord_valid t \<longleftrightarrow>
     length (tomb_reason t) < 2 ^ 64 \<and>
     Evidence_ok (tomb_evidence t)"

lemma decodes_TombstoneRecord [codec_intro]: "TombstoneRecord_valid t \<Longrightarrow> decodes TombstoneRecord_deserialize (TombstoneRecord_serialize t) t"
  unfolding TombstoneRecord_serialize_def TombstoneRecord_deserialize_def
  by (rule decodes_nilI, simp only: append_assoc)
    ((rule codec_intro | fastforce simp: TombstoneRecord_valid_def Evidence.cast_code option.pred_set)+)

lemma safe_TombstoneRecord [safe_intro]: "safe TombstoneRecord_deserialize"
  unfolding TombstoneRecord_deserialize_def by (intro safe_intro)

interpretation TombstoneRecord: codec TombstoneRecord_serialize TombstoneRecord_deserialize TombstoneRecord_valid
  by unfold_locales (auto intro: codec_intro safe_intro)

definition covers :: "TombstoneRecord \<Rightarrow> StateGeneration \<Rightarrow> bool" where
  "covers t g \<longleftrightarrow> tomb_current t \<and> is_set g \<and> g \<le> tomb_floor_generation t"

text \<open>A tombstone covers a downward-closed set of set generations.\<close>

lemma covers_downward: "covers t g \<Longrightarrow> is_set h \<Longrightarrow> h \<le> g \<Longrightarrow> covers t h"
  by (auto simp: covers_def)

end
