(* ===== verification/Authority.thy ===== *)
theory Authority
  imports Enums Bytebuf
begin

text \<open>
  \<^verbatim>\<open>include/stateindex/authority.hpp\<close> and \<^verbatim>\<open>src/authority.cpp\<close>: the mutation envelope, the
  registry of the coordinator epoch, the live worker incarnations, the tombstone floors and
  the current authoritative generation of each state, and the check that decides whether a
  publication is stale. The registry's maps are keyed by the raw 64-bit value of an id.
\<close>

section \<open>The mutation envelope\<close>

record MutationEnvelope =
  env_coordinator_epoch :: CoordinatorEpoch
  env_worker_id :: WorkerId
  env_worker_boot :: WorkerBootId
  env_attempt_generation :: AttemptGeneration
  env_dispatch_generation :: DispatchGeneration
  env_state_generation :: StateGeneration
  env_record_generation :: RecordGeneration
  env_owner_generation :: OwnerGeneration
  env_producer_generation :: ProducerGeneration
  env_worker_generation :: WorkerGeneration
  env_location_generation :: LocationGeneration
  env_placement_generation :: PlacementGeneration
  env_replica_generation :: ReplicaGeneration
  env_compatibility_generation :: CompatibilityGeneration
  env_provenance_generation :: ProvenanceGeneration
  env_dependency_generation :: DependencyGeneration
  env_observation_generation :: ObservationGeneration
  env_policy_generation :: PolicyGeneration

definition MutationEnvelope_serialize :: "MutationEnvelope \<Rightarrow> bytes" where
  "MutationEnvelope_serialize e =
     gen_serialize (env_coordinator_epoch e)
     @ id_serialize (env_worker_id e)
     @ id_serialize (env_worker_boot e)
     @ gen_serialize (env_attempt_generation e)
     @ gen_serialize (env_dispatch_generation e)
     @ gen_serialize (env_state_generation e)
     @ gen_serialize (env_record_generation e)
     @ gen_serialize (env_owner_generation e)
     @ gen_serialize (env_producer_generation e)
     @ gen_serialize (env_worker_generation e)
     @ gen_serialize (env_location_generation e)
     @ gen_serialize (env_placement_generation e)
     @ gen_serialize (env_replica_generation e)
     @ gen_serialize (env_compatibility_generation e)
     @ gen_serialize (env_provenance_generation e)
     @ gen_serialize (env_dependency_generation e)
     @ gen_serialize (env_observation_generation e)
     @ gen_serialize (env_policy_generation e)"

definition MutationEnvelope_deserialize :: "MutationEnvelope parser" where
  "MutationEnvelope_deserialize =
     bindr gen_deserialize (\<lambda>coordinator_epoch'.
     bindr id_deserialize (\<lambda>worker_id'.
     bindr id_deserialize (\<lambda>worker_boot'.
     bindr gen_deserialize (\<lambda>attempt_generation'.
     bindr gen_deserialize (\<lambda>dispatch_generation'.
     bindr gen_deserialize (\<lambda>state_generation'.
     bindr gen_deserialize (\<lambda>record_generation'.
     bindr gen_deserialize (\<lambda>owner_generation'.
     bindr gen_deserialize (\<lambda>producer_generation'.
     bindr gen_deserialize (\<lambda>worker_generation'.
     bindr gen_deserialize (\<lambda>location_generation'.
     bindr gen_deserialize (\<lambda>placement_generation'.
     bindr gen_deserialize (\<lambda>replica_generation'.
     bindr gen_deserialize (\<lambda>compatibility_generation'.
     bindr gen_deserialize (\<lambda>provenance_generation'.
     bindr gen_deserialize (\<lambda>dependency_generation'.
     bindr gen_deserialize (\<lambda>observation_generation'.
     bindr gen_deserialize (\<lambda>policy_generation'.
     ret \<lparr>env_coordinator_epoch = coordinator_epoch',
       env_worker_id = worker_id',
       env_worker_boot = worker_boot',
       env_attempt_generation = attempt_generation',
       env_dispatch_generation = dispatch_generation',
       env_state_generation = state_generation',
       env_record_generation = record_generation',
       env_owner_generation = owner_generation',
       env_producer_generation = producer_generation',
       env_worker_generation = worker_generation',
       env_location_generation = location_generation',
       env_placement_generation = placement_generation',
       env_replica_generation = replica_generation',
       env_compatibility_generation = compatibility_generation',
       env_provenance_generation = provenance_generation',
       env_dependency_generation = dependency_generation',
       env_observation_generation = observation_generation',
       env_policy_generation = policy_generation'\<rparr>))))))))))))))))))"

definition MutationEnvelope_valid :: "MutationEnvelope \<Rightarrow> bool" where
  "MutationEnvelope_valid e \<longleftrightarrow> True"

lemma decodes_MutationEnvelope [codec_intro]: "MutationEnvelope_valid e \<Longrightarrow> decodes MutationEnvelope_deserialize (MutationEnvelope_serialize e) e"
  unfolding MutationEnvelope_serialize_def MutationEnvelope_deserialize_def
  by (rule decodes_nilI, simp only: append_assoc)
    ((rule codec_intro | fastforce simp: MutationEnvelope_valid_def option.pred_set)+)

lemma safe_MutationEnvelope [safe_intro]: "safe MutationEnvelope_deserialize"
  unfolding MutationEnvelope_deserialize_def by (intro safe_intro)

interpretation MutationEnvelope: codec MutationEnvelope_serialize MutationEnvelope_deserialize MutationEnvelope_valid
  by unfold_locales (auto intro: codec_intro safe_intro)

section \<open>Verdicts\<close>

datatype MutationVerdict =
    MutationVerdict_ACCEPTED
  | MutationVerdict_REJECTED_STALE_EPOCH
  | MutationVerdict_REJECTED_STALE_BOOT
  | MutationVerdict_REJECTED_GENERATION_REGRESSION
  | MutationVerdict_REJECTED_DUPLICATE
  | MutationVerdict_REJECTED_TOMBSTONED
  | MutationVerdict_REJECTED_NOT_LIVE
  | MutationVerdict_REJECTED_NON_MONOTONIC
  | MutationVerdict_unnamed u8

primrec MutationVerdict_code :: "MutationVerdict \<Rightarrow> u8" where
  "MutationVerdict_code MutationVerdict_ACCEPTED = 0"
| "MutationVerdict_code MutationVerdict_REJECTED_STALE_EPOCH = 1"
| "MutationVerdict_code MutationVerdict_REJECTED_STALE_BOOT = 2"
| "MutationVerdict_code MutationVerdict_REJECTED_GENERATION_REGRESSION = 3"
| "MutationVerdict_code MutationVerdict_REJECTED_DUPLICATE = 4"
| "MutationVerdict_code MutationVerdict_REJECTED_TOMBSTONED = 5"
| "MutationVerdict_code MutationVerdict_REJECTED_NOT_LIVE = 6"
| "MutationVerdict_code MutationVerdict_REJECTED_NON_MONOTONIC = 7"
| "MutationVerdict_code (MutationVerdict_unnamed b) = b"

definition MutationVerdict_of :: "u8 \<Rightarrow> MutationVerdict" where
  "MutationVerdict_of b =
    (if b = 0 then MutationVerdict_ACCEPTED
     else if b = 1 then MutationVerdict_REJECTED_STALE_EPOCH
     else if b = 2 then MutationVerdict_REJECTED_STALE_BOOT
     else if b = 3 then MutationVerdict_REJECTED_GENERATION_REGRESSION
     else if b = 4 then MutationVerdict_REJECTED_DUPLICATE
     else if b = 5 then MutationVerdict_REJECTED_TOMBSTONED
     else if b = 6 then MutationVerdict_REJECTED_NOT_LIVE
     else if b = 7 then MutationVerdict_REJECTED_NON_MONOTONIC
     else MutationVerdict_unnamed b)"

definition MutationVerdict_ok :: "MutationVerdict \<Rightarrow> bool" where
  "MutationVerdict_ok x \<longleftrightarrow> MutationVerdict_of (MutationVerdict_code x) = x"

primrec MutationVerdict_to_string :: "MutationVerdict \<Rightarrow> string" where
  "MutationVerdict_to_string MutationVerdict_ACCEPTED = ''ACCEPTED''"
| "MutationVerdict_to_string MutationVerdict_REJECTED_STALE_EPOCH = ''REJECTED_STALE_EPOCH''"
| "MutationVerdict_to_string MutationVerdict_REJECTED_STALE_BOOT = ''REJECTED_STALE_BOOT''"
| "MutationVerdict_to_string MutationVerdict_REJECTED_GENERATION_REGRESSION = ''REJECTED_GENERATION_REGRESSION''"
| "MutationVerdict_to_string MutationVerdict_REJECTED_DUPLICATE = ''REJECTED_DUPLICATE''"
| "MutationVerdict_to_string MutationVerdict_REJECTED_TOMBSTONED = ''REJECTED_TOMBSTONED''"
| "MutationVerdict_to_string MutationVerdict_REJECTED_NOT_LIVE = ''REJECTED_NOT_LIVE''"
| "MutationVerdict_to_string MutationVerdict_REJECTED_NON_MONOTONIC = ''REJECTED_NON_MONOTONIC''"
| "MutationVerdict_to_string (MutationVerdict_unnamed b) = ''UNKNOWN''"

interpretation MutationVerdict: enum_cast MutationVerdict_code MutationVerdict_of MutationVerdict_ok
  by unfold_locales (auto simp: MutationVerdict_of_def MutationVerdict_ok_def)

lemma MutationVerdict_ok_named [simp]:
  "MutationVerdict_ok MutationVerdict_ACCEPTED"
  "MutationVerdict_ok MutationVerdict_REJECTED_STALE_EPOCH"
  "MutationVerdict_ok MutationVerdict_REJECTED_STALE_BOOT"
  "MutationVerdict_ok MutationVerdict_REJECTED_GENERATION_REGRESSION"
  "MutationVerdict_ok MutationVerdict_REJECTED_DUPLICATE"
  "MutationVerdict_ok MutationVerdict_REJECTED_TOMBSTONED"
  "MutationVerdict_ok MutationVerdict_REJECTED_NOT_LIVE"
  "MutationVerdict_ok MutationVerdict_REJECTED_NON_MONOTONIC"
  by (simp_all add: MutationVerdict_ok_def MutationVerdict_of_def)

record MutationVerdictDetail =
  mvd_verdict :: MutationVerdict
  mvd_reason :: string

definition verdict_detail :: "MutationVerdict \<Rightarrow> string \<Rightarrow> MutationVerdictDetail" where
  "verdict_detail v reason = \<lparr>mvd_verdict = v, mvd_reason = reason\<rparr>"

lemma verdict_detail_simps [simp]:
  "mvd_verdict (verdict_detail v reason) = v"
  "mvd_reason (verdict_detail v reason) = reason"
  by (simp_all add: verdict_detail_def)

section \<open>The registry\<close>

record BootHighWater =
  bhw_boot :: WorkerBootId
  bhw_state_gen :: StateGeneration
  bhw_record_gen :: RecordGeneration
  bhw_location_gen :: LocationGeneration
  bhw_placement_gen :: PlacementGeneration
  bhw_replica_gen :: ReplicaGeneration
  bhw_compatibility_gen :: CompatibilityGeneration
  bhw_provenance_gen :: ProvenanceGeneration
  bhw_dependency_gen :: DependencyGeneration

record AuthorityRegistry =
  auth_epoch :: CoordinatorEpoch
  auth_live_boots :: "(u64, WorkerId) umap"
  auth_worker_incarnation :: "(u64, WorkerBootId) umap"
  auth_boot_high_water :: "(u64, BootHighWater) umap"
  auth_tombstone_floor :: "(u64, StateGeneration) umap"
  auth_current_authority :: "(u64, StateGeneration \<times> WorkerBootId) umap"

definition new_authority :: "CoordinatorEpoch \<Rightarrow> AuthorityRegistry" where
  "new_authority epoch = \<lparr>auth_epoch = epoch, auth_live_boots = [], auth_worker_incarnation = [],
     auth_boot_high_water = [], auth_tombstone_floor = [], auth_current_authority = []\<rparr>"

definition auth_advance_epoch :: "AuthorityRegistry \<Rightarrow> AuthorityRegistry" where
  "auth_advance_epoch a = a\<lparr>auth_epoch := gen_next (auth_epoch a)\<rparr>"

definition auth_set_epoch :: "CoordinatorEpoch \<Rightarrow> AuthorityRegistry \<Rightarrow> AuthorityRegistry" where
  "auth_set_epoch e a = a\<lparr>auth_epoch := e\<rparr>"

definition clear_live_workers :: "AuthorityRegistry \<Rightarrow> AuthorityRegistry" where
  "clear_live_workers a = a\<lparr>auth_live_boots := [], auth_worker_incarnation := []\<rparr>"

definition auth_register_worker :: "WorkerId \<Rightarrow> WorkerBootId \<Rightarrow> AuthorityRegistry \<Rightarrow> AuthorityRegistry" where
  "auth_register_worker worker boot a =
     a\<lparr>auth_live_boots := um_put (id_value boot) worker (auth_live_boots a),
       auth_worker_incarnation := um_put (id_value worker) boot (auth_worker_incarnation a),
       auth_boot_high_water := um_erase (id_value boot) (auth_boot_high_water a)\<rparr>"

definition auth_unregister_worker :: "WorkerBootId \<Rightarrow> AuthorityRegistry \<Rightarrow> AuthorityRegistry" where
  "auth_unregister_worker boot a =
     (case um_find (auth_live_boots a) (id_value boot) of None \<Rightarrow> a
      | Some _ \<Rightarrow> a\<lparr>auth_live_boots := um_erase (id_value boot) (auth_live_boots a)\<rparr>)"

definition is_live :: "AuthorityRegistry \<Rightarrow> WorkerBootId \<Rightarrow> bool" where
  "is_live a boot \<longleftrightarrow> um_find (auth_live_boots a) (id_value boot) \<noteq> None"

definition current_boot_of :: "AuthorityRegistry \<Rightarrow> WorkerId \<Rightarrow> WorkerBootId option" where
  "current_boot_of a worker = um_find (auth_worker_incarnation a) (id_value worker)"

definition set_tombstone_floor :: "StateId \<Rightarrow> StateGeneration \<Rightarrow> AuthorityRegistry \<Rightarrow> AuthorityRegistry" where
  "set_tombstone_floor st floor' a =
     a\<lparr>auth_tombstone_floor := um_put (id_value st) floor' (auth_tombstone_floor a)\<rparr>"

definition tombstone_floor :: "AuthorityRegistry \<Rightarrow> StateId \<Rightarrow> StateGeneration option" where
  "tombstone_floor a st = um_find (auth_tombstone_floor a) (id_value st)"

definition set_current_authority ::
    "StateId \<Rightarrow> StateGeneration \<Rightarrow> WorkerBootId \<Rightarrow> AuthorityRegistry \<Rightarrow> AuthorityRegistry" where
  "set_current_authority st gen boot a =
     a\<lparr>auth_current_authority := um_put (id_value st) (gen, boot) (auth_current_authority a)\<rparr>"

definition clear_current_authority :: "StateId \<Rightarrow> AuthorityRegistry \<Rightarrow> AuthorityRegistry" where
  "clear_current_authority st a =
     a\<lparr>auth_current_authority := um_erase (id_value st) (auth_current_authority a)\<rparr>"

definition current_authority :: "AuthorityRegistry \<Rightarrow> StateId \<Rightarrow> (StateGeneration \<times> WorkerBootId) option" where
  "current_authority a st = um_find (auth_current_authority a) (id_value st)"

definition monotonic :: "LocationGeneration \<Rightarrow> LocationGeneration \<Rightarrow> bool" where
  "monotonic candidate prior \<longleftrightarrow> candidate > prior"

section \<open>Validation of a publication\<close>

definition tombstoned_verdict :: "StateGeneration \<Rightarrow> StateGeneration \<Rightarrow> MutationVerdictDetail" where
  "tombstoned_verdict g f = verdict_detail MutationVerdict_REJECTED_TOMBSTONED
     (''state generation '' @ gen_to_string g @ '' is covered by tombstone floor '' @ gen_to_string f)"

definition validate_state_publication ::
    "AuthorityRegistry \<Rightarrow> StateId \<Rightarrow> MutationEnvelope \<Rightarrow> StateGeneration \<Rightarrow> MutationVerdictDetail" where
  "validate_state_publication a st env g =
    (if env_coordinator_epoch env \<noteq> auth_epoch a then
       verdict_detail MutationVerdict_REJECTED_STALE_EPOCH
         (''coordinator epoch '' @ gen_to_string (env_coordinator_epoch env)
          @ '' is stale; current epoch is '' @ gen_to_string (auth_epoch a))
     else if \<not> is_live a (env_worker_boot env) then
       verdict_detail MutationVerdict_REJECTED_STALE_BOOT
         (''WorkerBootId '' @ id_to_string (env_worker_boot env) @ '' is not a live incarnation'')
     else if \<not> is_set g then
       verdict_detail MutationVerdict_REJECTED_GENERATION_REGRESSION ''state generation is unset (0)''
     else if (case tombstone_floor a st of None \<Rightarrow> False | Some f \<Rightarrow> g \<le> f) then
       tombstoned_verdict g (the (tombstone_floor a st))
     else case current_authority a st of
       Some (cur_gen, cur_boot) \<Rightarrow>
         if env_worker_boot env = cur_boot then
           (if g = cur_gen then
              verdict_detail MutationVerdict_REJECTED_DUPLICATE
                (''duplicate state generation '' @ gen_to_string g @ '' from the current incarnation'')
            else if g < cur_gen then
              verdict_detail MutationVerdict_REJECTED_GENERATION_REGRESSION
                (''state generation '' @ gen_to_string g @ '' regresses current generation ''
                 @ gen_to_string cur_gen)
            else verdict_detail MutationVerdict_ACCEPTED ''monotonic publication within live incarnation'')
         else if is_live a cur_boot then
           (if g = cur_gen then
              verdict_detail MutationVerdict_REJECTED_DUPLICATE
                ''duplicate generation across a competing live incarnation''
            else if g < cur_gen then
              verdict_detail MutationVerdict_REJECTED_GENERATION_REGRESSION
                (''competing generation '' @ gen_to_string g @ '' is below live current generation ''
                 @ gen_to_string cur_gen)
            else verdict_detail MutationVerdict_ACCEPTED ''higher generation wins a live competition'')
         else
           (case tombstone_floor a st of
              Some f \<Rightarrow> if g \<le> f then tombstoned_verdict g f
                else verdict_detail MutationVerdict_ACCEPTED
                  ''fresh incarnation is not fenced by stale incarnation-local generation''
            | None \<Rightarrow> verdict_detail MutationVerdict_ACCEPTED
                ''fresh incarnation is not fenced by stale incarnation-local generation'')
     | None \<Rightarrow>
         (case tombstone_floor a st of
            Some f \<Rightarrow> if g \<le> f then tombstoned_verdict g f
              else verdict_detail MutationVerdict_ACCEPTED ''first authoritative publication''
          | None \<Rightarrow> verdict_detail MutationVerdict_ACCEPTED ''first authoritative publication''))"

text \<open>The specification the branches implement: a publication is current if its epoch and boot
  are, its generation is set and above the tombstone floor, and above the generation of the
  state's current authority whenever that authority's boot is the publisher's own or live.\<close>

definition fenced_by :: "AuthorityRegistry \<Rightarrow> StateId \<Rightarrow> WorkerBootId \<Rightarrow> StateGeneration \<Rightarrow> bool" where
  "fenced_by a st boot g \<longleftrightarrow>
     (\<exists>cg cb. current_authority a st = Some (cg, cb) \<and> (cb = boot \<or> is_live a cb) \<and> g \<le> cg)"

definition below_floor :: "AuthorityRegistry \<Rightarrow> StateId \<Rightarrow> StateGeneration \<Rightarrow> bool" where
  "below_floor a st g \<longleftrightarrow> (\<exists>f. tombstone_floor a st = Some f \<and> g \<le> f)"

lemma accepted_iff:
  "mvd_verdict (validate_state_publication a st env g) = MutationVerdict_ACCEPTED \<longleftrightarrow>
     env_coordinator_epoch env = auth_epoch a \<and> is_live a (env_worker_boot env) \<and> is_set g \<and>
     \<not> below_floor a st g \<and> \<not> fenced_by a st (env_worker_boot env) g"
  by (auto simp: validate_state_publication_def below_floor_def fenced_by_def tombstoned_verdict_def
      split: option.splits prod.splits if_splits)

lemma duplicate_iff:
  "mvd_verdict (validate_state_publication a st env g) = MutationVerdict_REJECTED_DUPLICATE \<longleftrightarrow>
     env_coordinator_epoch env = auth_epoch a \<and> is_live a (env_worker_boot env) \<and> is_set g \<and>
     \<not> below_floor a st g \<and>
     (\<exists>cb. current_authority a st = Some (g, cb) \<and> (cb = env_worker_boot env \<or> is_live a cb))"
  by (auto simp: validate_state_publication_def below_floor_def tombstoned_verdict_def
      split: option.splits prod.splits if_splits)

lemma tombstoned_iff:
  "mvd_verdict (validate_state_publication a st env g) = MutationVerdict_REJECTED_TOMBSTONED \<longleftrightarrow>
     env_coordinator_epoch env = auth_epoch a \<and> is_live a (env_worker_boot env) \<and> is_set g \<and>
     below_floor a st g"
  by (auto simp: validate_state_publication_def below_floor_def tombstoned_verdict_def
      split: option.splits prod.splits if_splits)

section \<open>Liveness of incarnations\<close>

lemma is_live_register [simp]:
  "is_live (auth_register_worker w b a) b' \<longleftrightarrow> b' = b \<or> is_live a b'"
  by (auto simp: is_live_def auth_register_worker_def)

lemma is_live_unregister [simp]:
  "is_live (auth_unregister_worker b a) b' \<longleftrightarrow> b' \<noteq> b \<and> is_live a b'"
  by (auto simp: is_live_def auth_unregister_worker_def split: option.splits)

lemma is_live_clear [simp]: "\<not> is_live (clear_live_workers a) b"
  by (simp add: is_live_def clear_live_workers_def)

lemma registry_frame [simp]:
  "auth_current_authority (auth_register_worker w b a) = auth_current_authority a"
  "auth_tombstone_floor (auth_register_worker w b a) = auth_tombstone_floor a"
  "auth_epoch (auth_register_worker w b a) = auth_epoch a"
  "auth_current_authority (auth_unregister_worker b a) = auth_current_authority a"
  "auth_tombstone_floor (auth_unregister_worker b a) = auth_tombstone_floor a"
  "auth_epoch (auth_unregister_worker b a) = auth_epoch a"
  "auth_current_authority (auth_advance_epoch a) = auth_current_authority a"
  "auth_tombstone_floor (auth_advance_epoch a) = auth_tombstone_floor a"
  "auth_live_boots (auth_advance_epoch a) = auth_live_boots a"
  by (simp_all add: auth_register_worker_def auth_unregister_worker_def auth_advance_epoch_def
      split: option.splits)

lemma current_authority_simps [simp]:
  "current_authority (set_current_authority st g b a) st' =
     (if st' = st then Some (g, b) else current_authority a st')"
  "current_authority (clear_current_authority st a) st' =
     (if st' = st then None else current_authority a st')"
  "current_authority (set_tombstone_floor st f a) st' = current_authority a st'"
  by (auto simp: current_authority_def set_current_authority_def clear_current_authority_def
      set_tombstone_floor_def)

lemma tombstone_floor_simps [simp]:
  "tombstone_floor (set_current_authority st g b a) st' = tombstone_floor a st'"
  "tombstone_floor (clear_current_authority st a) st' = tombstone_floor a st'"
  "tombstone_floor (set_tombstone_floor st f a) st' = (if st' = st then Some f else tombstone_floor a st')"
  by (auto simp: tombstone_floor_def set_current_authority_def clear_current_authority_def
      set_tombstone_floor_def)

end
