(* ===== verification/Msgs.thy ===== *)
theory Msgs
  imports Result Invalidation Authority
begin

text \<open>
  \<^verbatim>\<open>src/msgs.hpp\<close>: the payloads of the messages between workers and the coordinator. A \<^verbatim>\<open>pack_\<close> function
  appends the fields to an empty writer; an \<^verbatim>\<open>unpack_\<close> function reads them off the front of the payload
  and ignores what follows, as the code does.
\<close>

definition unpack :: "'a parser \<Rightarrow> bytes \<Rightarrow> exn + 'a" where
  "unpack p bs = (case p (reader bs) of Inl x \<Rightarrow> Inl x | Inr (v, _) \<Rightarrow> Inr v)"

definition read_pair :: "'a parser \<Rightarrow> 'b parser \<Rightarrow> ('a \<times> 'b) parser" where
  "read_pair p q = bindr p (\<lambda>a. bindr q (\<lambda>b. ret (a, b)))"

definition pack_hello :: "WorkerId \<Rightarrow> WorkerBootId \<Rightarrow> bytes" where
  "pack_hello w b = id_serialize w @ id_serialize b"

definition unpack_hello :: "bytes \<Rightarrow> exn + WorkerId \<times> WorkerBootId" where
  "unpack_hello = unpack (read_pair id_deserialize id_deserialize)"

definition pack_epoch :: "CoordinatorEpoch \<Rightarrow> bytes" where
  "pack_epoch e = gen_serialize e"

definition unpack_epoch :: "bytes \<Rightarrow> exn + CoordinatorEpoch" where
  "unpack_epoch = unpack gen_deserialize"

definition pack_mutation_result :: "MutationVerdict \<Rightarrow> string \<Rightarrow> bytes" where
  "pack_mutation_result v reason = push_byte (MutationVerdict_code v) @ push_string reason"

definition unpack_mutation_result :: "bytes \<Rightarrow> exn + MutationVerdict \<times> string" where
  "unpack_mutation_result = unpack (read_pair (bindr read_u8 (\<lambda>b. ret (MutationVerdict_of b))) read_string)"

definition pack_register :: "MutationEnvelope \<Rightarrow> StateRecord \<Rightarrow> bytes" where
  "pack_register e rec = MutationEnvelope_serialize e @ StateRecord_serialize rec"

definition unpack_register :: "bytes \<Rightarrow> exn + MutationEnvelope \<times> StateRecord" where
  "unpack_register = unpack (read_pair MutationEnvelope_deserialize StateRecord_deserialize)"

definition pack_addloc :: "MutationEnvelope \<Rightarrow> StateId \<Rightarrow> StateLocation \<Rightarrow> bytes" where
  "pack_addloc e st loc = MutationEnvelope_serialize e @ id_serialize st @ StateLocation_serialize loc"

definition unpack_addloc :: "bytes \<Rightarrow> exn + MutationEnvelope \<times> StateId \<times> StateLocation" where
  "unpack_addloc = unpack (read_pair MutationEnvelope_deserialize (read_pair id_deserialize StateLocation_deserialize))"

definition pack_rmloc :: "MutationEnvelope \<Rightarrow> StateId \<Rightarrow> PlacementId \<Rightarrow> bytes" where
  "pack_rmloc e st p = MutationEnvelope_serialize e @ id_serialize st @ id_serialize p"

definition unpack_rmloc :: "bytes \<Rightarrow> exn + MutationEnvelope \<times> StateId \<times> PlacementId" where
  "unpack_rmloc = unpack (read_pair MutationEnvelope_deserialize (read_pair id_deserialize id_deserialize))"

definition pack_invalidate :: "MutationEnvelope \<Rightarrow> InvalidationRecord \<Rightarrow> bytes" where
  "pack_invalidate e i = MutationEnvelope_serialize e @ InvalidationRecord_serialize i"

definition unpack_invalidate :: "bytes \<Rightarrow> exn + MutationEnvelope \<times> InvalidationRecord" where
  "unpack_invalidate = unpack (read_pair MutationEnvelope_deserialize InvalidationRecord_deserialize)"

definition pack_tombstone :: "MutationEnvelope \<Rightarrow> TombstoneRecord \<Rightarrow> bytes" where
  "pack_tombstone e t = MutationEnvelope_serialize e @ TombstoneRecord_serialize t"

definition unpack_tombstone :: "bytes \<Rightarrow> exn + MutationEnvelope \<times> TombstoneRecord" where
  "unpack_tombstone = unpack (read_pair MutationEnvelope_deserialize TombstoneRecord_deserialize)"

text \<open>\<open>None\<close> where serializing the cost limit is undefined.\<close>

definition pack_query :: "QueryDescriptor \<Rightarrow> bytes option" where
  "pack_query q = QueryDescriptor_serialize q"

definition unpack_query :: "bytes \<Rightarrow> exn + QueryDescriptor" where
  "unpack_query = unpack QueryDescriptor_deserialize"

definition pack_query_result :: "QueryResult \<Rightarrow> bytes" where
  "pack_query_result r = QueryResult_serialize r"

definition unpack_query_result :: "bytes \<Rightarrow> exn + QueryResult" where
  "unpack_query_result = unpack QueryResult_deserialize"

definition pack_path :: "string \<Rightarrow> bytes" where
  "pack_path path = push_string path"

definition unpack_path :: "bytes \<Rightarrow> exn + string" where
  "unpack_path = unpack read_string"

section \<open>Payloads round-trip\<close>

lemma unpack_decodes: "decodes p bs x \<Longrightarrow> unpack p (bs @ rest) = Inr x"
  by (simp add: unpack_def decodes_prefix)

lemma decodes_pair [codec_intro]: "decodes p as a \<Longrightarrow> decodes q bs b \<Longrightarrow> decodes (read_pair p q) (as @ bs) (a, b)"
  unfolding read_pair_def by (intro decodes_bind decodes_bind_last decodes_ret) simp_all

lemma decodes_verdict [codec_intro]:
  "MutationVerdict_ok v \<Longrightarrow> decodes (bindr read_u8 (\<lambda>b. ret (MutationVerdict_of b))) (push_byte (MutationVerdict_code v)) v"
  by (rule decodes_bind_last [OF decodes_u8], rule decodes_ret) (simp add: MutationVerdict.cast_code)

lemma unpack_hello_pack: "unpack_hello (pack_hello w b @ rest) = Inr (w, b)"
  unfolding unpack_hello_def pack_hello_def by (rule unpack_decodes) (intro codec_intro)

lemma unpack_epoch_pack: "unpack_epoch (pack_epoch ep @ rest) = Inr ep"
  unfolding unpack_epoch_def pack_epoch_def by (rule unpack_decodes) (intro codec_intro)

lemma unpack_mutation_result_pack:
  "MutationVerdict_ok v \<Longrightarrow> length reason < 2 ^ 64 \<Longrightarrow>
     unpack_mutation_result (pack_mutation_result v reason @ rest) = Inr (v, reason)"
  unfolding unpack_mutation_result_def pack_mutation_result_def
  by (rule unpack_decodes, rule decodes_pair) (rule codec_intro | assumption)+

lemma unpack_register_pack:
  "MutationEnvelope_valid e \<Longrightarrow> StateRecord_valid rec \<Longrightarrow> unpack_register (pack_register e rec @ rest) = Inr (e, rec)"
  unfolding unpack_register_def pack_register_def
  by (rule unpack_decodes, rule decodes_pair) (rule codec_intro | assumption)+

lemma unpack_addloc_pack:
  "MutationEnvelope_valid e \<Longrightarrow> StateLocation_valid loc \<Longrightarrow> unpack_addloc (pack_addloc e st loc @ rest) = Inr (e, st, loc)"
  unfolding unpack_addloc_def pack_addloc_def
  by (rule unpack_decodes, intro decodes_pair) (rule codec_intro | assumption)+

lemma unpack_rmloc_pack: "MutationEnvelope_valid e \<Longrightarrow> unpack_rmloc (pack_rmloc e st p @ rest) = Inr (e, st, p)"
  unfolding unpack_rmloc_def pack_rmloc_def
  by (rule unpack_decodes, intro decodes_pair) (rule codec_intro | assumption)+

lemma unpack_invalidate_pack:
  "MutationEnvelope_valid e \<Longrightarrow> InvalidationRecord_valid i \<Longrightarrow> unpack_invalidate (pack_invalidate e i @ rest) = Inr (e, i)"
  unfolding unpack_invalidate_def pack_invalidate_def
  by (rule unpack_decodes, rule decodes_pair) (rule codec_intro | assumption)+

lemma unpack_tombstone_pack:
  "MutationEnvelope_valid e \<Longrightarrow> TombstoneRecord_valid t \<Longrightarrow> unpack_tombstone (pack_tombstone e t @ rest) = Inr (e, t)"
  unfolding unpack_tombstone_def pack_tombstone_def
  by (rule unpack_decodes, rule decodes_pair) (rule codec_intro | assumption)+

lemma unpack_query_pack:
  "QueryDescriptor_valid q \<Longrightarrow> pack_query q = Some bs \<Longrightarrow>
     \<exists>milli. cost_milli (qd_max_retrieval_cost q) = Some milli \<and>
       unpack_query (bs @ rest) = Inr (q\<lparr>qd_max_retrieval_cost := cost_of_milli milli\<rparr>)"
  by (auto simp: pack_query_def unpack_query_def QueryDescriptor_serialize_def
      intro!: unpack_decodes decodes_QueryDescriptor)

lemma unpack_query_result_pack: "QueryResult_valid r \<Longrightarrow> unpack_query_result (pack_query_result r @ rest) = Inr r"
  unfolding unpack_query_result_def pack_query_result_def by (rule unpack_decodes) (rule decodes_QueryResult)

lemma unpack_path_pack: "length path < 2 ^ 64 \<Longrightarrow> unpack_path (pack_path path @ rest) = Inr path"
  unfolding unpack_path_def pack_path_def by (rule unpack_decodes) (rule decodes_string)

end
