(* ===== verification/Protocol.thy ===== *)
theory Protocol
  imports Digest
begin

text \<open>
  \<^verbatim>\<open>include/stateindex/protocol.hpp\<close>: message kinds and the framing of a payload,
  a 16-byte header, the CRC-32 of header and payload, four reserved bytes and the payload.
  The decoder inverts the encoder; what it accepts is a frame of the encoder up to the reserved
  field; and a frame damaged in one byte outside that field is never accepted.
\<close>

section \<open>Constants and message kinds\<close>

definition kProtocolMagic :: u32 where
  "kProtocolMagic = 0x53584944"

definition kProtocolVersion :: u16 where
  "kProtocolVersion = 1"

definition kProtocolHeaderSize :: nat where
  "kProtocolHeaderSize = 24"

definition kMaxFrameBytes :: u64 where
  "kMaxFrameBytes = 0x4000000"

datatype MsgKind =
    MsgKind_HELLO
  | MsgKind_HELLO_ACK
  | MsgKind_REGISTER_STATE
  | MsgKind_ADD_LOCATION
  | MsgKind_REMOVE_LOCATION
  | MsgKind_INVALIDATE
  | MsgKind_TOMBSTONE
  | MsgKind_QUERY
  | MsgKind_QUERY_RESULT
  | MsgKind_MUTATION_RESULT
  | MsgKind_SAVE
  | MsgKind_LOAD
  | MsgKind_PING
  | MsgKind_PONG
  | MsgKind_TERMINATE
  | MsgKind_ACK
  | MsgKind_unnamed u16

primrec MsgKind_code :: "MsgKind \<Rightarrow> u16" where
  "MsgKind_code MsgKind_HELLO = 1"
| "MsgKind_code MsgKind_HELLO_ACK = 2"
| "MsgKind_code MsgKind_REGISTER_STATE = 3"
| "MsgKind_code MsgKind_ADD_LOCATION = 4"
| "MsgKind_code MsgKind_REMOVE_LOCATION = 5"
| "MsgKind_code MsgKind_INVALIDATE = 6"
| "MsgKind_code MsgKind_TOMBSTONE = 7"
| "MsgKind_code MsgKind_QUERY = 8"
| "MsgKind_code MsgKind_QUERY_RESULT = 9"
| "MsgKind_code MsgKind_MUTATION_RESULT = 10"
| "MsgKind_code MsgKind_SAVE = 11"
| "MsgKind_code MsgKind_LOAD = 12"
| "MsgKind_code MsgKind_PING = 13"
| "MsgKind_code MsgKind_PONG = 14"
| "MsgKind_code MsgKind_TERMINATE = 15"
| "MsgKind_code MsgKind_ACK = 16"
| "MsgKind_code (MsgKind_unnamed b) = b"

definition MsgKind_of :: "u16 \<Rightarrow> MsgKind" where
  "MsgKind_of b =
    (if b = 1 then MsgKind_HELLO
     else if b = 2 then MsgKind_HELLO_ACK
     else if b = 3 then MsgKind_REGISTER_STATE
     else if b = 4 then MsgKind_ADD_LOCATION
     else if b = 5 then MsgKind_REMOVE_LOCATION
     else if b = 6 then MsgKind_INVALIDATE
     else if b = 7 then MsgKind_TOMBSTONE
     else if b = 8 then MsgKind_QUERY
     else if b = 9 then MsgKind_QUERY_RESULT
     else if b = 10 then MsgKind_MUTATION_RESULT
     else if b = 11 then MsgKind_SAVE
     else if b = 12 then MsgKind_LOAD
     else if b = 13 then MsgKind_PING
     else if b = 14 then MsgKind_PONG
     else if b = 15 then MsgKind_TERMINATE
     else if b = 16 then MsgKind_ACK
     else MsgKind_unnamed b)"

definition MsgKind_ok :: "MsgKind \<Rightarrow> bool" where
  "MsgKind_ok x \<longleftrightarrow> MsgKind_of (MsgKind_code x) = x"

primrec MsgKind_to_string :: "MsgKind \<Rightarrow> string" where
  "MsgKind_to_string MsgKind_HELLO = ''HELLO''"
| "MsgKind_to_string MsgKind_HELLO_ACK = ''HELLO_ACK''"
| "MsgKind_to_string MsgKind_REGISTER_STATE = ''REGISTER_STATE''"
| "MsgKind_to_string MsgKind_ADD_LOCATION = ''ADD_LOCATION''"
| "MsgKind_to_string MsgKind_REMOVE_LOCATION = ''REMOVE_LOCATION''"
| "MsgKind_to_string MsgKind_INVALIDATE = ''INVALIDATE''"
| "MsgKind_to_string MsgKind_TOMBSTONE = ''TOMBSTONE''"
| "MsgKind_to_string MsgKind_QUERY = ''QUERY''"
| "MsgKind_to_string MsgKind_QUERY_RESULT = ''QUERY_RESULT''"
| "MsgKind_to_string MsgKind_MUTATION_RESULT = ''MUTATION_RESULT''"
| "MsgKind_to_string MsgKind_SAVE = ''SAVE''"
| "MsgKind_to_string MsgKind_LOAD = ''LOAD''"
| "MsgKind_to_string MsgKind_PING = ''PING''"
| "MsgKind_to_string MsgKind_PONG = ''PONG''"
| "MsgKind_to_string MsgKind_TERMINATE = ''TERMINATE''"
| "MsgKind_to_string MsgKind_ACK = ''ACK''"
| "MsgKind_to_string (MsgKind_unnamed b) = ''UNKNOWN''"

interpretation MsgKind: enum_cast MsgKind_code MsgKind_of MsgKind_ok
  by unfold_locales (auto simp: MsgKind_of_def MsgKind_ok_def)

lemma MsgKind_ok_named [simp]:
  "MsgKind_ok MsgKind_HELLO"
  "MsgKind_ok MsgKind_HELLO_ACK"
  "MsgKind_ok MsgKind_REGISTER_STATE"
  "MsgKind_ok MsgKind_ADD_LOCATION"
  "MsgKind_ok MsgKind_REMOVE_LOCATION"
  "MsgKind_ok MsgKind_INVALIDATE"
  "MsgKind_ok MsgKind_TOMBSTONE"
  "MsgKind_ok MsgKind_QUERY"
  "MsgKind_ok MsgKind_QUERY_RESULT"
  "MsgKind_ok MsgKind_MUTATION_RESULT"
  "MsgKind_ok MsgKind_SAVE"
  "MsgKind_ok MsgKind_LOAD"
  "MsgKind_ok MsgKind_PING"
  "MsgKind_ok MsgKind_PONG"
  "MsgKind_ok MsgKind_TERMINATE"
  "MsgKind_ok MsgKind_ACK"
  by (simp_all add: MsgKind_ok_def MsgKind_of_def)

datatype FrameError =
    FrameError_NONE
  | FrameError_BAD_MAGIC
  | FrameError_BAD_VERSION
  | FrameError_OVERSIZED
  | FrameError_TRUNCATED
  | FrameError_BAD_CRC
  | FrameError_INVALID_KIND
  | FrameError_TRAILING_GARBAGE

primrec FrameError_to_string :: "FrameError \<Rightarrow> string" where
  "FrameError_to_string FrameError_NONE = ''NONE''"
| "FrameError_to_string FrameError_BAD_MAGIC = ''BAD_MAGIC''"
| "FrameError_to_string FrameError_BAD_VERSION = ''BAD_VERSION''"
| "FrameError_to_string FrameError_OVERSIZED = ''OVERSIZED''"
| "FrameError_to_string FrameError_TRUNCATED = ''TRUNCATED''"
| "FrameError_to_string FrameError_BAD_CRC = ''BAD_CRC''"
| "FrameError_to_string FrameError_INVALID_KIND = ''INVALID_KIND''"
| "FrameError_to_string FrameError_TRAILING_GARBAGE = ''TRAILING_GARBAGE''"

record Frame =
  frame_kind :: MsgKind
  frame_payload :: bytes

definition empty_frame :: Frame where
  "empty_frame = \<lparr>frame_kind = MsgKind_PING, frame_payload = []\<rparr>"

section \<open>Encoding and decoding\<close>

definition frame_header :: "u16 \<Rightarrow> u64 \<Rightarrow> bytes" where
  "frame_header kind len =
     push_u32 kProtocolMagic @ push_u16 kProtocolVersion @ push_u16 kind @ push_u64 len"

definition encode_frame :: "MsgKind \<Rightarrow> bytes \<Rightarrow> bytes" where
  "encode_frame kind payload =
     (let hdr = frame_header (MsgKind_code kind) (of_nat (length payload));
          crc = crc32_over_two hdr payload
      in push_bytes hdr @ push_u32 crc @ push_u32 0 @ (if length payload > 0 then push_bytes payload else []))"

text \<open>The checks of \<^verbatim>\<open>decode_frame\<close> after the header is read, in the order of the source.\<close>

definition decode_body :: "bytes \<Rightarrow> u16 \<Rightarrow> u64 \<Rightarrow> u32 \<Rightarrow> Frame \<times> FrameError" where
  "decode_body bs kind_raw len stored_crc =
     (if len > kMaxFrameBytes then (empty_frame, FrameError_OVERSIZED)
      else if length bs - kProtocolHeaderSize < unat len then (empty_frame, FrameError_TRUNCATED)
      else if length bs - kProtocolHeaderSize > unat len then (empty_frame, FrameError_TRAILING_GARBAGE)
      else if crc32_over_two (take 16 bs) (take (unat len) (drop (16 + 8) bs)) \<noteq> stored_crc
        then (empty_frame, FrameError_BAD_CRC)
      else if sint (ucast kind_raw :: 32 word) < 1 \<or> sint (ucast kind_raw :: 32 word) > 16
        then (empty_frame, FrameError_INVALID_KIND)
      else (\<lparr>frame_kind = MsgKind_of kind_raw, frame_payload = take (unat len) (drop (16 + 8) bs)\<rparr>,
            FrameError_NONE))"

definition decode_parser :: "bytes \<Rightarrow> (Frame \<times> FrameError) parser" where
  "decode_parser bs =
     bindr read_u32 (\<lambda>magic.
     if magic \<noteq> kProtocolMagic then ret (empty_frame, FrameError_BAD_MAGIC)
     else bindr read_u16 (\<lambda>version.
     if version \<noteq> kProtocolVersion then ret (empty_frame, FrameError_BAD_VERSION)
     else bindr read_u16 (\<lambda>kind_raw.
     bindr read_u64 (\<lambda>len.
     bindr read_u32 (\<lambda>stored_crc.
     bindr read_u32 (\<lambda>reserved.
     ret (decode_body bs kind_raw len stored_crc)))))))"

definition decode_frame :: "bytes \<Rightarrow> exn + Frame \<times> FrameError" where
  "decode_frame bs =
     (if length bs < kProtocolHeaderSize then Inr (empty_frame, FrameError_TRUNCATED)
      else case decode_parser bs (reader bs) of Inl x \<Rightarrow> Inl x | Inr (fe, _) \<Rightarrow> Inr fe)"

section \<open>The decoder on a frame layout\<close>

definition frame_layout :: "u32 \<Rightarrow> u16 \<Rightarrow> u16 \<Rightarrow> u64 \<Rightarrow> u32 \<Rightarrow> u32 \<Rightarrow> bytes \<Rightarrow> bytes" where
  "frame_layout magic version kind len crc reserved payload =
     push_u32 magic @ push_u16 version @ push_u16 kind @ push_u64 len @ push_u32 crc @ push_u32 reserved @ payload"

lemma length_frame_layout [simp]: "length (frame_layout m v k l c z p) = 24 + length p"
  by (simp add: frame_layout_def)

lemma frame_layout_parts:
  "take 16 (frame_layout m v k l c z p) = push_u32 m @ push_u16 v @ push_u16 k @ push_u64 l"
  "drop 24 (frame_layout m v k l c z p) = p"
  by (simp_all add: frame_layout_def)

text \<open>Reading the fields in turn, each at its place in the span.\<close>

lemma layout_reads:
  fixes f :: "u32 \<Rightarrow> 'a parser" and g :: "u16 \<Rightarrow> 'a parser" and h :: "u64 \<Rightarrow> 'a parser"
  shows "bindr read_u32 f (reader (frame_layout m v k l c z p)) = f m \<lparr>rd_span = frame_layout m v k l c z p, rd_pos = 4\<rparr>"
    and "bindr read_u16 g \<lparr>rd_span = frame_layout m v k l c z p, rd_pos = 4\<rparr>
      = g v \<lparr>rd_span = frame_layout m v k l c z p, rd_pos = 6\<rparr>"
    and "bindr read_u16 g \<lparr>rd_span = frame_layout m v k l c z p, rd_pos = 6\<rparr>
      = g k \<lparr>rd_span = frame_layout m v k l c z p, rd_pos = 8\<rparr>"
    and "bindr read_u64 h \<lparr>rd_span = frame_layout m v k l c z p, rd_pos = 8\<rparr>
      = h l \<lparr>rd_span = frame_layout m v k l c z p, rd_pos = 16\<rparr>"
    and "bindr read_u32 f \<lparr>rd_span = frame_layout m v k l c z p, rd_pos = 16\<rparr>
      = f c \<lparr>rd_span = frame_layout m v k l c z p, rd_pos = 20\<rparr>"
    and "bindr read_u32 f \<lparr>rd_span = frame_layout m v k l c z p, rd_pos = 20\<rparr>
      = f z \<lparr>rd_span = frame_layout m v k l c z p, rd_pos = 24\<rparr>"
  subgoal by (subst bindr_decodes [OF decodes_u32 [of m], where pre = "[]"]) (simp_all add: reader_def frame_layout_def)
  subgoal by (subst bindr_decodes [OF decodes_u16 [of v], where pre = "push_u32 m"]) (simp_all add: frame_layout_def)
  subgoal by (subst bindr_decodes [OF decodes_u16 [of k], where pre = "push_u32 m @ push_u16 v"])
    (simp_all add: frame_layout_def)
  subgoal by (subst bindr_decodes [OF decodes_u64 [of l], where pre = "push_u32 m @ push_u16 v @ push_u16 k"])
    (simp_all add: frame_layout_def)
  subgoal by (subst bindr_decodes [OF decodes_u32 [of c], where pre = "push_u32 m @ push_u16 v @ push_u16 k @ push_u64 l"])
    (simp_all add: frame_layout_def)
  subgoal by (subst bindr_decodes [OF decodes_u32 [of z],
        where pre = "push_u32 m @ push_u16 v @ push_u16 k @ push_u64 l @ push_u32 c"])
    (simp_all add: frame_layout_def)
  done

lemma decode_frame_layout:
  "decode_frame (frame_layout m v k l c z p) = Inr
     (if m \<noteq> kProtocolMagic then (empty_frame, FrameError_BAD_MAGIC)
      else if v \<noteq> kProtocolVersion then (empty_frame, FrameError_BAD_VERSION)
      else decode_body (frame_layout m v k l c z p) k l c)"
  by (cases "m = kProtocolMagic"; cases "v = kProtocolVersion")
    (simp_all add: decode_frame_def kProtocolHeaderSize_def decode_parser_def layout_reads ret_def)

section \<open>Every buffer of header size is a layout\<close>

lemma frame_layout_exists:
  assumes "24 \<le> length bs"
  shows "\<exists>m v k l c z p. bs = frame_layout m v k l c z p"
proof -
  have part: "drop n bs = take j (drop n bs) @ drop (n + j) bs" for n j
    by (metis add.commute append_take_drop_id drop_drop)
  have "bs = take 4 bs @ drop 4 bs" by simp
  also have "drop 4 bs = take 2 (drop 4 bs) @ drop 6 bs" using part [of 4 2] by simp
  also have "drop 6 bs = take 2 (drop 6 bs) @ drop 8 bs" using part [of 6 2] by simp
  also have "drop 8 bs = take 8 (drop 8 bs) @ drop 16 bs" using part [of 8 8] by simp
  also have "drop 16 bs = take 4 (drop 16 bs) @ drop 20 bs" using part [of 16 4] by simp
  also have "drop 20 bs = take 4 (drop 20 bs) @ drop 24 bs" using part [of 20 4] by simp
  finally have split: "bs = take 4 bs @ take 2 (drop 4 bs) @ take 2 (drop 6 bs) @ take 8 (drop 8 bs) @
      take 4 (drop 16 bs) @ take 4 (drop 20 bs) @ drop 24 bs" .
  obtain m v k l c z where "take 4 bs = push_u32 m" "take 2 (drop 4 bs) = push_u16 v"
    "take 2 (drop 6 bs) = push_u16 k" "take 8 (drop 8 bs) = push_u64 l"
    "take 4 (drop 16 bs) = push_u32 c" "take 4 (drop 20 bs) = push_u32 z"
    using u32_bytes [of "take 4 bs"] u16_bytes [of "take 2 (drop 4 bs)"] u16_bytes [of "take 2 (drop 6 bs)"]
      u64_bytes [of "take 8 (drop 8 bs)"] u32_bytes [of "take 4 (drop 16 bs)"] u32_bytes [of "take 4 (drop 20 bs)"]
      assms by auto
  with split show ?thesis unfolding frame_layout_def by metis
qed

section \<open>Acceptance\<close>

lemma sint_kind: "sint (ucast (w :: u16) :: 32 word) = uint w"
proof -
  have "uint w < 2 ^ 16" using uint_lt2p [of w] by simp
  then have "uint (ucast w :: 32 word) = uint w" by (simp add: unsigned_ucast_eq take_bit_int_eq_self)
  moreover have "uint (ucast w :: 32 word) < 2 ^ 31" using calculation \<open>uint w < 2 ^ 16\<close> by simp
  moreover have "- (2 ^ 31) \<le> uint w" by (rule order_trans [OF _ uint_ge_0]) simp
  ultimately show ?thesis by (simp add: sint_uint signed_take_bit_int_eq_self)
qed

definition known_kind :: "u16 \<Rightarrow> bool" where
  "known_kind w \<longleftrightarrow> 1 \<le> uint w \<and> uint w \<le> 16"

definition frame_crc :: "u16 \<Rightarrow> bytes \<Rightarrow> u32" where
  "frame_crc kind payload = crc32 (frame_header kind (of_nat (length payload)) @ payload)"

lemma frame_length_iff:
  "l \<le> kMaxFrameBytes \<and> unat l = length p \<longleftrightarrow> length p \<le> unat kMaxFrameBytes \<and> l = of_nat (length p)"
proof
  assume "l \<le> kMaxFrameBytes \<and> unat l = length p"
  then show "length p \<le> unat kMaxFrameBytes \<and> l = of_nat (length p)"
    by (metis of_nat_unat ucast_id word_le_nat_alt)
next
  assume *: "length p \<le> unat kMaxFrameBytes \<and> l = of_nat (length p)"
  then have "unat l = length p"
    using unsigned_less [of kMaxFrameBytes, where ?'a = nat] by (simp add: unat_of_nat)
  with * show "l \<le> kMaxFrameBytes \<and> unat l = length p" by (simp add: word_le_nat_alt)
qed

lemma decode_body_layout:
  "snd (decode_body (frame_layout kProtocolMagic kProtocolVersion k l c z p) k l c) = FrameError_NONE \<longleftrightarrow>
     length p \<le> unat kMaxFrameBytes \<and> l = of_nat (length p) \<and> c = frame_crc k p \<and> known_kind k"
  "snd (decode_body (frame_layout kProtocolMagic kProtocolVersion k l c z p) k l c) = FrameError_NONE \<Longrightarrow>
     fst (decode_body (frame_layout kProtocolMagic kProtocolVersion k l c z p) k l c)
       = \<lparr>frame_kind = MsgKind_of k, frame_payload = p\<rparr>"
proof -
  let ?bs = "frame_layout kProtocolMagic kProtocolVersion k l c z p"
  have b: "decode_body ?bs k l c =
     (if l > kMaxFrameBytes then (empty_frame, FrameError_OVERSIZED)
      else if length p < unat l then (empty_frame, FrameError_TRUNCATED)
      else if length p > unat l then (empty_frame, FrameError_TRAILING_GARBAGE)
      else if crc32 (frame_header k l @ p) \<noteq> c then (empty_frame, FrameError_BAD_CRC)
      else if \<not> known_kind k then (empty_frame, FrameError_INVALID_KIND)
      else (\<lparr>frame_kind = MsgKind_of k, frame_payload = p\<rparr>, FrameError_NONE))"
    by (auto simp: decode_body_def kProtocolHeaderSize_def frame_layout_parts crc32_over_two_append
        frame_header_def sint_kind known_kind_def)
  show "snd (decode_body ?bs k l c) = FrameError_NONE \<longleftrightarrow>
     length p \<le> unat kMaxFrameBytes \<and> l = of_nat (length p) \<and> c = frame_crc k p \<and> known_kind k"
    unfolding b using frame_length_iff [of l p] by (auto simp: frame_crc_def not_less not_le)
  show "snd (decode_body ?bs k l c) = FrameError_NONE \<Longrightarrow>
     fst (decode_body ?bs k l c) = \<lparr>frame_kind = MsgKind_of k, frame_payload = p\<rparr>"
    unfolding b by (auto split: if_splits)
qed

text \<open>Acceptance, in both directions.\<close>

lemma decode_frame_accept_iff:
  "decode_frame bs = Inr (f, FrameError_NONE) \<longleftrightarrow>
     (\<exists>k z p. bs = frame_layout kProtocolMagic kProtocolVersion k (of_nat (length p)) (frame_crc k p) z p \<and>
        known_kind k \<and> length p \<le> unat kMaxFrameBytes \<and> f = \<lparr>frame_kind = MsgKind_of k, frame_payload = p\<rparr>)"
proof
  assume dec: "decode_frame bs = Inr (f, FrameError_NONE)"
  have "\<not> length bs < 24" using dec by (auto simp: decode_frame_def kProtocolHeaderSize_def)
  then obtain m v k l c z p where bs: "bs = frame_layout m v k l c z p" using frame_layout_exists by (meson not_less)
  from dec have mv: "m = kProtocolMagic" "v = kProtocolVersion"
    and body: "decode_body (frame_layout kProtocolMagic kProtocolVersion k l c z p) k l c = (f, FrameError_NONE)"
    unfolding bs decode_frame_layout by (auto split: if_splits)
  from body decode_body_layout [of k l c z p] have "length p \<le> unat kMaxFrameBytes" "l = of_nat (length p)"
    "c = frame_crc k p" "known_kind k" "f = \<lparr>frame_kind = MsgKind_of k, frame_payload = p\<rparr>" by auto
  with bs mv show "\<exists>k z p. bs = frame_layout kProtocolMagic kProtocolVersion k (of_nat (length p)) (frame_crc k p) z p \<and>
        known_kind k \<and> length p \<le> unat kMaxFrameBytes \<and> f = \<lparr>frame_kind = MsgKind_of k, frame_payload = p\<rparr>"
    by blast
next
  assume "\<exists>k z p. bs = frame_layout kProtocolMagic kProtocolVersion k (of_nat (length p)) (frame_crc k p) z p \<and>
        known_kind k \<and> length p \<le> unat kMaxFrameBytes \<and> f = \<lparr>frame_kind = MsgKind_of k, frame_payload = p\<rparr>"
  then obtain k z p where bs: "bs = frame_layout kProtocolMagic kProtocolVersion k (of_nat (length p)) (frame_crc k p) z p"
    and ok: "known_kind k" "length p \<le> unat kMaxFrameBytes" "f = \<lparr>frame_kind = MsgKind_of k, frame_payload = p\<rparr>"
    by blast
  from ok decode_body_layout [of k "of_nat (length p)" "frame_crc k p" z p]
  have "decode_body bs k (of_nat (length p)) (frame_crc k p) = (f, FrameError_NONE)"
    unfolding bs by (simp add: prod_eq_iff)
  then show "decode_frame bs = Inr (f, FrameError_NONE)"
    unfolding bs decode_frame_layout by simp
qed

lemma decode_frame_total: "\<exists>fe. decode_frame bs = Inr fe"
proof (cases "length bs < 24")
  case True
  then show ?thesis by (simp add: decode_frame_def kProtocolHeaderSize_def)
next
  case False
  then obtain m v k l c z p where "bs = frame_layout m v k l c z p" using frame_layout_exists by (meson not_less)
  then show ?thesis by (simp add: decode_frame_layout)
qed

lemma encode_frame_layout:
  "encode_frame k p = frame_layout kProtocolMagic kProtocolVersion (MsgKind_code k) (of_nat (length p))
     (frame_crc (MsgKind_code k) p) 0 p"
  by (simp add: encode_frame_def frame_layout_def frame_header_def Let_def push_bytes_def crc32_over_two_append
      frame_crc_def)

lemma decode_encode:
  assumes "MsgKind_ok k" and "known_kind (MsgKind_code k)" and "length p \<le> unat kMaxFrameBytes"
  shows "decode_frame (encode_frame k p) = Inr (\<lparr>frame_kind = k, frame_payload = p\<rparr>, FrameError_NONE)"
  unfolding decode_frame_accept_iff encode_frame_layout using assms MsgKind.cast_code by metis

section \<open>Damage\<close>

text \<open>Any one byte of an accepted frame other than the four reserved ones.\<close>

lemma damaged_frame:
  assumes dec: "decode_frame bs = Inr (f, FrameError_NONE)"
    and i: "i < length bs" "i < 20 \<or> 24 \<le> i" and b: "b \<noteq> bs ! i"
  shows "decode_frame (bs[i := b]) \<noteq> Inr (f', FrameError_NONE)"
proof
  assume dec': "decode_frame (bs[i := b]) = Inr (f', FrameError_NONE)"
  let ?covered = "\<lambda>xs. take 16 xs @ drop 24 xs"
  have crc: "take 4 (drop 16 xs) = push_u32 (crc32 (?covered xs))"
    if "decode_frame xs = Inr (g, FrameError_NONE)" for xs g
    using that by (auto simp: decode_frame_accept_iff frame_crc_def frame_header_def frame_layout_parts)
      (simp add: frame_layout_def)
  have eq: "take 4 (drop 16 bs) = push_u32 (crc32 (?covered bs))"
    "take 4 (drop 16 (bs[i := b])) = push_u32 (crc32 (?covered (bs[i := b])))"
    using crc dec dec' by blast+
  have len: "24 \<le> length bs" using dec by (auto simp: decode_frame_accept_iff)
  consider "i < 16" | "16 \<le> i" "i < 20" | "24 \<le> i" using i(2) by linarith
  then show False
  proof cases
    case 1
    then have "?covered (bs[i := b]) = (?covered bs)[i := b]" "take 4 (drop 16 (bs[i := b])) = take 4 (drop 16 bs)"
      using len by (simp_all add: take_update_swap drop_update_cancel list_update_append)
    moreover have "i < length (?covered bs)" using 1 len by simp
    ultimately show False using eq crc32_update [of i "?covered bs" b] 1 len b by (simp add: nth_append)
  next
    case 2
    then have "?covered (bs[i := b]) = ?covered bs" using len by (simp add: take_update_cancel drop_update_cancel)
    with eq have "take 4 (drop 16 (bs[i := b])) = take 4 (drop 16 bs)" by simp
    then have "take 4 (drop 16 (bs[i := b])) ! (i - 16) = take 4 (drop 16 bs) ! (i - 16)" by simp
    with 2 len b show False by simp
  next
    case 3
    then have far: "16 \<le> i" "16 \<le> i - 8" "4 \<le> i - 16" "i - 8 - 16 = i - 24" "\<not> i - 8 < 16" by simp_all
    have "take 16 (bs[i := b]) = take 16 bs" using far(1) by (rule take_update_cancel)
    moreover have "drop 24 (bs[i := b]) = (drop 24 bs)[i - 24 := b]" using 3 by (rule drop_update_swap)
    ultimately have "?covered (bs[i := b]) = (?covered bs)[i - 8 := b]"
      using len far by (simp add: list_update_append)
    moreover have "take 4 (drop 16 (bs[i := b])) = take 4 (drop 16 bs)"
      using far by (simp add: drop_update_swap take_update_cancel)
    moreover have "i - 8 < length (?covered bs)" using 3 i(1) len by simp
    moreover have "?covered bs ! (i - 8) = bs ! i" using far 3 i(1) len by (simp add: nth_append)
    ultimately show False using eq crc32_update [of "i - 8" "?covered bs" b] b by simp
  qed
qed

end
