(* ===== verification/Transport.thy ===== *)
theory Transport
  imports Protocol
begin

text \<open>
  The framing half of \<^verbatim>\<open>include/stateindex/tcp.hpp\<close>: \<^verbatim>\<open>send_all\<close>, \<^verbatim>\<open>recv_exact\<close>, \<^verbatim>\<open>recv_frame\<close> and
  \<^verbatim>\<open>send_frame\<close>. The operating system's \<^verbatim>\<open>::recv\<close> and \<^verbatim>\<open>::send\<close> are parameters; the locale \<open>stream_socket\<close>
  states what a stream socket promises of \<^verbatim>\<open>::recv\<close>: the bytes of the peer arrive in order, in runs
  of any positive length, and a closed stream ends. A socket that delivers a given sequence of runs
  is its interpretation, and shows that what a frame reads as does not depend on the runs.
  \<open>ending_stream\<close> asks less, of a socket whose calls may fail: what is to arrive is finite.
\<close>

section \<open>Receiving\<close>

text \<open>What \<^verbatim>\<open>::recv(h, buf, n, 0)\<close> reports: the bytes it stored, of which there is at least one, the
  orderly end of the stream (result 0), or an error (a negative result).\<close>

datatype recv_result = Received bytes | Closed | Failed

type_synonym 's recv = "nat \<Rightarrow> 's \<Rightarrow> recv_result \<times> 's"

function recv_loop :: "'s recv \<Rightarrow> nat \<Rightarrow> bytes \<Rightarrow> 's \<Rightarrow> (exn + bytes) \<times> 's" where
  "recv_loop recv len got s =
     (if length got < len then
        case recv (len - length got) s of
          (Closed, s') \<Rightarrow> (Inl (runtime_error ''connection closed''), s')
        | (Failed, s') \<Rightarrow> (Inl (runtime_error ''recv failed''), s')
        | (Received bs, s') \<Rightarrow>
            if bs = [] then (Inl (runtime_error ''connection closed''), s')
            else recv_loop recv len (got @ bs) s'
      else (Inr got, s))"
  by pat_completeness auto

termination
  by (relation "measure (\<lambda>(_, len, got, _). len - length got)")
    (auto simp: length_greater_0_conv [symmetric] simp del: length_greater_0_conv)

declare recv_loop.simps [simp del]

definition recv_exact :: "'s recv \<Rightarrow> nat \<Rightarrow> 's \<Rightarrow> (exn + bytes) \<times> 's" where
  "recv_exact recv len s = recv_loop recv len [] s"

text \<open>The length field of a header of 24 bytes.\<close>

definition header_length :: "u64 parser" where
  "header_length = bindr read_u32 (\<lambda>_. bindr read_u16 (\<lambda>_. bindr read_u16 (\<lambda>_. read_u64)))"

definition checked_frame :: "bytes \<Rightarrow> exn + Frame" where
  "checked_frame full =
     (case decode_frame full of Inl x \<Rightarrow> Inl x
      | Inr (frame, err) \<Rightarrow>
          if err \<noteq> FrameError_NONE
          then Inl (runtime_error (''protocol decode error: '' @ FrameError_to_string err))
          else Inr frame)"

definition recv_frame :: "'s recv \<Rightarrow> 's \<Rightarrow> (exn + Frame) \<times> 's" where
  "recv_frame recv s =
     (case recv_exact recv kProtocolHeaderSize s of (Inl x, s') \<Rightarrow> (Inl x, s')
      | (Inr header, s1) \<Rightarrow>
          (case header_length (reader header) of Inl x \<Rightarrow> (Inl x, s1)
           | Inr (len, _) \<Rightarrow>
               if len > kMaxFrameBytes then (Inl (runtime_error ''frame too large''), s1)
               else if unat len > 0 then
                 (case recv_exact recv (unat len) s1 of (Inl x, s2) \<Rightarrow> (Inl x, s2)
                  | (Inr body, s2) \<Rightarrow> (checked_frame (header @ body), s2))
               else (checked_frame header, s1)))"

section \<open>Sending\<close>

text \<open>\<^verbatim>\<open>::send\<close> accepts a positive number of the offered bytes, or fails (\<open>None\<close>).\<close>

type_synonym 's send = "bytes \<Rightarrow> 's \<Rightarrow> nat option \<times> 's"

function send_all :: "'s send \<Rightarrow> bytes \<Rightarrow> 's \<Rightarrow> exn option \<times> 's" where
  "send_all send data s =
     (if data = [] then (None, s)
      else case send data s of
        (None, s') \<Rightarrow> (Some (runtime_error ''send failed''), s')
      | (Some n, s') \<Rightarrow> if n = 0 then (Some (runtime_error ''send failed''), s') else send_all send (drop n data) s')"
  by pat_completeness auto

termination
  by (relation "measure (\<lambda>(_, data, _). length data)") auto

declare send_all.simps [simp del]

definition send_frame :: "'s send \<Rightarrow> MsgKind \<Rightarrow> bytes \<Rightarrow> 's \<Rightarrow> exn option \<times> 's" where
  "send_frame send kind payload s = send_all send (encode_frame kind payload) s"

section \<open>The contract of a stream socket\<close>

locale stream_socket =
  fixes recv :: "'s recv" and pending :: "'s \<Rightarrow> bytes" and send :: "'s send" and sent :: "'s \<Rightarrow> bytes"
  assumes received: "recv n s = (Received bs, s') \<Longrightarrow> 0 < n \<Longrightarrow>
      bs \<noteq> [] \<and> length bs \<le> n \<and> pending s = bs @ pending s'"
    and closed: "recv n s = (Closed, s') \<Longrightarrow> pending s = []"
    and sound: "recv n s \<noteq> (Failed, s')"
    and accepted: "send data s = (Some n, s') \<Longrightarrow> data \<noteq> [] \<Longrightarrow>
      0 < n \<and> n \<le> length data \<and> sent s' = sent s @ take n data"
begin

lemma recv_loop_pending:
  "length got \<le> len \<Longrightarrow> len \<le> length (got @ pending s) \<Longrightarrow>
     \<exists>s'. recv_loop recv len got s = (Inr (take len (got @ pending s)), s') \<and>
       pending s' = drop len (got @ pending s)"
proof (induction "len - length got" arbitrary: got s rule: less_induct)
  case less
  show ?case
  proof (cases "length got < len")
    case True
    with less.prems(2) have "pending s \<noteq> []" by auto
    moreover obtain r s' where r: "recv (len - length got) s = (r, s')" by force
    ultimately obtain bs where bs: "r = Received bs" using closed sound by (cases r) blast+
    with r received True have some: "bs \<noteq> []" "length bs \<le> len - length got" "pending s = bs @ pending s'" by auto
    then have step: "recv_loop recv len got s = recv_loop recv len (got @ bs) s'"
      using True r bs by (subst recv_loop.simps) simp
    have "len - length (got @ bs) < len - length got" using True some(1) by (cases bs) auto
    from less.hyps [OF this, of s'] less.prems some True show ?thesis unfolding step by simp
  next
    case False
    with less.prems(1) show ?thesis by (simp add: recv_loop.simps)
  qed
qed

text \<open>Enough pending bytes: exactly the first \<open>len\<close> are read, in however many runs they come.\<close>

lemma recv_exact_pending:
  "len \<le> length (pending s) \<Longrightarrow>
     \<exists>s'. recv_exact recv len s = (Inr (take len (pending s)), s') \<and> pending s' = drop len (pending s)"
  unfolding recv_exact_def using recv_loop_pending [of "[]" len s] by simp

lemma recv_loop_short:
  "length got \<le> len \<Longrightarrow> length (got @ pending s) < len \<Longrightarrow>
     fst (recv_loop recv len got s) = Inl (runtime_error ''connection closed'')"
proof (induction "len - length got" arbitrary: got s rule: less_induct)
  case less
  then have True: "length got < len" by simp
  obtain r s' where r: "recv (len - length got) s = (r, s')" by force
  show ?case
  proof (cases r)
    case (Received bs)
    with r received True have some: "bs \<noteq> []" "length bs \<le> len - length got" "pending s = bs @ pending s'" by auto
    have step: "recv_loop recv len got s = recv_loop recv len (got @ bs) s'"
      using True r Received some by (subst recv_loop.simps) simp
    have "len - length (got @ bs) < len - length got" using True some(1) by (cases bs) auto
    from less.hyps [OF this, of s'] less.prems some True show ?thesis unfolding step by simp
  qed (use r True sound in \<open>auto simp: recv_loop.simps [of recv len got s]\<close>)
qed

text \<open>A stream that ends inside the bytes asked for is a closed connection.\<close>

lemma recv_exact_short:
  "length (pending s) < len \<Longrightarrow> fst (recv_exact recv len s) = Inl (runtime_error ''connection closed'')"
  unfolding recv_exact_def using recv_loop_short [of "[]" len s] by simp

lemma recv_exact_consumes:
  assumes "recv_exact recv len s = (Inr bs, s')"
  shows "pending s = bs @ pending s' \<and> length bs = len"
proof (cases "len \<le> length (pending s)")
  case True
  with recv_exact_pending [OF True] assms show ?thesis by auto
next
  case False
  with recv_exact_short [of s len] assms show ?thesis by simp
qed

text \<open>What \<^verbatim>\<open>send_all\<close> delivers when no send fails.\<close>

lemma send_all_sent:
  "send_all send data s = (None, s') \<Longrightarrow> sent s' = sent s @ data"
proof (induction "length data" arbitrary: data s rule: less_induct)
  case less
  show ?case
  proof (cases "data = []")
    case False
    from less.prems obtain n s1 where n: "send data s = (Some n, s1)" "n \<noteq> 0" "send_all send (drop n data) s1 = (None, s')"
      using False by (subst (asm) send_all.simps) (auto split: prod.splits option.splits if_splits)
    with accepted False have "n \<le> length data" "sent s1 = sent s @ take n data" by blast+
    moreover have "length (drop n data) < length data" using False n(2) by simp
    ultimately show ?thesis using less.hyps n(3) by force
  qed (use less.prems in \<open>simp add: send_all.simps\<close>)
qed

text \<open>A frame of the encoder is read back whatever follows it, and the rest stays pending.\<close>

lemma recv_frame_encoded:
  assumes pend: "pending s = encode_frame kind payload @ rest" and ok: "MsgKind_ok kind" "known_kind (MsgKind_code kind)"
    and len: "length payload \<le> unat kMaxFrameBytes"
  shows "\<exists>s'. recv_frame recv s = (Inr \<lparr>frame_kind = kind, frame_payload = payload\<rparr>, s') \<and> pending s' = rest"
proof -
  define fields where "fields = push_u32 kProtocolMagic @ push_u16 kProtocolVersion @ push_u16 (MsgKind_code kind)
      @ push_u64 (of_nat (length payload))"
  define header where "header = fields @ push_u32 (frame_crc (MsgKind_code kind) payload) @ push_u32 0"
  have full: "encode_frame kind payload = header @ payload"
    by (simp add: encode_frame_layout frame_layout_def header_def fields_def)
  have len_header: "length header = 24" by (simp add: header_def fields_def)
  have "decodes header_length fields (of_nat (length payload))"
    unfolding header_length_def fields_def
    by (rule decodes_bind [OF decodes_u32], rule decodes_bind [OF decodes_u16], rule decodes_bind [OF decodes_u16],
        rule decodes_u64)
  then have hl: "header_length (reader header) = Inr (of_nat (length payload), \<lparr>rd_span = header, rd_pos = length fields\<rparr>)"
    unfolding header_def by (rule decodes_prefix)
  have l: "(of_nat (length payload) :: u64) \<le> kMaxFrameBytes" "unat (of_nat (length payload) :: u64) = length payload"
    using frame_length_iff [of "of_nat (length payload)" payload] len by auto
  have ok_frame: "checked_frame (header @ payload) = Inr \<lparr>frame_kind = kind, frame_payload = payload\<rparr>"
    using decode_encode [OF ok len] by (simp add: checked_frame_def full)
  obtain s1 where s1: "recv_exact recv kProtocolHeaderSize s = (Inr header, s1)" "pending s1 = payload @ rest"
    using recv_exact_pending [of 24 s] len_header by (auto simp: pend full kProtocolHeaderSize_def)
  obtain s2 where s2: "recv_exact recv (length payload) s1 = (Inr payload, s2)" "pending s2 = rest"
    using recv_exact_pending [of "length payload" s1] by (auto simp: s1(2))
  show ?thesis
  proof (cases "payload = []")
    case True
    with s1 hl l ok_frame show ?thesis by (simp add: recv_frame_def)
  next
    case False
    with s1 s2 hl l ok_frame show ?thesis by (simp add: recv_frame_def not_less [symmetric])
  qed
qed

text \<open>Every frame takes at least its header off the stream.\<close>

lemma recv_frame_consumes:
  assumes "recv_frame recv s = (Inr f, s')"
  shows "length (pending s') + 24 \<le> length (pending s)"
proof -
  from assms obtain header s1 where h: "recv_exact recv kProtocolHeaderSize s = (Inr header, s1)"
    by (auto simp: recv_frame_def split: prod.splits sum.splits)
  from recv_exact_consumes [OF h] have "length (pending s1) + 24 = length (pending s)"
    by (simp add: kProtocolHeaderSize_def)
  moreover have "length (pending s') \<le> length (pending s1)"
    using assms h recv_exact_consumes [of _ s1]
    by (auto simp: recv_frame_def split: prod.splits sum.splits if_splits)
  ultimately show ?thesis by simp
qed

lemma send_frame_sent:
  "send_frame send kind payload s = (None, s') \<Longrightarrow> sent s' = sent s @ encode_frame kind payload"
  unfolding send_frame_def by (rule send_all_sent)

end

text \<open>A socket whose sends neither fail nor consume what is to be received.\<close>

locale reliable_socket = stream_socket +
  assumes delivers: "fst (send data s) \<noteq> None"
    and send_pending: "pending (snd (send data s)) = pending s"
    and recv_sent: "sent (snd (recv n s)) = sent s"
begin

lemma send_all_delivers: "\<exists>s'. send_all send data s = (None, s') \<and> sent s' = sent s @ data \<and> pending s' = pending s"
proof (induction "length data" arbitrary: data s rule: less_induct)
  case less
  show ?case
  proof (cases "data = []")
    case False
    obtain n s1 where n: "send data s = (Some n, s1)" using delivers [of data s] by (cases "send data s") auto
    with accepted False send_pending [of data s]
    have s1: "0 < n" "n \<le> length data" "sent s1 = sent s @ take n data" "pending s1 = pending s" by auto
    then have "length (drop n data) < length data" using False by simp
    from less [OF this, of s1] n s1 False show ?thesis by (subst send_all.simps) auto
  qed (simp add: send_all.simps)
qed

lemma send_frame_delivers:
  "\<exists>s'. send_frame send kind payload s = (None, s') \<and> sent s' = sent s @ encode_frame kind payload \<and>
     pending s' = pending s"
  unfolding send_frame_def by (rule send_all_delivers)

lemma recv_loop_sent: "recv_loop recv len got s = (r, s') \<Longrightarrow> sent s' = sent s"
proof (induction "len - length got" arbitrary: got s rule: less_induct)
  case less
  obtain q s1 where q: "recv (len - length got) s = (q, s1)" by force
  with recv_sent [of "len - length got" s] have s1: "sent s1 = sent s" by simp
  show ?case
  proof (cases "length got < len \<and> (\<exists>bs. q = Received bs \<and> bs \<noteq> [])")
    case True
    then obtain bs where bs: "q = Received bs" "bs \<noteq> []" and short: "length got < len" by blast
    have "len - length (got @ bs) < len - length got" using short bs(2) by (cases bs) auto
    with less.hyps [of "got @ bs" s1] less.prems q bs short s1 show ?thesis
      by (simp add: recv_loop.simps [of recv len got s])
  next
    case False
    with less.prems q s1 show ?thesis
      by (auto simp: recv_loop.simps [of recv len got s] split: if_splits recv_result.splits)
  qed
qed

lemma recv_frame_sent: "recv_frame recv s = (r, s') \<Longrightarrow> sent s' = sent s"
  by (auto simp: recv_frame_def recv_exact_def split: prod.splits sum.splits if_splits dest!: recv_loop_sent)

end

section \<open>Streams that end\<close>

text \<open>What is needed for a conversation to end: the peer sends finitely many bytes, and sending brings no
  new ones. Every call may fail at any time.\<close>

locale ending_stream =
  fixes recv :: "'s recv" and send :: "'s send" and pending :: "'s \<Rightarrow> bytes"
  assumes run: "recv n s = (Received bs, s') \<Longrightarrow> 0 < n \<Longrightarrow>
      bs \<noteq> [] \<and> length bs \<le> n \<and> pending s = bs @ pending s'"
    and no_echo: "length (pending (snd (send data s))) \<le> length (pending s)"
begin

lemma recv_loop_takes:
  "recv_loop recv len got s = (Inr bs, s') \<Longrightarrow> length got \<le> len \<Longrightarrow>
     length (pending s') + len \<le> length (pending s) + length got"
proof (induction "len - length got" arbitrary: got s rule: less_induct)
  case less
  obtain r s1 where r: "recv (len - length got) s = (r, s1)" by force
  show ?case
  proof (cases "length got < len")
    case True
    with less.prems(1) r obtain b where b: "r = Received b" "b \<noteq> []" "recv_loop recv len (got @ b) s1 = (Inr bs, s')"
      by (auto simp: recv_loop.simps [of recv len got s] split: recv_result.splits if_splits)
    from run [of "len - length got" s b s1] r b True
    have p: "length b \<le> len - length got" "length (pending s) = length b + length (pending s1)" by auto
    have "len - length (got @ b) < len - length got" using b(2) True by (cases b) auto
    moreover have "length (got @ b) \<le> len" using p(1) True by simp
    ultimately have "length (pending s') + len \<le> length (pending s1) + length (got @ b)"
      by (rule less.hyps [OF _ b(3)])
    with p(2) show ?thesis by simp
  next
    case False
    with less.prems show ?thesis by (simp add: recv_loop.simps [of recv len got s])
  qed
qed

text \<open>A frame takes at least its header off the stream.\<close>

lemma recv_frame_takes:
  assumes "recv_frame recv s = (Inr f, s')"
  shows "length (pending s') + 24 \<le> length (pending s)"
proof -
  obtain header s1 where h: "recv_exact recv kProtocolHeaderSize s = (Inr header, s1)"
    using assms by (auto simp: recv_frame_def split: prod.splits sum.splits)
  from recv_loop_takes [OF h [unfolded recv_exact_def]]
  have s1: "length (pending s1) + 24 \<le> length (pending s)" by (simp add: kProtocolHeaderSize_def)
  have body: "length (pending s2) \<le> length (pending s1)" if "recv_exact recv len s1 = (Inr bs, s2)" for len bs s2
    using recv_loop_takes [OF that [unfolded recv_exact_def]] by simp
  have "length (pending s') \<le> length (pending s1)"
    using assms h by (auto simp: recv_frame_def split: prod.splits sum.splits if_splits dest: body)
  with s1 show ?thesis by simp
qed

lemma send_all_ends: "length (pending (snd (send_all send data s))) \<le> length (pending s)"
proof (induction "length data" arbitrary: data s rule: less_induct)
  case less
  obtain r s1 where r: "send data s = (r, s1)" by force
  with no_echo [of data s] have s1: "length (pending s1) \<le> length (pending s)" by simp
  show ?case
  proof (cases "data \<noteq> [] \<and> (\<exists>n. r = Some n \<and> n \<noteq> 0)")
    case True
    then obtain n where n: "r = Some n" "n \<noteq> 0" "data \<noteq> []" by blast
    then have "length (drop n data) < length data" by simp
    from less.hyps [OF this, of s1] n r s1 show ?thesis by (simp add: send_all.simps [of send data s])
  next
    case False
    with r s1 show ?thesis by (auto simp: send_all.simps [of send data s] split: option.split)
  qed
qed

lemma send_frame_ends: "send_frame send kind payload s = (x, s') \<Longrightarrow> length (pending s') \<le> length (pending s)"
  unfolding send_frame_def using send_all_ends [of "encode_frame kind payload" s] by simp

end

sublocale reliable_socket \<subseteq> ending_stream recv send pending
  by unfold_locales (simp_all add: received send_pending)

section \<open>A socket given by its runs\<close>

text \<open>The runs in which the peer's bytes arrive, the sizes of the runs the network accepts, and what
  has been sent.\<close>

record socket =
  sock_in :: "bytes list"
  sock_room :: "nat list"
  sock_out :: bytes

definition recv_runs :: "socket recv" where
  "recv_runs n s =
     (case dropWhile (\<lambda>b. b = []) (sock_in s) of
        [] \<Rightarrow> (Closed, s\<lparr>sock_in := []\<rparr>)
      | b # bs \<Rightarrow> (Received (take n b), s\<lparr>sock_in := drop n b # bs\<rparr>))"

definition send_runs :: "socket send" where
  "send_runs data s =
     (let n = (case sock_room s of [] \<Rightarrow> length data | k # _ \<Rightarrow> max 1 (min k (length data)))
      in (Some n, s\<lparr>sock_room := tl (sock_room s), sock_out := sock_out s @ take n data\<rparr>))"

lemma concat_dropWhile_Nil: "concat (dropWhile (\<lambda>b. b = []) bs) = concat bs"
  by (induction bs) auto

interpretation runs: stream_socket recv_runs "\<lambda>s. concat (sock_in s)" send_runs sock_out
proof
  fix n s bs s'
  assume rec: "recv_runs n s = (Received bs, s')" and "0 < n"
  obtain b cs where d: "dropWhile (\<lambda>b. b = []) (sock_in s) = b # cs" "bs = take n b"
      "s' = s\<lparr>sock_in := drop n b # cs\<rparr>"
    using rec unfolding recv_runs_def by (cases "dropWhile (\<lambda>b. b = []) (sock_in s)") force+
  have "b \<noteq> []" using d(1) by (simp add: dropWhile_eq_Cons_conv)
  moreover have "concat (sock_in s) = b @ concat cs"
    using d(1) concat_dropWhile_Nil [of "sock_in s"] by (metis concat.simps(2))
  ultimately show "bs \<noteq> [] \<and> length bs \<le> n \<and> concat (sock_in s) = bs @ concat (sock_in s')"
    using \<open>0 < n\<close> d(2,3) by simp
next
  fix n s s'
  assume "recv_runs n s = (Closed, s')"
  then have "dropWhile (\<lambda>b. b = []) (sock_in s) = []"
    by (cases "dropWhile (\<lambda>b. b = []) (sock_in s)") (simp_all add: recv_runs_def)
  with concat_dropWhile_Nil [of "sock_in s"] show "concat (sock_in s) = []" by (metis concat.simps(1))
next
  fix n s s'
  show "recv_runs n s \<noteq> (Failed, s')" by (simp add: recv_runs_def split: list.splits)
next
  fix data s n s'
  assume "send_runs data s = (Some n, s')" "data \<noteq> []"
  then show "0 < n \<and> n \<le> length data \<and> sock_out s' = sock_out s @ take n data"
    by (cases data; cases "sock_room s") (auto simp: send_runs_def Let_def)
qed

interpretation wire: reliable_socket recv_runs "\<lambda>s. concat (sock_in s)" send_runs sock_out
  by unfold_locales (simp_all add: send_runs_def recv_runs_def Let_def split: list.splits)

end
