(* ===== verification/Index.thy ===== *)
theory Index
  imports Records
begin

text \<open>
  \<^verbatim>\<open>include/stateindex/index.hpp\<close> and \<^verbatim>\<open>src/index.cpp\<close>: the sixteen secondary indexes and
  the owner of each placement. Each index is a hash map from a key to a sorted vector of
  record ids. The locale \<open>posting_index\<close> states what \<^verbatim>\<open>add\<close>, \<^verbatim>\<open>rem\<close> and \<^verbatim>\<open>lookup\<close>
  promise; \<open>posted\<close> is the abstraction of all sixteen indexes to one relation between
  keys and record ids, \<open>record_keys\<close> the keys a record belongs under, and the refinement
  lemmas show that \<^verbatim>\<open>insert\<close>, \<^verbatim>\<open>remove\<close> and \<^verbatim>\<open>rebuild\<close> act on that relation as set
  insertion, set difference and the exact inverse image of \<open>record_keys\<close>.
\<close>

section \<open>Posting lists\<close>

locale posting_index =
  fixes empty :: "'m"
    and add :: "'k \<Rightarrow> 'v::linorder \<Rightarrow> 'm \<Rightarrow> 'm"
    and rem :: "'k \<Rightarrow> 'v \<Rightarrow> 'm \<Rightarrow> 'm"
    and lookup :: "'m \<Rightarrow> 'k \<Rightarrow> 'v list"
    and inv :: "'m \<Rightarrow> bool"
  assumes inv_empty: "inv empty"
    and lookup_empty: "lookup empty k = []"
    and inv_add: "inv m \<Longrightarrow> inv (add k v m)"
    and inv_rem: "inv m \<Longrightarrow> inv (rem k v m)"
    and set_add: "inv m \<Longrightarrow>
      set (lookup (add k v m) k') = (if k' = k then insert v (set (lookup m k')) else set (lookup m k'))"
    and set_rem: "inv m \<Longrightarrow>
      set (lookup (rem k v m) k') = (if k' = k then set (lookup m k') - {v} else set (lookup m k'))"
    and lookup_sorted: "inv m \<Longrightarrow> sorted (lookup m k) \<and> distinct (lookup m k)"
begin

lemma inv_adds: "inv m \<Longrightarrow> inv (foldl (\<lambda>m x. add (key x) v m) m xs)"
  by (induction xs arbitrary: m) (auto intro: inv_add)

lemma inv_rems: "inv m \<Longrightarrow> inv (foldl (\<lambda>m x. rem (key x) v m) m xs)"
  by (induction xs arbitrary: m) (auto intro: inv_rem)

lemma set_adds:
  "inv m \<Longrightarrow> set (lookup (foldl (\<lambda>m x. add (key x) v m) m xs) k)
     = set (lookup m k) \<union> (if k \<in> key ` set xs then {v} else {})"
  by (induction xs arbitrary: m) (auto simp: set_add inv_add)

lemma set_rems:
  "inv m \<Longrightarrow> set (lookup (foldl (\<lambda>m x. rem (key x) v m) m xs) k)
     = set (lookup m k) - (if k \<in> key ` set xs then {v} else {})"
  by (induction xs arbitrary: m) (auto simp: set_rem inv_rem)

text \<open>An index is determined by the relation it represents.\<close>

lemma lookup_unique:
  "inv m \<Longrightarrow> inv n \<Longrightarrow> set (lookup m k) = set (lookup n k) \<Longrightarrow> lookup m k = lookup n k"
  by (metis lookup_sorted sorted_distinct_set_unique)

lemma lookup_eq_sorted_list:
  "inv m \<Longrightarrow> lookup m k = sorted_list_of_set (set (lookup m k))"
  by (simp add: lookup_sorted sorted_list_of_set.idem_if_sorted_distinct)

end

type_synonym 'k posting = "('k, StateRecordId list) umap"

definition ix_lookup :: "'k posting \<Rightarrow> 'k \<Rightarrow> StateRecordId list" where
  "ix_lookup m k = (case um_find m k of None \<Rightarrow> [] | Some ids \<Rightarrow> ids)"

text \<open>\<^verbatim>\<open>m[k].push_back(v)\<close>, then \<^verbatim>\<open>std::sort\<close> and \<^verbatim>\<open>std::unique\<close>.\<close>

definition ix_add :: "'k \<Rightarrow> StateRecordId \<Rightarrow> 'k posting \<Rightarrow> 'k posting" where
  "ix_add k v m = um_put k (sort_unique (ix_lookup m k @ [v])) m"

definition ix_rem :: "'k \<Rightarrow> StateRecordId \<Rightarrow> 'k posting \<Rightarrow> 'k posting" where
  "ix_rem k v m =
     (case um_find m k of None \<Rightarrow> m
      | Some ids \<Rightarrow>
          let ids' = filter (\<lambda>x. x \<noteq> v) ids
          in if ids' = [] then um_erase k m else um_put k ids' m)"

definition posting_ok :: "'k posting \<Rightarrow> bool" where
  "posting_ok m \<longleftrightarrow> um_ok m \<and>
     (\<forall>k ids. um_find m k = Some ids \<longrightarrow> sorted ids \<and> distinct ids \<and> ids \<noteq> [])"

interpretation px: posting_index "[]" ix_add ix_rem ix_lookup posting_ok
proof (unfold_locales, goal_cases)
  case 1
  show ?case by (simp add: posting_ok_def)
next
  case (2 k)
  show ?case by (simp add: ix_lookup_def)
next
  case (3 m k v)
  have "sort_unique (ix_lookup m k @ [v]) \<noteq> []"
    using set_sort_unique [of "ix_lookup m k @ [v]"] by force
  with 3 show ?case by (auto simp: posting_ok_def ix_add_def)
next
  case (4 m k v)
  then show ?case
    by (auto simp: posting_ok_def ix_rem_def Let_def sorted_filter [where f = "\<lambda>x. x", simplified]
        split: option.splits)
next
  case (5 m k v k')
  then show ?case by (auto simp: ix_add_def ix_lookup_def)
next
  case (6 m k v k')
  then show ?case
    by (auto simp: ix_rem_def ix_lookup_def Let_def filter_empty_conv split: option.splits)
next
  case (7 m k)
  then show ?case by (auto simp: posting_ok_def ix_lookup_def split: option.splits)
qed

section \<open>Size buckets\<close>

text \<open>\<^verbatim>\<open>while (size > 1) { size >>= 1; ++b; }\<close>\<close>

function size_bucket_loop :: "u64 \<Rightarrow> u32 \<Rightarrow> u32" where
  "size_bucket_loop size' b = (if size' > 1 then size_bucket_loop (drop_bit 1 size') (b + 1) else b)"
  by pat_completeness auto
termination
proof (relation "measure (\<lambda>(s, b). unat s)")
  show "wf (measure (\<lambda>(s :: u64, b :: u32). unat s))" by simp
next
  fix s :: u64 and b :: u32
  assume "s > 1"
  then have "1 < unat s" by (simp add: word_less_nat_alt)
  then show "((drop_bit 1 s, b + 1), (s, b)) \<in> measure (\<lambda>(s, b). unat s)"
    by (simp add: drop_bit_Suc unat_div)
qed

declare size_bucket_loop.simps [simp del]

definition size_bucket :: "u64 \<Rightarrow> u32" where
  "size_bucket s = (if s = 0 then 0 else size_bucket_loop s 0)"

section \<open>The indexes\<close>

record SecondaryIndexes =
  ix_by_state :: "StateId posting"
  ix_by_kind :: "StateKind posting"
  ix_by_namespace :: "NamespaceId posting"
  ix_by_owner :: "OwnerId posting"
  ix_by_producer :: "ProducerId posting"
  ix_by_digest :: "string posting"
  ix_by_compat :: "CompatibilityId posting"
  ix_by_dep_target :: "StateId posting"
  ix_by_node :: "NodeId posting"
  ix_by_device :: "DeviceId posting"
  ix_by_domain :: "MemoryDomain posting"
  ix_by_fresh :: "Freshness posting"
  ix_by_health :: "Health posting"
  ix_by_lifecycle :: "Lifecycle posting"
  ix_by_gen :: "StateGeneration posting"
  ix_by_size :: "u32 posting"
  ix_location_owner :: "(PlacementId, StateRecordId) umap"

definition idx_clear :: SecondaryIndexes where
  "idx_clear = \<lparr>ix_by_state = [], ix_by_kind = [], ix_by_namespace = [], ix_by_owner = [], ix_by_producer = [], ix_by_digest = [], ix_by_compat = [], ix_by_dep_target = [], ix_by_node = [], ix_by_device = [], ix_by_domain = [], ix_by_fresh = [], ix_by_health = [], ix_by_lifecycle = [], ix_by_gen = [], ix_by_size = [], ix_location_owner = []\<rparr>"

text \<open>The body of the loop over the locations of a record.\<close>

definition insert_location :: "StateRecordId \<Rightarrow> SecondaryIndexes \<Rightarrow> StateLocation \<Rightarrow> SecondaryIndexes" where
  "insert_location rid s loc =
     s\<lparr>ix_by_node := ix_add (loc_node_id loc) rid (ix_by_node s),
       ix_by_device := (if id_bool (loc_device_id loc)
         then ix_add (loc_device_id loc) rid (ix_by_device s) else ix_by_device s),
       ix_by_domain := ix_add (loc_domain loc) rid (ix_by_domain s),
       ix_location_owner := um_put (loc_placement_id loc) rid (ix_location_owner s)\<rparr>"

definition remove_location_entries :: "StateRecordId \<Rightarrow> SecondaryIndexes \<Rightarrow> StateLocation \<Rightarrow> SecondaryIndexes" where
  "remove_location_entries rid s loc =
     s\<lparr>ix_by_node := ix_rem (loc_node_id loc) rid (ix_by_node s),
       ix_by_device := (if id_bool (loc_device_id loc)
         then ix_rem (loc_device_id loc) rid (ix_by_device s) else ix_by_device s),
       ix_by_domain := ix_rem (loc_domain loc) rid (ix_by_domain s),
       ix_location_owner := (if um_find (ix_location_owner s) (loc_placement_id loc) = Some rid
         then um_erase (loc_placement_id loc) (ix_location_owner s) else ix_location_owner s)\<rparr>"

definition idx_insert :: "StateRecord \<Rightarrow> SecondaryIndexes \<Rightarrow> SecondaryIndexes" where
  "idx_insert rec s =
    (let s1 = s\<lparr>ix_by_state := ix_add (rec_state_id rec) (rec_record_id rec) (ix_by_state s),
      ix_by_kind := ix_add (rec_kind rec) (rec_record_id rec) (ix_by_kind s),
      ix_by_namespace := ix_add (rec_namespace_id rec) (rec_record_id rec) (ix_by_namespace s),
      ix_by_owner := (if id_bool (rec_owner_id rec)
        then ix_add (rec_owner_id rec) (rec_record_id rec) (ix_by_owner s) else ix_by_owner s),
      ix_by_producer := (if id_bool (rec_producer_id rec)
        then ix_add (rec_producer_id rec) (rec_record_id rec) (ix_by_producer s) else ix_by_producer s),
      ix_by_digest := (if rec_content_digest rec \<noteq> []
        then ix_add (rec_content_digest rec) (rec_record_id rec) (ix_by_digest s) else ix_by_digest s),
      ix_by_compat := (case rec_compatibility rec of None \<Rightarrow> ix_by_compat s
        | Some c \<Rightarrow> ix_add (comp_id c) (rec_record_id rec) (ix_by_compat s)),
      ix_by_dep_target := foldl (\<lambda>m d. ix_add (dep_target_state d) (rec_record_id rec) m)
        (ix_by_dep_target s) (rec_dependencies rec)\<rparr>;
         s2 = foldl (insert_location (rec_record_id rec)) s1 (rec_locations rec)
     in s2\<lparr>ix_by_fresh := ix_add (rec_freshness rec) (rec_record_id rec) (ix_by_fresh s2),
      ix_by_health := ix_add (rec_health rec) (rec_record_id rec) (ix_by_health s2),
      ix_by_lifecycle := ix_add (rec_lifecycle rec) (rec_record_id rec) (ix_by_lifecycle s2),
      ix_by_gen := ix_add (rec_state_generation rec) (rec_record_id rec) (ix_by_gen s2),
      ix_by_size := ix_add (size_bucket (rec_logical_size rec)) (rec_record_id rec) (ix_by_size s2)\<rparr>)"

definition idx_remove :: "StateRecord \<Rightarrow> SecondaryIndexes \<Rightarrow> SecondaryIndexes" where
  "idx_remove rec s =
    (let s1 = s\<lparr>ix_by_state := ix_rem (rec_state_id rec) (rec_record_id rec) (ix_by_state s),
      ix_by_kind := ix_rem (rec_kind rec) (rec_record_id rec) (ix_by_kind s),
      ix_by_namespace := ix_rem (rec_namespace_id rec) (rec_record_id rec) (ix_by_namespace s),
      ix_by_owner := (if id_bool (rec_owner_id rec)
        then ix_rem (rec_owner_id rec) (rec_record_id rec) (ix_by_owner s) else ix_by_owner s),
      ix_by_producer := (if id_bool (rec_producer_id rec)
        then ix_rem (rec_producer_id rec) (rec_record_id rec) (ix_by_producer s) else ix_by_producer s),
      ix_by_digest := (if rec_content_digest rec \<noteq> []
        then ix_rem (rec_content_digest rec) (rec_record_id rec) (ix_by_digest s) else ix_by_digest s),
      ix_by_compat := (case rec_compatibility rec of None \<Rightarrow> ix_by_compat s
        | Some c \<Rightarrow> ix_rem (comp_id c) (rec_record_id rec) (ix_by_compat s)),
      ix_by_dep_target := foldl (\<lambda>m d. ix_rem (dep_target_state d) (rec_record_id rec) m)
        (ix_by_dep_target s) (rec_dependencies rec)\<rparr>;
         s2 = foldl (remove_location_entries (rec_record_id rec)) s1 (rec_locations rec)
     in s2\<lparr>ix_by_fresh := ix_rem (rec_freshness rec) (rec_record_id rec) (ix_by_fresh s2),
      ix_by_health := ix_rem (rec_health rec) (rec_record_id rec) (ix_by_health s2),
      ix_by_lifecycle := ix_rem (rec_lifecycle rec) (rec_record_id rec) (ix_by_lifecycle s2),
      ix_by_gen := ix_rem (rec_state_generation rec) (rec_record_id rec) (ix_by_gen s2),
      ix_by_size := ix_rem (size_bucket (rec_logical_size rec)) (rec_record_id rec) (ix_by_size s2)\<rparr>)"

text \<open>\<^verbatim>\<open>rebuild\<close>: clear, sort by record id, insert each.\<close>

definition idx_rebuild :: "StateRecord list \<Rightarrow> SecondaryIndexes" where
  "idx_rebuild records = foldl (\<lambda>s rec. idx_insert rec s) idx_clear (sort_key rec_record_id records)"

section \<open>Abstraction to one relation\<close>

datatype index_key =
    Key_state StateId
  | Key_kind StateKind
  | Key_namespace NamespaceId
  | Key_owner OwnerId
  | Key_producer ProducerId
  | Key_digest string
  | Key_compat CompatibilityId
  | Key_dep_target StateId
  | Key_node NodeId
  | Key_device DeviceId
  | Key_domain MemoryDomain
  | Key_fresh Freshness
  | Key_health Health
  | Key_lifecycle Lifecycle
  | Key_gen StateGeneration
  | Key_size u32

primrec posted :: "SecondaryIndexes \<Rightarrow> index_key \<Rightarrow> StateRecordId set" where
  "posted s (Key_state k) = set (ix_lookup (ix_by_state s) k)"
| "posted s (Key_kind k) = set (ix_lookup (ix_by_kind s) k)"
| "posted s (Key_namespace k) = set (ix_lookup (ix_by_namespace s) k)"
| "posted s (Key_owner k) = set (ix_lookup (ix_by_owner s) k)"
| "posted s (Key_producer k) = set (ix_lookup (ix_by_producer s) k)"
| "posted s (Key_digest k) = set (ix_lookup (ix_by_digest s) k)"
| "posted s (Key_compat k) = set (ix_lookup (ix_by_compat s) k)"
| "posted s (Key_dep_target k) = set (ix_lookup (ix_by_dep_target s) k)"
| "posted s (Key_node k) = set (ix_lookup (ix_by_node s) k)"
| "posted s (Key_device k) = set (ix_lookup (ix_by_device s) k)"
| "posted s (Key_domain k) = set (ix_lookup (ix_by_domain s) k)"
| "posted s (Key_fresh k) = set (ix_lookup (ix_by_fresh s) k)"
| "posted s (Key_health k) = set (ix_lookup (ix_by_health s) k)"
| "posted s (Key_lifecycle k) = set (ix_lookup (ix_by_lifecycle s) k)"
| "posted s (Key_gen k) = set (ix_lookup (ix_by_gen s) k)"
| "posted s (Key_size k) = set (ix_lookup (ix_by_size s) k)"

definition location_keys :: "StateLocation \<Rightarrow> index_key list" where
  "location_keys loc =
     Key_node (loc_node_id loc)
     # (if id_bool (loc_device_id loc) then [Key_device (loc_device_id loc)] else [])
     @ [Key_domain (loc_domain loc)]"

definition record_keys :: "StateRecord \<Rightarrow> index_key list" where
  "record_keys rec =
     [Key_state (rec_state_id rec), Key_kind (rec_kind rec), Key_namespace (rec_namespace_id rec)]
     @ (if id_bool (rec_owner_id rec) then [Key_owner (rec_owner_id rec)] else [])
     @ (if id_bool (rec_producer_id rec) then [Key_producer (rec_producer_id rec)] else [])
     @ (if rec_content_digest rec \<noteq> [] then [Key_digest (rec_content_digest rec)] else [])
     @ (case rec_compatibility rec of None \<Rightarrow> [] | Some c \<Rightarrow> [Key_compat (comp_id c)])
     @ List.map (\<lambda>d. Key_dep_target (dep_target_state d)) (rec_dependencies rec)
     @ concat (List.map location_keys (rec_locations rec))
     @ [Key_fresh (rec_freshness rec), Key_health (rec_health rec), Key_lifecycle (rec_lifecycle rec),
        Key_gen (rec_state_generation rec), Key_size (size_bucket (rec_logical_size rec))]"

definition idx_ok :: "SecondaryIndexes \<Rightarrow> bool" where
  "idx_ok s \<longleftrightarrow>
     posting_ok (ix_by_state s) \<and>
     posting_ok (ix_by_kind s) \<and>
     posting_ok (ix_by_namespace s) \<and>
     posting_ok (ix_by_owner s) \<and>
     posting_ok (ix_by_producer s) \<and>
     posting_ok (ix_by_digest s) \<and>
     posting_ok (ix_by_compat s) \<and>
     posting_ok (ix_by_dep_target s) \<and>
     posting_ok (ix_by_node s) \<and>
     posting_ok (ix_by_device s) \<and>
     posting_ok (ix_by_domain s) \<and>
     posting_ok (ix_by_fresh s) \<and>
     posting_ok (ix_by_health s) \<and>
     posting_ok (ix_by_lifecycle s) \<and>
     posting_ok (ix_by_gen s) \<and>
     posting_ok (ix_by_size s) \<and>
     um_ok (ix_location_owner s)"

lemma insert_locations_frame [simp]:
  "ix_by_state (foldl (insert_location rid) s ls) = ix_by_state s"
  "ix_by_kind (foldl (insert_location rid) s ls) = ix_by_kind s"
  "ix_by_namespace (foldl (insert_location rid) s ls) = ix_by_namespace s"
  "ix_by_owner (foldl (insert_location rid) s ls) = ix_by_owner s"
  "ix_by_producer (foldl (insert_location rid) s ls) = ix_by_producer s"
  "ix_by_digest (foldl (insert_location rid) s ls) = ix_by_digest s"
  "ix_by_compat (foldl (insert_location rid) s ls) = ix_by_compat s"
  "ix_by_dep_target (foldl (insert_location rid) s ls) = ix_by_dep_target s"
  "ix_by_fresh (foldl (insert_location rid) s ls) = ix_by_fresh s"
  "ix_by_health (foldl (insert_location rid) s ls) = ix_by_health s"
  "ix_by_lifecycle (foldl (insert_location rid) s ls) = ix_by_lifecycle s"
  "ix_by_gen (foldl (insert_location rid) s ls) = ix_by_gen s"
  "ix_by_size (foldl (insert_location rid) s ls) = ix_by_size s"
  by (induction ls arbitrary: s) (simp_all add: insert_location_def)

lemma insert_locations_fields:
  "ix_by_node (foldl (insert_location rid) s ls) = foldl (\<lambda>m l. ix_add (loc_node_id l) rid m) (ix_by_node s) ls"
  "ix_by_device (foldl (insert_location rid) s ls) = foldl (\<lambda>m l. ix_add (loc_device_id l) rid m) (ix_by_device s)
     (filter (\<lambda>l. id_bool (loc_device_id l)) ls)"
  "ix_by_domain (foldl (insert_location rid) s ls) = foldl (\<lambda>m l. ix_add (loc_domain l) rid m) (ix_by_domain s) ls"
  by (induction ls arbitrary: s) (simp_all add: insert_location_def)

lemma remove_locations_frame [simp]:
  "ix_by_state (foldl (remove_location_entries rid) s ls) = ix_by_state s"
  "ix_by_kind (foldl (remove_location_entries rid) s ls) = ix_by_kind s"
  "ix_by_namespace (foldl (remove_location_entries rid) s ls) = ix_by_namespace s"
  "ix_by_owner (foldl (remove_location_entries rid) s ls) = ix_by_owner s"
  "ix_by_producer (foldl (remove_location_entries rid) s ls) = ix_by_producer s"
  "ix_by_digest (foldl (remove_location_entries rid) s ls) = ix_by_digest s"
  "ix_by_compat (foldl (remove_location_entries rid) s ls) = ix_by_compat s"
  "ix_by_dep_target (foldl (remove_location_entries rid) s ls) = ix_by_dep_target s"
  "ix_by_fresh (foldl (remove_location_entries rid) s ls) = ix_by_fresh s"
  "ix_by_health (foldl (remove_location_entries rid) s ls) = ix_by_health s"
  "ix_by_lifecycle (foldl (remove_location_entries rid) s ls) = ix_by_lifecycle s"
  "ix_by_gen (foldl (remove_location_entries rid) s ls) = ix_by_gen s"
  "ix_by_size (foldl (remove_location_entries rid) s ls) = ix_by_size s"
  by (induction ls arbitrary: s) (simp_all add: remove_location_entries_def)

lemma remove_locations_fields:
  "ix_by_node (foldl (remove_location_entries rid) s ls) = foldl (\<lambda>m l. ix_rem (loc_node_id l) rid m) (ix_by_node s) ls"
  "ix_by_device (foldl (remove_location_entries rid) s ls) = foldl (\<lambda>m l. ix_rem (loc_device_id l) rid m) (ix_by_device s)
     (filter (\<lambda>l. id_bool (loc_device_id l)) ls)"
  "ix_by_domain (foldl (remove_location_entries rid) s ls) = foldl (\<lambda>m l. ix_rem (loc_domain l) rid m) (ix_by_domain s) ls"
  by (induction ls arbitrary: s) (simp_all add: remove_location_entries_def)

lemma insert_locations_owner:
  "um_find (ix_location_owner (foldl (insert_location rid) s ls)) p
     = (if p \<in> loc_placement_id ` set ls then Some rid else um_find (ix_location_owner s) p)"
  by (induction ls arbitrary: s) (auto simp: insert_location_def)

lemma insert_locations_owner_ok:
  "um_ok (ix_location_owner s) \<Longrightarrow> um_ok (ix_location_owner (foldl (insert_location rid) s ls))"
  by (induction ls arbitrary: s) (simp_all add: insert_location_def)

lemma remove_locations_owner:
  "um_find (ix_location_owner (foldl (remove_location_entries rid) s ls)) p
     = (if p \<in> loc_placement_id ` set ls \<and> um_find (ix_location_owner s) p = Some rid then None
        else um_find (ix_location_owner s) p)"
  by (induction ls arbitrary: s) (auto simp: remove_location_entries_def)

lemma remove_locations_owner_ok:
  "um_ok (ix_location_owner s) \<Longrightarrow> um_ok (ix_location_owner (foldl (remove_location_entries rid) s ls))"
  by (induction ls arbitrary: s) (simp_all add: remove_location_entries_def)

text \<open>What the posting interface gives for an index reached through a record field.\<close>

lemmas posting_simps =
  px.set_add px.set_rem px.set_adds px.set_rems px.inv_add px.inv_rem px.inv_adds px.inv_rems

lemma location_keys_simps:
  "Key_node n \<in> set (location_keys l) \<longleftrightarrow> n = loc_node_id l"
  "Key_device d \<in> set (location_keys l) \<longleftrightarrow> d = loc_device_id l \<and> id_bool d"
  "Key_domain m \<in> set (location_keys l) \<longleftrightarrow> m = loc_domain l"
  by (auto simp: location_keys_def)

lemma record_keys_simps:
  "Key_state k0 \<in> set (record_keys r) \<longleftrightarrow> k0 = rec_state_id r"
  "Key_kind k1 \<in> set (record_keys r) \<longleftrightarrow> k1 = rec_kind r"
  "Key_namespace k2 \<in> set (record_keys r) \<longleftrightarrow> k2 = rec_namespace_id r"
  "Key_owner k3 \<in> set (record_keys r) \<longleftrightarrow> k3 = rec_owner_id r \<and> id_bool k3"
  "Key_producer k4 \<in> set (record_keys r) \<longleftrightarrow> k4 = rec_producer_id r \<and> id_bool k4"
  "Key_digest k5 \<in> set (record_keys r) \<longleftrightarrow> k5 = rec_content_digest r \<and> k5 \<noteq> []"
  "Key_compat k6 \<in> set (record_keys r) \<longleftrightarrow> (\<exists>c. rec_compatibility r = Some c \<and> k6 = comp_id c)"
  "Key_dep_target k7 \<in> set (record_keys r) \<longleftrightarrow> k7 \<in> dep_target_state ` set (rec_dependencies r)"
  "Key_node k8 \<in> set (record_keys r) \<longleftrightarrow> k8 \<in> loc_node_id ` set (rec_locations r)"
  "Key_device k9 \<in> set (record_keys r) \<longleftrightarrow> id_bool k9 \<and> k9 \<in> loc_device_id ` set (rec_locations r)"
  "Key_domain k10 \<in> set (record_keys r) \<longleftrightarrow> k10 \<in> loc_domain ` set (rec_locations r)"
  "Key_fresh k11 \<in> set (record_keys r) \<longleftrightarrow> k11 = rec_freshness r"
  "Key_health k12 \<in> set (record_keys r) \<longleftrightarrow> k12 = rec_health r"
  "Key_lifecycle k13 \<in> set (record_keys r) \<longleftrightarrow> k13 = rec_lifecycle r"
  "Key_gen k14 \<in> set (record_keys r) \<longleftrightarrow> k14 = rec_state_generation r"
  "Key_size k15 \<in> set (record_keys r) \<longleftrightarrow> k15 = size_bucket (rec_logical_size r)"
  by (cases "rec_compatibility r"; auto simp: record_keys_def location_keys_def)+

lemma idx_ok_insert: "idx_ok s \<Longrightarrow> idx_ok (idx_insert rec s)"
  by (simp add: idx_ok_def idx_insert_def Let_def insert_locations_fields posting_simps
      insert_locations_owner_ok split: option.splits)

lemma idx_ok_remove: "idx_ok s \<Longrightarrow> idx_ok (idx_remove rec s)"
  by (simp add: idx_ok_def idx_remove_def Let_def remove_locations_fields posting_simps
      remove_locations_owner_ok split: option.splits)

lemma idx_ok_clear [simp]: "idx_ok idx_clear"
  by (simp add: idx_ok_def idx_clear_def px.inv_empty)

lemma posted_clear [simp]: "posted idx_clear k = {}"
  by (cases k) (simp_all add: idx_clear_def px.lookup_empty)

lemma posted_insert:
  assumes "idx_ok s"
  shows "posted (idx_insert rec s) k
     = posted s k \<union> (if k \<in> set (record_keys rec) then {rec_record_id rec} else {})"
  using assms
  by (cases k)
    (auto simp: record_keys_simps idx_ok_def idx_insert_def Let_def insert_locations_fields posting_simps
      split: option.splits)

lemma posted_remove:
  assumes "idx_ok s"
  shows "posted (idx_remove rec s) k
     = posted s k - (if k \<in> set (record_keys rec) then {rec_record_id rec} else {})"
  using assms
  by (cases k)
    (auto simp: record_keys_simps idx_ok_def idx_remove_def Let_def remove_locations_fields posting_simps
      split: option.splits)

section \<open>Rebuilding\<close>

lemma idx_insert_owner:
  "um_find (ix_location_owner (idx_insert rec s)) p
     = (if p \<in> loc_placement_id ` set (rec_locations rec) then Some (rec_record_id rec)
        else um_find (ix_location_owner s) p)"
  by (simp add: idx_insert_def Let_def insert_locations_owner)

lemma idx_ok_inserts: "idx_ok s \<Longrightarrow> idx_ok (foldl (\<lambda>s rec. idx_insert rec s) s rs)"
  by (induction rs arbitrary: s) (simp_all add: idx_ok_insert)

lemma posted_inserts:
  "idx_ok s \<Longrightarrow> posted (foldl (\<lambda>s rec. idx_insert rec s) s rs) k
     = posted s k \<union> {rec_record_id r | r. r \<in> set rs \<and> k \<in> set (record_keys r)}"
  by (induction rs arbitrary: s) (auto simp: idx_ok_insert posted_insert)

lemma idx_ok_rebuild: "idx_ok (idx_rebuild rs)"
  by (simp add: idx_rebuild_def idx_ok_inserts)

lemma posted_rebuild:
  "posted (idx_rebuild rs) k = {rec_record_id r | r. r \<in> set rs \<and> k \<in> set (record_keys r)}"
  by (simp add: idx_rebuild_def posted_inserts)

lemma inserts_owner:
  assumes "r \<in> set rs" and "p \<in> loc_placement_id ` set (rec_locations r)"
  shows "\<exists>r'\<in>set rs. p \<in> loc_placement_id ` set (rec_locations r') \<and>
    um_find (ix_location_owner (foldl (\<lambda>s rec. idx_insert rec s) s rs)) p = Some (rec_record_id r')"
  using assms
proof (induction rs rule: rev_induct)
  case Nil
  then show ?case by simp
next
  case (snoc x xs)
  show ?case
  proof (cases "p \<in> loc_placement_id ` set (rec_locations x)")
    case True
    then show ?thesis by (simp add: idx_insert_owner)
  next
    case False
    with snoc.prems have "r \<in> set xs" by auto
    from snoc.IH [OF this snoc.prems(2)] False show ?thesis
      by (auto simp: idx_insert_owner)
  qed
qed

section \<open>Verification of the indexes\<close>

definition check_refs :: "StateRecordId list \<Rightarrow> 'k posting \<Rightarrow> string list" where
  "check_refs known idx =
     concat (List.map (\<lambda>(key, ids).
       List.map (\<lambda>i. ''index references unknown record '' @ id_to_string i)
         (filter (\<lambda>i. i \<notin> set known) ids)) idx)"

definition missing_from_required :: "SecondaryIndexes \<Rightarrow> StateRecord \<Rightarrow> bool" where
  "missing_from_required s rec \<longleftrightarrow>
     (let sid = rec_record_id rec in
      sid \<notin> set (ix_lookup (ix_by_state s) (rec_state_id rec)) \<or>
      sid \<notin> set (ix_lookup (ix_by_kind s) (rec_kind rec)) \<or>
      sid \<notin> set (ix_lookup (ix_by_namespace s) (rec_namespace_id rec)) \<or>
      (id_bool (rec_owner_id rec) \<and> sid \<notin> set (ix_lookup (ix_by_owner s) (rec_owner_id rec))) \<or>
      (id_bool (rec_producer_id rec) \<and> sid \<notin> set (ix_lookup (ix_by_producer s) (rec_producer_id rec))) \<or>
      (rec_content_digest rec \<noteq> [] \<and> sid \<notin> set (ix_lookup (ix_by_digest s) (rec_content_digest rec))) \<or>
      (case rec_compatibility rec of None \<Rightarrow> False
       | Some c \<Rightarrow> sid \<notin> set (ix_lookup (ix_by_compat s) (comp_id c))) \<or>
      sid \<notin> set (ix_lookup (ix_by_fresh s) (rec_freshness rec)) \<or>
      sid \<notin> set (ix_lookup (ix_by_health s) (rec_health rec)) \<or>
      sid \<notin> set (ix_lookup (ix_by_lifecycle s) (rec_lifecycle rec)) \<or>
      sid \<notin> set (ix_lookup (ix_by_gen s) (rec_state_generation rec)) \<or>
      sid \<notin> set (ix_lookup (ix_by_size s) (size_bucket (rec_logical_size rec))))"

definition verify_location :: "SecondaryIndexes \<Rightarrow> StateRecordId \<Rightarrow> StateLocation \<Rightarrow> string list" where
  "verify_location s sid loc =
     (if sid \<notin> set (ix_lookup (ix_by_node s) (loc_node_id loc))
      then [''by_node missing '' @ id_to_string sid] else [])
     @ (if id_bool (loc_device_id loc) \<and> sid \<notin> set (ix_lookup (ix_by_device s) (loc_device_id loc))
        then [''by_device missing '' @ id_to_string sid] else [])
     @ (if sid \<notin> set (ix_lookup (ix_by_domain s) (loc_domain loc))
        then [''by_domain missing '' @ id_to_string sid] else [])
     @ (if um_find (ix_location_owner s) (loc_placement_id loc) \<noteq> Some sid
        then [''location_owner mismatch for placement '' @ id_to_string (loc_placement_id loc)] else [])"

definition verify_record :: "SecondaryIndexes \<Rightarrow> StateRecord \<Rightarrow> string list" where
  "verify_record s rec =
     (let sid = rec_record_id rec in
      if missing_from_required s rec
      then [''record '' @ id_to_string sid @ '' missing from a required index'']
      else concat (List.map (\<lambda>d. if sid \<notin> set (ix_lookup (ix_by_dep_target s) (dep_target_state d))
             then [''by_dep_target missing '' @ id_to_string sid] else []) (rec_dependencies rec))
           @ concat (List.map (verify_location s sid) (rec_locations rec)))"

definition idx_verify :: "SecondaryIndexes \<Rightarrow> StateRecord list \<Rightarrow> string list" where
  "idx_verify s canonical =
     (let known = List.map rec_record_id canonical in
      check_refs known (ix_by_state s) @ check_refs known (ix_by_kind s)
       @ check_refs known (ix_by_namespace s) @ check_refs known (ix_by_owner s)
       @ check_refs known (ix_by_producer s) @ check_refs known (ix_by_digest s)
       @ check_refs known (ix_by_compat s) @ check_refs known (ix_by_dep_target s)
       @ check_refs known (ix_by_node s) @ check_refs known (ix_by_device s)
       @ check_refs known (ix_by_domain s) @ check_refs known (ix_by_fresh s)
       @ check_refs known (ix_by_health s) @ check_refs known (ix_by_lifecycle s)
       @ check_refs known (ix_by_gen s) @ check_refs known (ix_by_size s)
      @ concat (List.map (verify_record s) canonical))"

text \<open>What the verification decides: no entry is dangling, every record is posted under each of its
  keys, and each placement is owned by the record that holds it.\<close>

definition idx_sound :: "SecondaryIndexes \<Rightarrow> StateRecordId set \<Rightarrow> bool" where
  "idx_sound s ids \<longleftrightarrow> (\<forall>k. posted s k \<subseteq> ids)"

definition idx_complete :: "SecondaryIndexes \<Rightarrow> StateRecord \<Rightarrow> bool" where
  "idx_complete s r \<longleftrightarrow> (\<forall>k\<in>set (record_keys r). rec_record_id r \<in> posted s k)"

definition idx_owned :: "SecondaryIndexes \<Rightarrow> StateRecord \<Rightarrow> bool" where
  "idx_owned s r \<longleftrightarrow>
     (\<forall>l\<in>set (rec_locations r). um_find (ix_location_owner s) (loc_placement_id l) = Some (rec_record_id r))"

lemma check_refs_Nil:
  assumes "posting_ok m"
  shows "check_refs known m = [] \<longleftrightarrow> (\<forall>k. set (ix_lookup m k) \<subseteq> set known)"
proof -
  have "check_refs known m = [] \<longleftrightarrow> (\<forall>(k, ids)\<in>set m. set ids \<subseteq> set known)"
    by (force simp: check_refs_def filter_empty_conv)
  also have "\<dots> \<longleftrightarrow> (\<forall>k ids. um_find m k = Some ids \<longrightarrow> set ids \<subseteq> set known)"
    using assms um_ok_mem [of m] by (fastforce simp: posting_ok_def)
  also have "\<dots> \<longleftrightarrow> (\<forall>k. set (ix_lookup m k) \<subseteq> set known)"
    unfolding ix_lookup_def
    by (rule all_cong1) (case_tac "um_find m k"; simp)
  finally show ?thesis .
qed

lemma idx_sound_iff:
  "idx_sound s ids \<longleftrightarrow>
     (\<forall>k. set (ix_lookup (ix_by_state s) k) \<subseteq> ids) \<and>
     (\<forall>k. set (ix_lookup (ix_by_kind s) k) \<subseteq> ids) \<and>
     (\<forall>k. set (ix_lookup (ix_by_namespace s) k) \<subseteq> ids) \<and>
     (\<forall>k. set (ix_lookup (ix_by_owner s) k) \<subseteq> ids) \<and>
     (\<forall>k. set (ix_lookup (ix_by_producer s) k) \<subseteq> ids) \<and>
     (\<forall>k. set (ix_lookup (ix_by_digest s) k) \<subseteq> ids) \<and>
     (\<forall>k. set (ix_lookup (ix_by_compat s) k) \<subseteq> ids) \<and>
     (\<forall>k. set (ix_lookup (ix_by_dep_target s) k) \<subseteq> ids) \<and>
     (\<forall>k. set (ix_lookup (ix_by_node s) k) \<subseteq> ids) \<and>
     (\<forall>k. set (ix_lookup (ix_by_device s) k) \<subseteq> ids) \<and>
     (\<forall>k. set (ix_lookup (ix_by_domain s) k) \<subseteq> ids) \<and>
     (\<forall>k. set (ix_lookup (ix_by_fresh s) k) \<subseteq> ids) \<and>
     (\<forall>k. set (ix_lookup (ix_by_health s) k) \<subseteq> ids) \<and>
     (\<forall>k. set (ix_lookup (ix_by_lifecycle s) k) \<subseteq> ids) \<and>
     (\<forall>k. set (ix_lookup (ix_by_gen s) k) \<subseteq> ids) \<and>
     (\<forall>k. set (ix_lookup (ix_by_size s) k) \<subseteq> ids)"
proof -
  have all_keys: "(\<forall>k. P k) \<longleftrightarrow> (\<forall>k. P (Key_state k)) \<and> (\<forall>k. P (Key_kind k)) \<and> (\<forall>k. P (Key_namespace k)) \<and> (\<forall>k. P (Key_owner k)) \<and> (\<forall>k. P (Key_producer k)) \<and> (\<forall>k. P (Key_digest k)) \<and> (\<forall>k. P (Key_compat k)) \<and> (\<forall>k. P (Key_dep_target k)) \<and> (\<forall>k. P (Key_node k)) \<and> (\<forall>k. P (Key_device k)) \<and> (\<forall>k. P (Key_domain k)) \<and> (\<forall>k. P (Key_fresh k)) \<and> (\<forall>k. P (Key_health k)) \<and> (\<forall>k. P (Key_lifecycle k)) \<and> (\<forall>k. P (Key_gen k)) \<and> (\<forall>k. P (Key_size k))" for P
    by (metis index_key.exhaust)
  show ?thesis unfolding idx_sound_def by (subst all_keys) simp
qed

lemma verify_location_Nil:
  "verify_location s rid l = [] \<longleftrightarrow>
     (\<forall>k\<in>set (location_keys l). rid \<in> posted s k) \<and>
     um_find (ix_location_owner s) (loc_placement_id l) = Some rid"
  by (simp add: verify_location_def location_keys_def)

lemma record_keys_required:
  "(\<forall>k\<in>set (record_keys r). rec_record_id r \<in> posted s k) \<longleftrightarrow>
     \<not> missing_from_required s r \<and>
     (\<forall>d\<in>set (rec_dependencies r). rec_record_id r \<in> posted s (Key_dep_target (dep_target_state d))) \<and>
     (\<forall>l\<in>set (rec_locations r). \<forall>k\<in>set (location_keys l). rec_record_id r \<in> posted s k)"
  by (cases "rec_compatibility r"; simp add: record_keys_def missing_from_required_def Let_def ball_Un; argo)

lemma idx_complete_iff:
  "idx_complete s r \<and> idx_owned s r \<longleftrightarrow> verify_record s r = []"
  unfolding idx_complete_def record_keys_required idx_owned_def verify_record_def Let_def
  by (auto simp: verify_location_Nil)

lemma idx_verify_iff:
  assumes "idx_ok s"
  shows "idx_verify s rs = [] \<longleftrightarrow>
    idx_sound s (rec_record_id ` set rs) \<and> (\<forall>r\<in>set rs. idx_complete s r \<and> idx_owned s r)"
  using assms
  unfolding idx_verify_def Let_def idx_complete_iff idx_sound_iff
  by (simp add: idx_ok_def check_refs_Nil)

section \<open>Lookups\<close>

text \<open>The public lookups; \<^verbatim>\<open>by_state\<close> and \<^verbatim>\<open>by_kind\<close> are the two the query planner uses.\<close>

definition by_state :: "SecondaryIndexes \<Rightarrow> StateId \<Rightarrow> StateRecordId list" where
  "by_state s k = ix_lookup (ix_by_state s) k"

definition by_kind :: "SecondaryIndexes \<Rightarrow> StateKind \<Rightarrow> StateRecordId list" where
  "by_kind s k = ix_lookup (ix_by_kind s) k"

definition by_namespace :: "SecondaryIndexes \<Rightarrow> NamespaceId \<Rightarrow> StateRecordId list" where
  "by_namespace s k = ix_lookup (ix_by_namespace s) k"

definition by_owner :: "SecondaryIndexes \<Rightarrow> OwnerId \<Rightarrow> StateRecordId list" where
  "by_owner s k = ix_lookup (ix_by_owner s) k"

definition by_producer :: "SecondaryIndexes \<Rightarrow> ProducerId \<Rightarrow> StateRecordId list" where
  "by_producer s k = ix_lookup (ix_by_producer s) k"

definition by_digest :: "SecondaryIndexes \<Rightarrow> string \<Rightarrow> StateRecordId list" where
  "by_digest s k = ix_lookup (ix_by_digest s) k"

definition by_compat :: "SecondaryIndexes \<Rightarrow> CompatibilityId \<Rightarrow> StateRecordId list" where
  "by_compat s k = ix_lookup (ix_by_compat s) k"

definition by_dep_target :: "SecondaryIndexes \<Rightarrow> StateId \<Rightarrow> StateRecordId list" where
  "by_dep_target s k = ix_lookup (ix_by_dep_target s) k"

definition by_node :: "SecondaryIndexes \<Rightarrow> NodeId \<Rightarrow> StateRecordId list" where
  "by_node s k = ix_lookup (ix_by_node s) k"

definition by_device :: "SecondaryIndexes \<Rightarrow> DeviceId \<Rightarrow> StateRecordId list" where
  "by_device s k = ix_lookup (ix_by_device s) k"

definition by_domain :: "SecondaryIndexes \<Rightarrow> MemoryDomain \<Rightarrow> StateRecordId list" where
  "by_domain s k = ix_lookup (ix_by_domain s) k"

definition by_freshness :: "SecondaryIndexes \<Rightarrow> Freshness \<Rightarrow> StateRecordId list" where
  "by_freshness s k = ix_lookup (ix_by_fresh s) k"

definition by_health :: "SecondaryIndexes \<Rightarrow> Health \<Rightarrow> StateRecordId list" where
  "by_health s k = ix_lookup (ix_by_health s) k"

definition by_lifecycle :: "SecondaryIndexes \<Rightarrow> Lifecycle \<Rightarrow> StateRecordId list" where
  "by_lifecycle s k = ix_lookup (ix_by_lifecycle s) k"

definition by_generation :: "SecondaryIndexes \<Rightarrow> StateGeneration \<Rightarrow> StateRecordId list" where
  "by_generation s k = ix_lookup (ix_by_gen s) k"

definition location_owner :: "SecondaryIndexes \<Rightarrow> PlacementId \<Rightarrow> StateRecordId option" where
  "location_owner s p = um_find (ix_location_owner s) p"

lemma lookups_sorted:
  assumes "idx_ok s"
  shows "sorted (ix_lookup (ix_by_state s) k0) \<and> distinct (ix_lookup (ix_by_state s) k0)"
    and "sorted (ix_lookup (ix_by_kind s) k1) \<and> distinct (ix_lookup (ix_by_kind s) k1)"
  using assms by (simp_all add: idx_ok_def px.lookup_sorted)

section \<open>The index of a record set\<close>

text \<open>An index is exact when it posts each id under precisely the keys of its record.\<close>

definition idx_exact :: "SecondaryIndexes \<Rightarrow> StateRecord set \<Rightarrow> bool" where
  "idx_exact s R \<longleftrightarrow> (\<forall>k. posted s k = {rec_record_id r | r. r \<in> R \<and> k \<in> set (record_keys r)})"

lemma idx_exact_insert:
  assumes "idx_ok s" and "idx_exact s R"
  shows "idx_exact (idx_insert r s) (insert r R)"
  using assms unfolding idx_exact_def by (auto simp: posted_insert)

lemma idx_exact_remove:
  assumes "idx_ok s" and "idx_exact s R" and "r \<in> R"
    and uniq: "\<And>r'. r' \<in> R \<Longrightarrow> rec_record_id r' = rec_record_id r \<Longrightarrow> r' = r"
  shows "idx_exact (idx_remove r s) (R - {r})"
  using assms unfolding idx_exact_def by (auto simp: posted_remove)

lemma idx_exact_rebuild: "idx_exact (idx_rebuild rs) (set rs)"
  by (simp add: idx_exact_def posted_rebuild)

lemma idx_verify_rebuild_iff:
  "idx_verify (idx_rebuild rs) rs = [] \<longleftrightarrow> (\<forall>r\<in>set rs. idx_owned (idx_rebuild rs) r)"
  by (auto simp: idx_verify_iff idx_ok_rebuild idx_sound_def idx_complete_def posted_rebuild)

lemma idx_rebuild_owned:
  assumes disjoint: "\<And>r r' p. r \<in> set rs \<Longrightarrow> r' \<in> set rs \<Longrightarrow>
      p \<in> loc_placement_id ` set (rec_locations r) \<Longrightarrow> p \<in> loc_placement_id ` set (rec_locations r') \<Longrightarrow>
      rec_record_id r = rec_record_id r'"
    and "r \<in> set rs"
  shows "idx_owned (idx_rebuild rs) r"
  unfolding idx_owned_def
proof
  fix l assume "l \<in> set (rec_locations r)"
  then have p: "loc_placement_id l \<in> loc_placement_id ` set (rec_locations r)" by simp
  with inserts_owner [of r "sort_key rec_record_id rs"] \<open>r \<in> set rs\<close> obtain r' where
    "r' \<in> set rs" "loc_placement_id l \<in> loc_placement_id ` set (rec_locations r')"
    "um_find (ix_location_owner (idx_rebuild rs)) (loc_placement_id l) = Some (rec_record_id r')"
    unfolding idx_rebuild_def by (metis set_sort)
  with disjoint [OF \<open>r \<in> set rs\<close> this(1) p] show
    "um_find (ix_location_owner (idx_rebuild rs)) (loc_placement_id l) = Some (rec_record_id r)" by simp
qed

section \<open>Size buckets are base-two logarithms\<close>

lemma size_bucket_loop_log:
  "s \<noteq> 0 \<Longrightarrow> \<exists>d. size_bucket_loop s b = b + of_nat d \<and> 2 ^ d \<le> unat s \<and> unat s < 2 ^ Suc d"
proof (induction s b rule: size_bucket_loop.induct)
  case (1 s b)
  show ?case
  proof (cases "s > 1")
    case True
    then have big: "1 < unat s" by (simp add: word_less_nat_alt)
    have half: "unat (drop_bit 1 s) = unat s div 2" by (simp add: drop_bit_Suc unat_div)
    with big have "drop_bit 1 s \<noteq> 0" by (metis One_nat_def Suc_leI div_greater_zero_iff less_numeral_extra(3) one_add_one plus_1_eq_Suc unat_0 zero_less_numeral)
    from "1.IH" [OF True this] obtain d where
      "size_bucket_loop (drop_bit 1 s) (b + 1) = b + 1 + of_nat d" "2 ^ d \<le> unat s div 2" "unat s div 2 < 2 ^ Suc d"
      using half by auto
    with True show ?thesis
      by (intro exI [where x = "Suc d"]) (simp add: size_bucket_loop.simps [of s] algebra_simps, linarith)
  next
    case False
    with "1.prems" have "unat s = 1"
      by (metis One_nat_def Suc_lessI linorder_not_le not_less_eq unat_1 unat_gt_0 word_less_nat_alt)
    with False show ?thesis by (intro exI [where x = 0]) (simp add: size_bucket_loop.simps [of s])
  qed
qed

lemma size_bucket_log:
  assumes "s \<noteq> 0"
  shows "2 ^ unat (size_bucket s) \<le> unat s \<and> unat s < 2 ^ Suc (unat (size_bucket s))"
proof -
  obtain d where d: "size_bucket s = of_nat d" "2 ^ d \<le> unat s" "unat s < 2 ^ Suc d"
    using size_bucket_loop_log [OF assms, of 0] assms by (auto simp: size_bucket_def)
  have "(2::nat) ^ d < 2 ^ 64" using d(2) unsigned_less [of s, where ?'a = nat] by simp
  then have "d < 64" by (rule power_less_imp_less_exp [rotated]) simp
  then have "unat (of_nat d :: u32) = d" by (simp add: unat_of_nat)
  with d show ?thesis by simp
qed

end
