(* ===== verification/Accounting.thy ===== *)
theory Accounting
  imports Bytebuf
begin

text \<open>
  \<^verbatim>\<open>include/stateindex/accounting.hpp\<close>: the counters, their byte form and their summary text.
  Every counter is a \<^verbatim>\<open>std::uint64_t\<close>, so \<^verbatim>\<open>++\<close> and \<^verbatim>\<open>--\<close> wrap.
\<close>

record Accounting =
  acc_logical_states :: u64
  acc_current_states :: u64
  acc_historical_records :: u64
  acc_locations :: u64
  acc_replicas :: u64
  acc_cuda_locations :: u64
  acc_host_locations :: u64
  acc_storage_locations :: u64
  acc_invalidations :: u64
  acc_tombstones :: u64
  acc_dependencies :: u64
  acc_exact_queries :: u64
  acc_predicate_queries :: u64
  acc_query_hits :: u64
  acc_query_misses :: u64
  acc_stale_only_outcomes :: u64
  acc_incompatible_only_outcomes :: u64
  acc_stale_mutation_rejections :: u64
  acc_duplicate_mutation_rejections :: u64
  acc_worker_restarts :: u64

definition Accounting_serialize :: "Accounting \<Rightarrow> bytes" where
  "Accounting_serialize a =
     push_u64 (acc_logical_states a)
     @ push_u64 (acc_current_states a)
     @ push_u64 (acc_historical_records a)
     @ push_u64 (acc_locations a)
     @ push_u64 (acc_replicas a)
     @ push_u64 (acc_cuda_locations a)
     @ push_u64 (acc_host_locations a)
     @ push_u64 (acc_storage_locations a)
     @ push_u64 (acc_invalidations a)
     @ push_u64 (acc_tombstones a)
     @ push_u64 (acc_dependencies a)
     @ push_u64 (acc_exact_queries a)
     @ push_u64 (acc_predicate_queries a)
     @ push_u64 (acc_query_hits a)
     @ push_u64 (acc_query_misses a)
     @ push_u64 (acc_stale_only_outcomes a)
     @ push_u64 (acc_incompatible_only_outcomes a)
     @ push_u64 (acc_stale_mutation_rejections a)
     @ push_u64 (acc_duplicate_mutation_rejections a)
     @ push_u64 (acc_worker_restarts a)"

definition Accounting_deserialize :: "Accounting parser" where
  "Accounting_deserialize =
     bindr read_u64 (\<lambda>logical_states'.
     bindr read_u64 (\<lambda>current_states'.
     bindr read_u64 (\<lambda>historical_records'.
     bindr read_u64 (\<lambda>locations'.
     bindr read_u64 (\<lambda>replicas'.
     bindr read_u64 (\<lambda>cuda_locations'.
     bindr read_u64 (\<lambda>host_locations'.
     bindr read_u64 (\<lambda>storage_locations'.
     bindr read_u64 (\<lambda>invalidations'.
     bindr read_u64 (\<lambda>tombstones'.
     bindr read_u64 (\<lambda>dependencies'.
     bindr read_u64 (\<lambda>exact_queries'.
     bindr read_u64 (\<lambda>predicate_queries'.
     bindr read_u64 (\<lambda>query_hits'.
     bindr read_u64 (\<lambda>query_misses'.
     bindr read_u64 (\<lambda>stale_only_outcomes'.
     bindr read_u64 (\<lambda>incompatible_only_outcomes'.
     bindr read_u64 (\<lambda>stale_mutation_rejections'.
     bindr read_u64 (\<lambda>duplicate_mutation_rejections'.
     bindr read_u64 (\<lambda>worker_restarts'.
     ret \<lparr>acc_logical_states = logical_states',
       acc_current_states = current_states',
       acc_historical_records = historical_records',
       acc_locations = locations',
       acc_replicas = replicas',
       acc_cuda_locations = cuda_locations',
       acc_host_locations = host_locations',
       acc_storage_locations = storage_locations',
       acc_invalidations = invalidations',
       acc_tombstones = tombstones',
       acc_dependencies = dependencies',
       acc_exact_queries = exact_queries',
       acc_predicate_queries = predicate_queries',
       acc_query_hits = query_hits',
       acc_query_misses = query_misses',
       acc_stale_only_outcomes = stale_only_outcomes',
       acc_incompatible_only_outcomes = incompatible_only_outcomes',
       acc_stale_mutation_rejections = stale_mutation_rejections',
       acc_duplicate_mutation_rejections = duplicate_mutation_rejections',
       acc_worker_restarts = worker_restarts'\<rparr>))))))))))))))))))))"

definition Accounting_valid :: "Accounting \<Rightarrow> bool" where
  "Accounting_valid a \<longleftrightarrow> True"

lemma decodes_Accounting [codec_intro]: "Accounting_valid a \<Longrightarrow> decodes Accounting_deserialize (Accounting_serialize a) a"
  unfolding Accounting_serialize_def Accounting_deserialize_def
  by (rule decodes_nilI, simp only: append_assoc)
    ((rule codec_intro | fastforce simp: Accounting_valid_def option.pred_set)+)

lemma safe_Accounting [safe_intro]: "safe Accounting_deserialize"
  unfolding Accounting_deserialize_def by (intro safe_intro)

interpretation accounting_codec: codec Accounting_serialize Accounting_deserialize Accounting_valid
  by unfold_locales (auto intro: codec_intro safe_intro)

definition no_accounting :: Accounting where
  "no_accounting = \<lparr>acc_logical_states = 0, acc_current_states = 0, acc_historical_records = 0, acc_locations = 0, acc_replicas = 0, acc_cuda_locations = 0, acc_host_locations = 0, acc_storage_locations = 0, acc_invalidations = 0, acc_tombstones = 0, acc_dependencies = 0, acc_exact_queries = 0, acc_predicate_queries = 0, acc_query_hits = 0, acc_query_misses = 0, acc_stale_only_outcomes = 0, acc_incompatible_only_outcomes = 0, acc_stale_mutation_rejections = 0, acc_duplicate_mutation_rejections = 0, acc_worker_restarts = 0\<rparr>"

text \<open>The guarded decrement.\<close>

definition acc_dec :: "u64 \<Rightarrow> string \<Rightarrow> exn + u64" where
  "acc_dec counter name =
     (if counter = 0
      then Inl (runtime_error (''accounting: attempted to decrement zero counter: '' @ name))
      else Inr (counter - 1))"

definition acc_summary :: "Accounting \<Rightarrow> string" where
  "acc_summary a =
     ''logical_states='' @ std_to_string (acc_logical_states a)
     @ '' current_states='' @ std_to_string (acc_current_states a)
     @ '' historical_records='' @ std_to_string (acc_historical_records a)
     @ '' locations='' @ std_to_string (acc_locations a)
     @ '' replicas='' @ std_to_string (acc_replicas a)
     @ '' cuda_locations='' @ std_to_string (acc_cuda_locations a)
     @ '' host_locations='' @ std_to_string (acc_host_locations a)
     @ '' storage_locations='' @ std_to_string (acc_storage_locations a)
     @ '' invalidations='' @ std_to_string (acc_invalidations a)
     @ '' tombstones='' @ std_to_string (acc_tombstones a)
     @ '' dependencies='' @ std_to_string (acc_dependencies a)
     @ '' exact_queries='' @ std_to_string (acc_exact_queries a)
     @ '' predicate_queries='' @ std_to_string (acc_predicate_queries a)
     @ '' query_hits='' @ std_to_string (acc_query_hits a)
     @ '' query_misses='' @ std_to_string (acc_query_misses a)
     @ '' stale_only='' @ std_to_string (acc_stale_only_outcomes a)
     @ '' incompatible_only='' @ std_to_string (acc_incompatible_only_outcomes a)
     @ '' stale_mutation_rejections='' @ std_to_string (acc_stale_mutation_rejections a)
     @ '' duplicate_mutation_rejections='' @ std_to_string (acc_duplicate_mutation_rejections a)
     @ '' worker_restarts='' @ std_to_string (acc_worker_restarts a)"

end
