(* ===== verification/Engine.thy ===== *)
theory Engine
  imports Index Invalidation Accounting Authority
begin

text \<open>
  \<^verbatim>\<open>include/stateindex/engine.hpp\<close> and the mutating half of \<^verbatim>\<open>src/engine.cpp\<close>: the record
  set with its current, historical and tombstoned views, and the five mutations. A method is
  a function from the engine to its verdict and the engine it leaves; the lock at each public
  method makes every method one atomic step. \<^verbatim>\<open>++accounting_.x\<close> is
  \<open>bump acc_x_update\<close>, wrapping at 64 bits.
\<close>

section \<open>State\<close>

record StateIndexEngine =
  eng_authority :: AuthorityRegistry
  eng_indexes :: SecondaryIndexes
  eng_accounting :: Accounting
  eng_records :: "(StateRecordId, StateRecord) umap"
  eng_current :: "(StateId, StateRecordId) umap"
  eng_history :: "(StateId, StateRecordId list) umap"
  eng_invalidations :: "InvalidationRecord list"
  eng_tombstones :: "(StateId, TombstoneRecord) umap"
  eng_invalidation_seq :: u64
  eng_historical_mode :: bool

definition new_engine :: "CoordinatorEpoch \<Rightarrow> StateIndexEngine" where
  "new_engine epoch = \<lparr>eng_authority = new_authority epoch, eng_indexes = idx_clear,
     eng_accounting = no_accounting, eng_records = [], eng_current = [], eng_history = [],
     eng_invalidations = [], eng_tombstones = [], eng_invalidation_seq = 0,
     eng_historical_mode = False\<rparr>"

definition register_worker :: "WorkerId \<Rightarrow> WorkerBootId \<Rightarrow> StateIndexEngine \<Rightarrow> StateIndexEngine" where
  "register_worker w b e = e\<lparr>eng_authority := auth_register_worker w b (eng_authority e)\<rparr>"

definition unregister_worker :: "WorkerBootId \<Rightarrow> StateIndexEngine \<Rightarrow> StateIndexEngine" where
  "unregister_worker b e = e\<lparr>eng_authority := auth_unregister_worker b (eng_authority e)\<rparr>"

definition advance_epoch :: "StateIndexEngine \<Rightarrow> StateIndexEngine" where
  "advance_epoch e = e\<lparr>eng_authority := auth_advance_epoch (eng_authority e)\<rparr>"

definition bump :: "((u64 \<Rightarrow> u64) \<Rightarrow> Accounting \<Rightarrow> Accounting) \<Rightarrow> StateIndexEngine \<Rightarrow> StateIndexEngine" where
  "bump counter e = e\<lparr>eng_accounting := counter (\<lambda>n. n + 1) (eng_accounting e)\<rparr>"

section \<open>Inspection\<close>

definition get_record :: "StateIndexEngine \<Rightarrow> StateRecordId \<Rightarrow> StateRecord option" where
  "get_record e rid = um_find (eng_records e) rid"

definition canonical_records :: "StateIndexEngine \<Rightarrow> StateRecord list" where
  "canonical_records e = sort_key rec_record_id (um_values (eng_records e))"

definition find_state :: "StateIndexEngine \<Rightarrow> StateId \<Rightarrow> StateRecord option" where
  "find_state e st =
     (case um_find (eng_current e) st of None \<Rightarrow> None | Some rid \<Rightarrow> get_record e rid)"

definition is_tombstoned :: "StateIndexEngine \<Rightarrow> StateId \<Rightarrow> StateGeneration \<Rightarrow> bool" where
  "is_tombstoned e st g =
     (case um_find (eng_tombstones e) st of None \<Rightarrow> False | Some t \<Rightarrow> covers t g)"

fun deps_satisfied :: "StateIndexEngine \<Rightarrow> DependencyRef list \<Rightarrow> bool" where
  "deps_satisfied e [] = True"
| "deps_satisfied e (dep # deps) =
     (if \<not> dep_required dep then deps_satisfied e deps
      else case find_state e (dep_target_state dep) of
        None \<Rightarrow> False
      | Some target \<Rightarrow>
          if rec_state_generation target < dep_required_generation dep then False
          else if rec_lifecycle target = Lifecycle_INVALIDATED \<or> rec_lifecycle target = Lifecycle_TOMBSTONED
          then False
          else deps_satisfied e deps)"

definition dep_satisfied :: "StateIndexEngine \<Rightarrow> StateRecord \<Rightarrow> bool" where
  "dep_satisfied e rec = deps_satisfied e (rec_dependencies rec)"

definition history_ids :: "StateIndexEngine \<Rightarrow> StateId \<Rightarrow> StateRecordId list" where
  "history_ids e st = (case um_find (eng_history e) st of None \<Rightarrow> [] | Some ids \<Rightarrow> ids)"

text \<open>The reference \<^verbatim>\<open>history_[st]\<close>, which inserts an empty vector where there is none.\<close>

definition touch_history :: "StateId \<Rightarrow> StateIndexEngine \<Rightarrow> StateIndexEngine" where
  "touch_history st e = e\<lparr>eng_history := um_put st (history_ids e st) (eng_history e)\<rparr>"

text \<open>The records of a state, newest generation first; equal generations keep the order of the
  history vector, which \<^verbatim>\<open>std::sort\<close> leaves open.\<close>

definition history_of :: "StateIndexEngine \<Rightarrow> StateId \<Rightarrow> StateRecord list" where
  "history_of e st =
     sort_key (\<lambda>r. - uint (gen_value (rec_state_generation r)))
       (List.map_filter (get_record e) (history_ids e st))"

definition locations_of :: "StateIndexEngine \<Rightarrow> StateId \<Rightarrow> StateLocation list" where
  "locations_of e st = (case find_state e st of None \<Rightarrow> [] | Some r \<Rightarrow> rec_locations r)"

definition dependencies_of :: "StateIndexEngine \<Rightarrow> StateId \<Rightarrow> string list" where
  "dependencies_of e st =
     (case find_state e st of None \<Rightarrow> []
      | Some r \<Rightarrow> List.map (\<lambda>d. ''dep:'' @ id_to_string (dep_target_state d)
          @ '' gen='' @ gen_to_string (dep_required_generation d)
          @ (if dep_required d then '' required'' else '' optional'')) (rec_dependencies r))"

section \<open>Updates the mutations share\<close>

text \<open>\<^verbatim>\<open>indexes_.remove(u); records_[u.record_id] = u; indexes_.insert(u);\<close>\<close>

definition replace_record :: "StateRecord \<Rightarrow> StateIndexEngine \<Rightarrow> StateIndexEngine" where
  "replace_record u e =
     e\<lparr>eng_indexes := idx_insert u (idx_remove u (eng_indexes e)),
       eng_records := um_put (rec_record_id u) u (eng_records e)\<rparr>"

text \<open>A record's new lifecycle, with the historical flag set and the digest recomputed.\<close>

definition retire :: "Lifecycle \<Rightarrow> StateRecord \<Rightarrow> StateRecord" where
  "retire lc r = redigest (r\<lparr>rec_lifecycle := lc, rec_is_historical := True\<rparr>)"

definition set_authority_of :: "StateRecord \<Rightarrow> StateIndexEngine \<Rightarrow> StateIndexEngine" where
  "set_authority_of rec e =
     e\<lparr>eng_authority := set_current_authority (rec_state_id rec) (rec_state_generation rec)
         (rec_authority_boot rec) (eng_authority e)\<rparr>"

definition make_current :: "StateRecord \<Rightarrow> StateIndexEngine \<Rightarrow> StateIndexEngine" where
  "make_current rec e =
     set_authority_of rec (e\<lparr>eng_current := um_put (rec_state_id rec) (rec_record_id rec) (eng_current e)\<rparr>)"

definition clear_current :: "StateId \<Rightarrow> StateIndexEngine \<Rightarrow> StateIndexEngine" where
  "clear_current st e =
     e\<lparr>eng_current := um_erase st (eng_current e),
       eng_authority := clear_current_authority st (eng_authority e)\<rparr>"

definition push_history :: "StateRecord \<Rightarrow> StateIndexEngine \<Rightarrow> StateIndexEngine" where
  "push_history rec e =
     e\<lparr>eng_history := um_put (rec_state_id rec)
         (history_ids e (rec_state_id rec) @ [rec_record_id rec]) (eng_history e)\<rparr>"

definition set_current :: "StateRecord \<Rightarrow> StateIndexEngine \<Rightarrow> StateIndexEngine" where
  "set_current rec e =
     (let cit = um_find (eng_current e) (rec_state_id rec) in
      if cit = Some (rec_record_id rec) then set_authority_of rec e
      else
        let e1 = push_history rec e in
        case cit of
          None \<Rightarrow> make_current rec e1
        | Some old_id \<Rightarrow>
            (case get_record e1 old_id of
               None \<Rightarrow> e1
             | Some old \<Rightarrow>
                 if rec_state_generation old < rec_state_generation rec
                 then make_current rec (replace_record (retire Lifecycle_SUPERSEDED old) e1)
                 else e1))"

section \<open>Registration\<close>

definition count_location :: "StateIndexEngine \<Rightarrow> StateLocation \<Rightarrow> StateIndexEngine" where
  "count_location e loc =
     (let d = loc_domain loc;
          e1 = bump acc_replicas_update (bump acc_locations_update e);
          e2 = (if d = MemoryDomain_CUDA_DEVICE then bump acc_cuda_locations_update e1 else e1);
          e3 = (if d = MemoryDomain_HOST_MEMORY \<or> d = MemoryDomain_HOST_PINNED
                then bump acc_host_locations_update e2 else e2)
      in if d = MemoryDomain_LOCAL_FILESYSTEM \<or> d = MemoryDomain_LOCAL_NVME_CLASS \<or>
            d = MemoryDomain_SHARED_FILESYSTEM_CLASS \<or> d = MemoryDomain_OBJECT_STORAGE_CLASS
         then bump acc_storage_locations_update e3 else e3)"

definition count_record :: "StateRecord \<Rightarrow> StateIndexEngine \<Rightarrow> StateIndexEngine" where
  "count_record rec e =
     (let e1 = bump acc_current_states_update (bump acc_logical_states_update e);
          e2 = foldl (\<lambda>e dep. bump acc_dependencies_update e) e1 (rec_dependencies rec)
      in foldl count_location e2 (rec_locations rec))"

text \<open>The fields of a published record that its envelope decides.\<close>

definition stamp :: "MutationEnvelope \<Rightarrow> StateRecord \<Rightarrow> StateRecord" where
  "stamp env rec =
     (redigest (rec\<lparr>rec_authority_epoch := env_coordinator_epoch env,
        rec_authority_boot := env_worker_boot env,
        rec_record_generation := (if is_set (env_record_generation env)
          then env_record_generation env else rec_record_generation rec)\<rparr>))
     \<lparr>rec_is_historical := False\<rparr>"

definition register_state ::
    "StateRecord \<Rightarrow> MutationEnvelope \<Rightarrow> StateIndexEngine \<Rightarrow> MutationVerdictDetail \<times> StateIndexEngine" where
  "register_state rec env e =
    (let verdict = validate_state_publication (eng_authority e) (rec_state_id rec) env (rec_state_generation rec) in
     if mvd_verdict verdict \<noteq> MutationVerdict_ACCEPTED then
       (verdict, if mvd_verdict verdict = MutationVerdict_REJECTED_DUPLICATE
                 then bump acc_duplicate_mutation_rejections_update e
                 else bump acc_stale_mutation_rejections_update e)
     else if um_find (eng_records e) (rec_record_id rec) \<noteq> None then
       (verdict_detail MutationVerdict_REJECTED_DUPLICATE
          (''record id '' @ id_to_string (rec_record_id rec) @ '' already exists''),
        bump acc_duplicate_mutation_rejections_update e)
     else if \<not> is_set (rec_state_generation rec) then
       (verdict_detail MutationVerdict_REJECTED_GENERATION_REGRESSION ''state generation is unset'',
        bump acc_stale_mutation_rejections_update e)
     else if is_tombstoned e (rec_state_id rec) (rec_state_generation rec) then
       (verdict_detail MutationVerdict_REJECTED_TOMBSTONED
          (''tombstone floor covers generation '' @ gen_to_string (rec_state_generation rec)
           @ '' of state '' @ id_to_string (rec_state_id rec)),
        bump acc_stale_mutation_rejections_update e)
     else
       let rec' = stamp env rec;
           e1 = e\<lparr>eng_records := um_put (rec_record_id rec') rec' (eng_records e),
                  eng_indexes := idx_insert rec' (eng_indexes e)\<rparr>
       in (verdict_detail MutationVerdict_ACCEPTED
             (''registered state '' @ id_to_string (rec_state_id rec')
              @ '' generation '' @ gen_to_string (rec_state_generation rec')),
           count_record rec' (set_current rec' e1)))"

section \<open>Locations\<close>

text \<open>The two guards every other mutation starts with.\<close>

definition guard_authority :: "MutationEnvelope \<Rightarrow> StateIndexEngine \<Rightarrow> MutationVerdictDetail option" where
  "guard_authority env e =
     (if env_coordinator_epoch env \<noteq> auth_epoch (eng_authority e) then
        Some (verdict_detail MutationVerdict_REJECTED_STALE_EPOCH ''stale coordinator epoch'')
      else if \<not> is_live (eng_authority e) (env_worker_boot env) then
        Some (verdict_detail MutationVerdict_REJECTED_STALE_BOOT ''worker boot is not live'')
      else None)"

definition stamp_location :: "MutationEnvelope \<Rightarrow> StateLocation \<Rightarrow> StateLocation" where
  "stamp_location env loc =
     loc\<lparr>loc_authority_epoch := env_coordinator_epoch env,
         loc_authority_boot := env_worker_boot env,
         loc_provenance_generation := (if is_set (env_provenance_generation env)
           then env_provenance_generation env else loc_provenance_generation loc)\<rparr>"

definition same_placement :: "PlacementId \<Rightarrow> StateLocation \<Rightarrow> bool" where
  "same_placement p l \<longleftrightarrow> loc_placement_id l = p"

definition with_locations :: "StateLocation list \<Rightarrow> StateRecord \<Rightarrow> StateRecord" where
  "with_locations locs r = redigest (r\<lparr>rec_locations := locs\<rparr>)"

text \<open>The loop over \<^verbatim>\<open>locs\<close>: every entry of the placement is overwritten and counted.\<close>

definition put_location :: "StateLocation \<Rightarrow> StateLocation list \<Rightarrow> StateLocation list" where
  "put_location loc locs =
     (if list_ex (same_placement (loc_placement_id loc)) locs
      then List.map (\<lambda>l. if same_placement (loc_placement_id loc) l then loc else l) locs
      else locs @ [loc])"

definition count_put_location ::
    "StateLocation \<Rightarrow> StateLocation list \<Rightarrow> StateIndexEngine \<Rightarrow> StateIndexEngine" where
  "count_put_location loc locs e =
     (if list_ex (same_placement (loc_placement_id loc)) locs
      then foldl (\<lambda>e l. if same_placement (loc_placement_id loc) l then bump acc_locations_update e else e) e locs
      else bump acc_replicas_update (bump acc_locations_update e))"

definition add_location ::
    "StateId \<Rightarrow> StateLocation \<Rightarrow> MutationEnvelope \<Rightarrow> StateIndexEngine \<Rightarrow> MutationVerdictDetail \<times> StateIndexEngine" where
  "add_location st loc env e =
    (case guard_authority env e of Some v \<Rightarrow> (v, e) | None \<Rightarrow>
     case find_state e st of
       None \<Rightarrow> (verdict_detail MutationVerdict_REJECTED_NOT_LIVE ''state not found'', e)
     | Some rec \<Rightarrow>
         if list_ex (\<lambda>existing. same_placement (loc_placement_id loc) existing \<and>
              is_set (env_location_generation env) \<and>
              \<not> (loc_location_generation loc > loc_location_generation existing)) (rec_locations rec)
         then (verdict_detail MutationVerdict_REJECTED_GENERATION_REGRESSION
                 (''location generation not monotonic for placement '' @ id_to_string (loc_placement_id loc)), e)
         else
           let loc' = stamp_location env loc;
               updated = with_locations (put_location loc' (rec_locations rec)) rec
           in (verdict_detail MutationVerdict_ACCEPTED
                 (''added location '' @ id_to_string (loc_placement_id loc') @ '' to '' @ id_to_string st),
               replace_record updated (count_put_location loc' (rec_locations rec) e)))"

definition remove_location ::
    "StateId \<Rightarrow> PlacementId \<Rightarrow> MutationEnvelope \<Rightarrow> StateIndexEngine \<Rightarrow> MutationVerdictDetail \<times> StateIndexEngine" where
  "remove_location st p env e =
    (case guard_authority env e of Some v \<Rightarrow> (v, e) | None \<Rightarrow>
     case find_state e st of
       None \<Rightarrow> (verdict_detail MutationVerdict_REJECTED_NOT_LIVE ''state not found'', e)
     | Some rec \<Rightarrow>
         if \<not> list_ex (same_placement p) (rec_locations rec)
         then (verdict_detail MutationVerdict_ACCEPTED
                 (''location '' @ id_to_string p @ '' was already absent''), e)
         else
           let e1 = replace_record
                 (with_locations (filter (\<lambda>l. \<not> same_placement p l) (rec_locations rec)) rec) e
           in (verdict_detail MutationVerdict_ACCEPTED
                 (''removed location '' @ id_to_string p @ '' from '' @ id_to_string st),
               e1\<lparr>eng_accounting := acc_locations_update (\<lambda>n. n - 1) (eng_accounting e1)\<rparr>))"

section \<open>Invalidation\<close>

text \<open>One round of the loop over the history snapshot.\<close>

definition invalidate_entry ::
    "StateGeneration \<Rightarrow> bool \<times> StateIndexEngine \<Rightarrow> StateRecord \<Rightarrow> bool \<times> StateIndexEngine" where
  "invalidate_entry bound ce r =
     (if rec_state_generation r \<le> bound \<and> rec_lifecycle r \<noteq> Lifecycle_INVALIDATED then
        case get_record (snd ce) (rec_record_id r) of
          None \<Rightarrow> ce
        | Some sr \<Rightarrow> (True, replace_record (retire Lifecycle_INVALIDATED sr) (snd ce))
      else ce)"

definition eligible :: "StateRecord \<Rightarrow> bool" where
  "eligible r \<longleftrightarrow> rec_lifecycle r = Lifecycle_AVAILABLE \<or> rec_lifecycle r = Lifecycle_DEGRADED \<or>
     rec_lifecycle r = Lifecycle_DISCOVERED"

definition better_candidate ::
    "StateIndexEngine \<Rightarrow> StateGeneration \<Rightarrow> StateRecord option \<Rightarrow> StateRecordId \<Rightarrow> StateRecord option" where
  "better_candidate e bound best rid =
     (case get_record e rid of
        None \<Rightarrow> best
      | Some cand \<Rightarrow>
          if \<not> eligible cand \<or> is_tombstoned e (rec_state_id cand) (rec_state_generation cand) then best
          else if rec_state_generation cand \<le> bound then best
          else case best of
            None \<Rightarrow> Some cand
          | Some b \<Rightarrow> if rec_state_generation cand > rec_state_generation b then Some cand else best)"

definition stamp_invalidation :: "u64 \<Rightarrow> MutationEnvelope \<Rightarrow> InvalidationRecord \<Rightarrow> InvalidationRecord" where
  "stamp_invalidation seq env i =
     i\<lparr>inv_invalidation_seq := seq,
       inv_coordinator_epoch := env_coordinator_epoch env,
       inv_worker_boot := env_worker_boot env,
       inv_record_generation := (if is_set (env_record_generation env)
         then env_record_generation env else inv_record_generation i)\<rparr>"

definition promote :: "StateId \<Rightarrow> StateGeneration \<Rightarrow> StateIndexEngine \<Rightarrow> StateIndexEngine" where
  "promote st bound e =
     (let e1 = touch_history st e in
      case foldl (better_candidate e1 bound) None (history_ids e1 st) of
        Some best \<Rightarrow>
          let e2 = bump acc_current_states_update
                (e1\<lparr>eng_current := um_put st (rec_record_id best) (eng_current e1)\<rparr>)
          in e2\<lparr>eng_authority := set_current_authority st (rec_state_generation best)
                (rec_authority_boot best) (eng_authority e2)\<rparr>
      | None \<Rightarrow> clear_current st e1)"

definition invalidate ::
    "InvalidationRecord \<Rightarrow> MutationEnvelope \<Rightarrow> StateIndexEngine \<Rightarrow> MutationVerdictDetail \<times> StateIndexEngine" where
  "invalidate i env e =
    (case guard_authority env e of Some v \<Rightarrow> (v, e) | None \<Rightarrow>
     let st = inv_state_id i; bound = inv_bound_generation i; rec = find_state e st in
     if (case rec of None \<Rightarrow> False | Some r \<Rightarrow> rec_state_generation r > bound) then
       (verdict_detail MutationVerdict_REJECTED_NON_MONOTONIC
          (''invalidation bound '' @ gen_to_string bound @ '' is below current generation ''
           @ gen_to_string (rec_state_generation (the rec))), e)
     else
       let seq = eng_invalidation_seq e + 1;
           e1 = bump acc_invalidations_update
             (e\<lparr>eng_invalidation_seq := seq,
                eng_invalidations := eng_invalidations e @ [stamp_invalidation seq env i]\<rparr>);
           (changed, e2) = foldl (invalidate_entry bound) (False, e1) (history_of e1 st)
       in (verdict_detail MutationVerdict_ACCEPTED
             (''invalidated state '' @ id_to_string st @ '' through generation '' @ gen_to_string bound),
           if changed \<or> rec \<noteq> None then promote st bound e2 else e2))"

section \<open>Tombstones\<close>

definition tombstone_entry :: "StateGeneration \<Rightarrow> StateIndexEngine \<Rightarrow> StateRecordId \<Rightarrow> StateIndexEngine" where
  "tombstone_entry floor' e rid =
     (case get_record e rid of
        None \<Rightarrow> e
      | Some rec \<Rightarrow>
          if rec_state_generation rec \<le> floor' \<and> rec_lifecycle rec \<noteq> Lifecycle_TOMBSTONED
          then replace_record (retire Lifecycle_TOMBSTONED rec) e else e)"

text \<open>The code dereferences the current record without a test; \<open>engine_inv\<close> of the theory
  \<^verbatim>\<open>EngineInv\<close> shows that it is there, so the branch for a missing one is never taken.\<close>

definition drop_tombstoned_current :: "StateId \<Rightarrow> StateIndexEngine \<Rightarrow> StateIndexEngine" where
  "drop_tombstoned_current st e =
     (case um_find (eng_current e) st of
        None \<Rightarrow> e
      | Some rid \<Rightarrow>
          (case get_record e rid of
             None \<Rightarrow> e
           | Some r \<Rightarrow> if is_tombstoned e st (rec_state_generation r) then clear_current st e else e))"

definition tombstone_accept ::
    "StateId \<Rightarrow> TombstoneRecord \<Rightarrow> StateIndexEngine \<Rightarrow> MutationVerdictDetail \<times> StateIndexEngine" where
  "tombstone_accept st t e =
     (let floor' = tomb_floor_generation t;
          e1 = bump acc_tombstones_update
            (e\<lparr>eng_tombstones := um_put st t (eng_tombstones e),
               eng_authority := set_tombstone_floor st floor' (eng_authority e)\<rparr>);
          e2 = touch_history st e1;
          e3 = foldl (tombstone_entry floor') e2 (history_ids e2 st)
      in (verdict_detail MutationVerdict_ACCEPTED
            (''tombstoned state '' @ id_to_string st @ '' through generation '' @ gen_to_string floor'),
          drop_tombstoned_current st e3))"

definition tombstone ::
    "TombstoneRecord \<Rightarrow> MutationEnvelope \<Rightarrow> StateIndexEngine \<Rightarrow> MutationVerdictDetail \<times> StateIndexEngine" where
  "tombstone t env e =
    (case guard_authority env e of Some v \<Rightarrow> (v, e) | None \<Rightarrow>
     let st = tomb_state_id t;
         t2 = t\<lparr>tomb_coordinator_epoch := env_coordinator_epoch env, tomb_worker_boot := env_worker_boot env\<rparr>;
         floor' = tomb_floor_generation t2
     in case um_find (eng_tombstones e) st of
       Some t0 \<Rightarrow>
         if tomb_floor_generation t0 \<ge> floor' then
           (verdict_detail MutationVerdict_REJECTED_STALE_BOOT
              (''existing tombstone floor '' @ gen_to_string (tomb_floor_generation t0)
               @ '' already covers '' @ gen_to_string floor'), e)
         else tombstone_accept st t2 e
     | None \<Rightarrow> tombstone_accept st t2 e)"

section \<open>Recomputing the current records\<close>

definition terminal_lifecycle :: "Lifecycle \<Rightarrow> bool" where
  "terminal_lifecycle l \<longleftrightarrow>
     l = Lifecycle_INVALIDATED \<or> l = Lifecycle_TOMBSTONED \<or> l = Lifecycle_SUPERSEDED"

definition recompute_step ::
    "StateIndexEngine \<Rightarrow> (StateId, StateGeneration) umap \<times> (StateId, StateRecordId) umap
     \<Rightarrow> StateRecordId \<times> StateRecord \<Rightarrow> (StateId, StateGeneration) umap \<times> (StateId, StateRecordId) umap" where
  "recompute_step e mc entry =
     (let rec = snd entry; st = rec_state_id rec; g = rec_state_generation rec in
      if terminal_lifecycle (rec_lifecycle rec) then mc
      else if is_tombstoned e st g then mc
      else if (case um_find (fst mc) st of None \<Rightarrow> True | Some m \<Rightarrow> g > m)
      then (um_put st g (fst mc), um_put st (rec_record_id rec) (snd mc))
      else mc)"

definition recompute_current :: "StateIndexEngine \<Rightarrow> StateIndexEngine" where
  "recompute_current e =
     (let cur = snd (foldl (recompute_step e) ([], []) (eng_records e)) in
      e\<lparr>eng_current := cur,
        eng_records := List.map (\<lambda>(rid, rec).
          (rid, rec\<lparr>rec_is_historical := um_find cur (rec_state_id rec) \<noteq> Some (rec_record_id rec)\<rparr>))
          (eng_records e)\<rparr>)"

section \<open>Consistency check\<close>

definition index_verification :: "StateIndexEngine \<Rightarrow> string list" where
  "index_verification e = idx_verify (eng_indexes e) (canonical_records e)"

definition check_current_entry :: "StateIndexEngine \<Rightarrow> StateId \<Rightarrow> StateRecordId \<Rightarrow> string list" where
  "check_current_entry e sid rid =
     (case get_record e rid of
        None \<Rightarrow> [''current record '' @ id_to_string rid @ '' does not exist'']
      | Some rec \<Rightarrow>
          (if rec_state_id rec \<noteq> sid then [''current record belongs to a different state''] else [])
          @ (if terminal_lifecycle (rec_lifecycle rec)
             then [''current record '' @ id_to_string rid @ '' has terminal lifecycle ''
                   @ Lifecycle_to_string (rec_lifecycle rec)] else [])
          @ (if is_tombstoned e sid (rec_state_generation rec)
             then [''current record '' @ id_to_string rid @ '' is covered by a tombstone''] else [])
          @ (if \<not> has_usable_location rec
             then [''current record '' @ id_to_string rid @ '' for state '' @ id_to_string sid
                   @ '' has no usable location''] else [])
          @ (if \<not> dep_satisfied e rec
             then [''current record '' @ id_to_string rid @ '' has an unsatisfied required dependency''] else []))"

fun check_currents :: "StateIndexEngine \<Rightarrow> StateId list \<Rightarrow> (StateId \<times> StateRecordId) list \<Rightarrow> string list" where
  "check_currents e seen [] = []"
| "check_currents e seen ((sid, rid) # rest) =
     (if sid \<in> set seen
      then (''duplicate current authority for state '' @ id_to_string sid) # check_currents e seen rest
      else check_current_entry e sid rid @ check_currents e (sid # seen) rest)"

definition max_gen_step ::
    "StateIndexEngine \<Rightarrow> (StateId, StateGeneration) umap \<Rightarrow> StateRecordId \<times> StateRecord
     \<Rightarrow> (StateId, StateGeneration) umap" where
  "max_gen_step e m entry =
     (let rec = snd entry; st = rec_state_id rec; g = rec_state_generation rec in
      if terminal_lifecycle (rec_lifecycle rec) then m
      else if is_tombstoned e st g then m
      else if (case um_find m st of None \<Rightarrow> True | Some x \<Rightarrow> g > x) then um_put st g m
      else m)"

definition check_max_entry ::
    "StateIndexEngine \<Rightarrow> (StateId, StateGeneration) umap \<Rightarrow> StateId \<times> StateRecordId \<Rightarrow> string list" where
  "check_max_entry e m entry =
     (let sid = fst entry; rid = snd entry in
      case (um_find m sid, get_record e rid) of
        (Some g, Some rec) \<Rightarrow>
          if rec_state_generation rec \<noteq> g
          then [''current '' @ id_to_string rid @ '' is not the highest eligible generation for state ''
                @ id_to_string sid] else []
      | _ \<Rightarrow> [''current '' @ id_to_string rid @ '' is not a max generation for state '' @ id_to_string sid])"

definition check_digest_entry :: "StateRecordId \<times> StateRecord \<Rightarrow> string list" where
  "check_digest_entry entry =
     (if compute_semantic_digest (snd entry) \<noteq> rec_semantic_digest (snd entry)
      then [''semantic digest mismatch for record '' @ id_to_string (rec_record_id (snd entry))] else [])"

text \<open>The policy flag \<^verbatim>\<open>demand_usable_location_for_available\<close> has its default, true; nothing in
  the repository's sources clears it.\<close>

definition invariant_check :: "StateIndexEngine \<Rightarrow> string list" where
  "invariant_check e =
     check_currents e [] (eng_current e)
     @ concat (List.map (check_max_entry e (foldl (max_gen_step e) [] (eng_records e))) (eng_current e))
     @ index_verification e
     @ concat (List.map check_digest_entry (eng_records e))"

end
