(* ===== verification/EngineInv.thy ===== *)
theory EngineInv
  imports Engine
begin

text \<open>
  The well-formedness of the engine: what every reachable state of the record set, the
  current, historical and tombstoned views, the authority registry and the indexes satisfies.
  The first half describes the effect of each shared update on each field; the second states
  the invariant and proves that the shared updates keep it.
\<close>

section \<open>Effects of the shared updates on the fields\<close>

lemma bump_frame [simp]:
  "eng_records (bump c e) = eng_records e"
  "eng_current (bump c e) = eng_current e"
  "eng_history (bump c e) = eng_history e"
  "eng_tombstones (bump c e) = eng_tombstones e"
  "eng_authority (bump c e) = eng_authority e"
  "eng_indexes (bump c e) = eng_indexes e"
  "eng_invalidations (bump c e) = eng_invalidations e"
  "eng_invalidation_seq (bump c e) = eng_invalidation_seq e"
  by (simp_all add: bump_def)

lemma replace_record_frame [simp]:
  "eng_current (replace_record u e) = eng_current e"
  "eng_history (replace_record u e) = eng_history e"
  "eng_tombstones (replace_record u e) = eng_tombstones e"
  "eng_authority (replace_record u e) = eng_authority e"
  "eng_accounting (replace_record u e) = eng_accounting e"
  "eng_invalidations (replace_record u e) = eng_invalidations e"
  "eng_invalidation_seq (replace_record u e) = eng_invalidation_seq e"
  by (simp_all add: replace_record_def)

lemma make_current_frame [simp]:
  "eng_records (make_current rec e) = eng_records e"
  "eng_history (make_current rec e) = eng_history e"
  "eng_tombstones (make_current rec e) = eng_tombstones e"
  "eng_indexes (make_current rec e) = eng_indexes e"
  "eng_accounting (make_current rec e) = eng_accounting e"
  "eng_invalidations (make_current rec e) = eng_invalidations e"
  "eng_invalidation_seq (make_current rec e) = eng_invalidation_seq e"
  "eng_current (make_current rec e) = um_put (rec_state_id rec) (rec_record_id rec) (eng_current e)"
  "eng_authority (make_current rec e) = set_current_authority (rec_state_id rec)
     (rec_state_generation rec) (rec_authority_boot rec) (eng_authority e)"
  by (simp_all add: make_current_def set_authority_of_def)

lemma clear_current_frame [simp]:
  "eng_records (clear_current st e) = eng_records e"
  "eng_history (clear_current st e) = eng_history e"
  "eng_tombstones (clear_current st e) = eng_tombstones e"
  "eng_indexes (clear_current st e) = eng_indexes e"
  "eng_accounting (clear_current st e) = eng_accounting e"
  "eng_invalidations (clear_current st e) = eng_invalidations e"
  "eng_invalidation_seq (clear_current st e) = eng_invalidation_seq e"
  "eng_current (clear_current st e) = um_erase st (eng_current e)"
  "eng_authority (clear_current st e) = clear_current_authority st (eng_authority e)"
  by (simp_all add: clear_current_def)

lemma push_history_frame [simp]:
  "eng_records (push_history rec e) = eng_records e"
  "eng_current (push_history rec e) = eng_current e"
  "eng_tombstones (push_history rec e) = eng_tombstones e"
  "eng_authority (push_history rec e) = eng_authority e"
  "eng_indexes (push_history rec e) = eng_indexes e"
  "eng_accounting (push_history rec e) = eng_accounting e"
  "eng_invalidations (push_history rec e) = eng_invalidations e"
  "eng_invalidation_seq (push_history rec e) = eng_invalidation_seq e"
  by (simp_all add: push_history_def)

lemma touch_history_frame [simp]:
  "eng_records (touch_history st e) = eng_records e"
  "eng_current (touch_history st e) = eng_current e"
  "eng_tombstones (touch_history st e) = eng_tombstones e"
  "eng_authority (touch_history st e) = eng_authority e"
  "eng_indexes (touch_history st e) = eng_indexes e"
  "eng_accounting (touch_history st e) = eng_accounting e"
  "eng_invalidations (touch_history st e) = eng_invalidations e"
  "eng_invalidation_seq (touch_history st e) = eng_invalidation_seq e"
  by (simp_all add: touch_history_def)

lemma history_ids_touch [simp]: "history_ids (touch_history st e) st' = history_ids e st'"
  by (simp add: history_ids_def touch_history_def)

lemma history_ids_push [simp]:
  "history_ids (push_history rec e) st =
     history_ids e st @ (if st = rec_state_id rec then [rec_record_id rec] else [])"
  by (simp add: history_ids_def push_history_def)

lemma views_cong:
  "eng_records e' = eng_records e \<Longrightarrow> get_record e' rid = get_record e rid"
  "eng_records e' = eng_records e \<Longrightarrow> eng_current e' = eng_current e \<Longrightarrow> find_state e' st = find_state e st"
  "eng_tombstones e' = eng_tombstones e \<Longrightarrow> is_tombstoned e' st g = is_tombstoned e st g"
  "eng_history e' = eng_history e \<Longrightarrow> history_ids e' st = history_ids e st"
  by (simp_all add: get_record_def find_state_def is_tombstoned_def history_ids_def split: option.split)

lemma get_record_replace [simp]:
  "get_record (replace_record u e) rid = (if rid = rec_record_id u then Some u else get_record e rid)"
  by (simp add: get_record_def replace_record_def)

text \<open>Nothing but the accounting differs after the counting loops.\<close>

definition same_but_accounting :: "StateIndexEngine \<Rightarrow> StateIndexEngine \<Rightarrow> bool" where
  "same_but_accounting e e' \<longleftrightarrow> e' = e\<lparr>eng_accounting := eng_accounting e'\<rparr>"

lemma same_but_accounting_refl [simp, intro]: "same_but_accounting e e"
  by (simp add: same_but_accounting_def)

lemma same_but_accounting_trans:
  "same_but_accounting e f \<Longrightarrow> same_but_accounting f g \<Longrightarrow> same_but_accounting e g"
  unfolding same_but_accounting_def by (metis StateIndexEngine.surjective StateIndexEngine.update_convs(3))

lemma same_but_accounting_bump [simp, intro]: "same_but_accounting e (bump c e)"
  by (simp add: same_but_accounting_def bump_def)

lemma same_but_accounting_bump_trans:
  "same_but_accounting e f \<Longrightarrow> same_but_accounting e (bump c f)"
  by (erule same_but_accounting_trans) (rule same_but_accounting_bump)

lemma same_but_accounting_foldl:
  "(\<And>e x. same_but_accounting e (f e x)) \<Longrightarrow> same_but_accounting e (foldl f e xs)"
  by (induction xs arbitrary: e) (auto intro: same_but_accounting_trans)

lemma same_but_accounting_count_location: "same_but_accounting e (count_location e l)"
  by (auto simp: count_location_def Let_def intro!: same_but_accounting_bump_trans)

lemma same_but_accounting_count_record: "same_but_accounting e (count_record rec e)"
  unfolding count_record_def Let_def
  by (intro same_but_accounting_trans [OF _ same_but_accounting_foldl [OF same_but_accounting_count_location]]
      same_but_accounting_trans [OF _ same_but_accounting_foldl] same_but_accounting_bump
      same_but_accounting_bump_trans)

lemma same_but_accounting_count_put: "same_but_accounting e (count_put_location l ls e)"
  unfolding count_put_location_def
  by (auto intro!: same_but_accounting_foldl same_but_accounting_bump_trans)

lemma same_but_accounting_fields:
  assumes "same_but_accounting e e'"
  shows "eng_records e' = eng_records e" "eng_current e' = eng_current e"
    "eng_history e' = eng_history e" "eng_tombstones e' = eng_tombstones e"
    "eng_authority e' = eng_authority e" "eng_indexes e' = eng_indexes e"
    "eng_invalidations e' = eng_invalidations e" "eng_invalidation_seq e' = eng_invalidation_seq e"
  using assms unfolding same_but_accounting_def by (metis (no_types, lifting) StateIndexEngine.select_convs StateIndexEngine.surjective StateIndexEngine.update_convs(3))+

section \<open>The invariant\<close>

definition ids_under :: "StateIndexEngine \<Rightarrow> index_key \<Rightarrow> StateRecordId set" where
  "ids_under e k = {rid. \<exists>r. get_record e rid = Some r \<and> k \<in> set (record_keys r)}"

text \<open>The keys of a record that no engine operation changes.\<close>

fun stable_key :: "index_key \<Rightarrow> bool" where
  "stable_key (Key_node _) = False"
| "stable_key (Key_device _) = False"
| "stable_key (Key_domain _) = False"
| "stable_key (Key_lifecycle _) = False"
| "stable_key _ = True"

text \<open>The records no operation has retired.\<close>

definition outstanding :: "StateRecord \<Rightarrow> bool" where
  "outstanding r \<longleftrightarrow> \<not> terminal_lifecycle (rec_lifecycle r)"

lemma eligible_outstanding: "eligible r \<Longrightarrow> outstanding r"
  by (auto simp: eligible_def outstanding_def terminal_lifecycle_def)

definition records_inv :: "StateIndexEngine \<Rightarrow> bool" where
  "records_inv e \<longleftrightarrow> um_ok (eng_records e) \<and>
     (\<forall>rid r. get_record e rid = Some r \<longrightarrow>
        rec_record_id r = rid \<and> digest_ok r \<and> is_set (rec_state_generation r))"

definition current_inv :: "StateIndexEngine \<Rightarrow> bool" where
  "current_inv e \<longleftrightarrow> um_ok (eng_current e) \<and>
     (\<forall>st rid. um_find (eng_current e) st = Some rid \<longrightarrow>
        (\<exists>r. get_record e rid = Some r \<and> rec_state_id r = st \<and>
           \<not> is_tombstoned e st (rec_state_generation r))) \<and>
     (\<forall>st. current_authority (eng_authority e) st =
        map_option (\<lambda>r. (rec_state_generation r, rec_authority_boot r)) (find_state e st))"

definition history_inv :: "StateIndexEngine \<Rightarrow> bool" where
  "history_inv e \<longleftrightarrow> um_ok (eng_history e) \<and>
     (\<forall>st. distinct (history_ids e st) \<and>
        set (history_ids e st) = {rid. \<exists>r. get_record e rid = Some r \<and> rec_state_id r = st})"

definition tombstone_inv :: "StateIndexEngine \<Rightarrow> bool" where
  "tombstone_inv e \<longleftrightarrow> um_ok (eng_tombstones e) \<and>
     (\<forall>st. tombstone_floor (eng_authority e) st =
        map_option tomb_floor_generation (um_find (eng_tombstones e) st)) \<and>
     (\<forall>rid r. get_record e rid = Some r \<and> below_floor (eng_authority e) (rec_state_id r) (rec_state_generation r)
        \<longrightarrow> \<not> outstanding r)"

definition index_inv :: "StateIndexEngine \<Rightarrow> bool" where
  "index_inv e \<longleftrightarrow> idx_ok (eng_indexes e) \<and>
     (\<forall>k. ids_under e k \<subseteq> posted (eng_indexes e) k \<and>
        posted (eng_indexes e) k \<subseteq> {rid. get_record e rid \<noteq> None} \<and>
        (stable_key k \<longrightarrow> posted (eng_indexes e) k = ids_under e k))"

definition core_inv :: "StateIndexEngine \<Rightarrow> bool" where
  "core_inv e \<longleftrightarrow> records_inv e \<and> current_inv e \<and> history_inv e \<and> tombstone_inv e \<and> index_inv e"

text \<open>The current record of a state is the newest among those a query may still return;
  \<open>max_inv_except\<close> leaves one record out, while a publication is under way.\<close>

definition max_inv_except :: "StateRecordId set \<Rightarrow> StateIndexEngine \<Rightarrow> bool" where
  "max_inv_except X e \<longleftrightarrow>
     (\<forall>rid r. get_record e rid = Some r \<and> outstanding r \<and> rid \<notin> X \<longrightarrow>
        (\<exists>c. find_state e (rec_state_id r) = Some c \<and> rec_state_generation r \<le> rec_state_generation c))"

definition engine_inv :: "StateIndexEngine \<Rightarrow> bool" where
  "engine_inv e \<longleftrightarrow> core_inv e \<and> max_inv_except {} e"

text \<open>What a query relies on: the records lie under their own ids with their digests right, and
  the indexes post them. Unlike \<open>engine_inv\<close> it says nothing of the authority registry, so that a
  \<^verbatim>\<open>load\<close> keeps it.\<close>

definition queryable :: "StateIndexEngine \<Rightarrow> bool" where
  "queryable e \<longleftrightarrow> um_ok (eng_records e) \<and>
     (\<forall>rid r. get_record e rid = Some r \<longrightarrow> rec_record_id r = rid \<and> digest_ok r) \<and> index_inv e"

lemma core_inv_queryable: "core_inv e \<Longrightarrow> queryable e"
  by (simp add: core_inv_def records_inv_def queryable_def)

lemma engine_inv_queryable: "engine_inv e \<Longrightarrow> queryable e"
  by (simp add: engine_inv_def core_inv_queryable)

lemma queryable_cong:
  assumes "eng_records e' = eng_records e" "eng_indexes e' = eng_indexes e"
  shows "queryable e' = queryable e"
  using views_cong(1) [OF assms(1)] by (simp add: queryable_def index_inv_def ids_under_def assms)

lemmas inv_defs = records_inv_def current_inv_def history_inv_def tombstone_inv_def index_inv_def
  ids_under_def

lemma engine_inv_new: "engine_inv (new_engine epoch)"
proof -
  have v: "get_record (new_engine epoch) rid = None" "find_state (new_engine epoch) st = None"
    "history_ids (new_engine epoch) st = []" for rid st
    by (simp_all add: new_engine_def get_record_def find_state_def history_ids_def)
  have f: "eng_records (new_engine epoch) = []" "eng_current (new_engine epoch) = []"
    "eng_history (new_engine epoch) = []" "eng_tombstones (new_engine epoch) = []"
    "eng_indexes (new_engine epoch) = idx_clear" "eng_authority (new_engine epoch) = new_authority epoch"
    by (simp_all add: new_engine_def)
  have a: "current_authority (new_authority epoch) st = None" "tombstone_floor (new_authority epoch) st = None" for st
    by (simp_all add: new_authority_def current_authority_def tombstone_floor_def)
  show ?thesis
    by (simp add: engine_inv_def core_inv_def inv_defs max_inv_except_def v f a)
qed

text \<open>The invariant depends on neither the accounting nor the invalidation log.\<close>

lemma core_inv_cong:
  assumes "eng_records e' = eng_records e" "eng_current e' = eng_current e"
    "eng_tombstones e' = eng_tombstones e" "eng_indexes e' = eng_indexes e"
    "um_ok (eng_history e) \<Longrightarrow> um_ok (eng_history e')" "\<And>st. history_ids e' st = history_ids e st"
    "auth_current_authority (eng_authority e') = auth_current_authority (eng_authority e)"
    "auth_tombstone_floor (eng_authority e') = auth_tombstone_floor (eng_authority e)"
  shows "core_inv e \<Longrightarrow> core_inv e'" and "max_inv_except X e' = max_inv_except X e"
proof -
  have v: "get_record e' = get_record e" "find_state e' = find_state e" "is_tombstoned e' = is_tombstoned e"
    by (intro ext views_cong assms(1-3))+
  have a: "current_authority (eng_authority e') = current_authority (eng_authority e)"
    "tombstone_floor (eng_authority e') = tombstone_floor (eng_authority e)"
    by (intro ext; simp add: current_authority_def tombstone_floor_def assms(7,8))+
  show "max_inv_except X e' = max_inv_except X e"
    by (simp add: max_inv_except_def v)
  have "records_inv e' = records_inv e" "current_inv e' = current_inv e"
    "tombstone_inv e' = tombstone_inv e" "index_inv e' = index_inv e"
    by (simp_all add: inv_defs below_floor_def v a assms(1-4))
  moreover have "history_inv e \<Longrightarrow> history_inv e'"
    by (simp add: history_inv_def v assms(5,6))
  ultimately show "core_inv e \<Longrightarrow> core_inv e'" by (simp add: core_inv_def)
qed

lemma core_inv_accounting [simp]:
  "same_but_accounting e e' \<Longrightarrow> core_inv e \<Longrightarrow> core_inv e'"
  by (rule core_inv_cong(1)) (auto simp: same_but_accounting_fields history_ids_def)

lemma max_inv_accounting [simp]:
  "same_but_accounting e e' \<Longrightarrow> max_inv_except X e' = max_inv_except X e"
  by (rule core_inv_cong(2)) (auto simp: same_but_accounting_fields history_ids_def)

lemma engine_inv_accounting:
  "same_but_accounting e e' \<Longrightarrow> engine_inv e \<Longrightarrow> engine_inv e'"
  by (simp add: engine_inv_def)

section \<open>Rewriting a record\<close>

definition same_identity :: "StateRecord \<Rightarrow> StateRecord \<Rightarrow> bool" where
  "same_identity r u \<longleftrightarrow>
     rec_record_id u = rec_record_id r \<and> rec_state_id u = rec_state_id r \<and>
     rec_state_generation u = rec_state_generation r \<and> rec_authority_boot u = rec_authority_boot r \<and>
     rec_kind u = rec_kind r \<and> rec_namespace_id u = rec_namespace_id r \<and>
     rec_owner_id u = rec_owner_id r \<and> rec_producer_id u = rec_producer_id r \<and>
     rec_logical_size u = rec_logical_size r \<and> rec_content_digest u = rec_content_digest r \<and>
     rec_compatibility u = rec_compatibility r \<and> rec_dependencies u = rec_dependencies r \<and>
     rec_freshness u = rec_freshness r \<and> rec_health u = rec_health r"

lemma same_identity_retire [simp]: "same_identity r (retire lc r)"
  by (simp add: same_identity_def retire_def)

lemma same_identity_with_locations [simp]: "same_identity r (with_locations ls r)"
  by (simp add: same_identity_def with_locations_def)

lemma stable_record_keys:
  "same_identity r u \<Longrightarrow> stable_key k \<Longrightarrow> k \<in> set (record_keys u) \<longleftrightarrow> k \<in> set (record_keys r)"
  by (cases k) (simp_all add: same_identity_def record_keys_simps)

lemma retire_simps [simp]:
  "rec_record_id (retire lc r) = rec_record_id r"
  "rec_state_id (retire lc r) = rec_state_id r"
  "rec_state_generation (retire lc r) = rec_state_generation r"
  "rec_authority_boot (retire lc r) = rec_authority_boot r"
  "rec_lifecycle (retire lc r) = lc"
  "rec_locations (retire lc r) = rec_locations r"
  "rec_is_historical (retire lc r)"
  "digest_ok (retire lc r)"
  by (simp_all add: retire_def)

lemma with_locations_simps [simp]:
  "rec_record_id (with_locations ls r) = rec_record_id r"
  "rec_state_id (with_locations ls r) = rec_state_id r"
  "rec_state_generation (with_locations ls r) = rec_state_generation r"
  "rec_authority_boot (with_locations ls r) = rec_authority_boot r"
  "rec_lifecycle (with_locations ls r) = rec_lifecycle r"
  "rec_locations (with_locations ls r) = ls"
  "rec_is_historical (with_locations ls r) = rec_is_historical r"
  "digest_ok (with_locations ls r)"
  by (simp_all add: with_locations_def)

lemma outstanding_simps [simp]:
  "outstanding (retire lc r) \<longleftrightarrow> \<not> terminal_lifecycle lc"
  "outstanding (with_locations ls r) = outstanding r"
  by (simp_all add: outstanding_def)

lemma terminal_lifecycle_marks [simp]:
  "terminal_lifecycle Lifecycle_SUPERSEDED"
  "terminal_lifecycle Lifecycle_INVALIDATED"
  "terminal_lifecycle Lifecycle_TOMBSTONED"
  by (simp_all add: terminal_lifecycle_def)

lemma find_state_replace:
  "find_state (replace_record u e) st =
     (if um_find (eng_current e) st = Some (rec_record_id u) then Some u else find_state e st)"
  by (auto simp: find_state_def split: option.splits)

lemma find_state_replace_gen:
  assumes "get_record e (rec_record_id u) = Some r" and "same_identity r u"
  shows "map_option (\<lambda>r. (rec_state_generation r, rec_authority_boot r)) (find_state (replace_record u e) st)
     = map_option (\<lambda>r. (rec_state_generation r, rec_authority_boot r)) (find_state e st)"
  using assms by (auto simp: find_state_def same_identity_def split: option.splits)

lemma records_inv_replace:
  assumes "records_inv e" and "get_record e (rec_record_id u) = Some r" and "same_identity r u" and "digest_ok u"
  shows "records_inv (replace_record u e)"
proof -
  have "um_ok (eng_records (replace_record u e))"
    using assms(1) by (simp add: records_inv_def replace_record_def)
  with assms show ?thesis by (auto simp: records_inv_def same_identity_def split: if_splits)
qed

lemma current_inv_replace:
  assumes inv: "current_inv e" and old: "get_record e (rec_record_id u) = Some r" and id: "same_identity r u"
  shows "current_inv (replace_record u e)"
proof -
  have "\<exists>r'. get_record (replace_record u e) rid = Some r' \<and> rec_state_id r' = st \<and>
      \<not> is_tombstoned e st (rec_state_generation r')" if "um_find (eng_current e) st = Some rid" for st rid
  proof -
    from inv that obtain r' where "get_record e rid = Some r'" "rec_state_id r' = st"
      "\<not> is_tombstoned e st (rec_state_generation r')" unfolding current_inv_def by blast
    with old id show ?thesis by (auto simp: same_identity_def)
  qed
  moreover have "is_tombstoned (replace_record u e) = is_tombstoned e"
    by (intro ext views_cong) simp
  ultimately show ?thesis
    using inv unfolding current_inv_def by (simp add: find_state_replace_gen [OF old id])
qed

lemma history_inv_replace:
  assumes inv: "history_inv e" and old: "get_record e (rec_record_id u) = Some r" and id: "same_identity r u"
  shows "history_inv (replace_record u e)"
proof -
  have "history_ids (replace_record u e) = history_ids e" by (intro ext views_cong) simp
  moreover have "(\<exists>r'. get_record (replace_record u e) rid = Some r' \<and> rec_state_id r' = st) \<longleftrightarrow>
      (\<exists>r'. get_record e rid = Some r' \<and> rec_state_id r' = st)" for rid st
    using old id by (auto simp: same_identity_def)
  ultimately show ?thesis using inv by (simp only: history_inv_def replace_record_frame) simp
qed

lemma tombstone_inv_replace:
  assumes inv: "tombstone_inv e" and old: "get_record e (rec_record_id u) = Some r" and id: "same_identity r u"
    and el: "outstanding u \<Longrightarrow> outstanding r"
  shows "tombstone_inv (replace_record u e)"
proof -
  have "\<not> outstanding r'" if "get_record (replace_record u e) rid = Some r'"
    "below_floor (eng_authority e) (rec_state_id r') (rec_state_generation r')" for rid r'
  proof (cases "rid = rec_record_id u")
    case True
    with that id have "below_floor (eng_authority e) (rec_state_id r) (rec_state_generation r)"
      by (auto simp: same_identity_def)
    with inv old el True that show ?thesis unfolding tombstone_inv_def by auto
  next
    case False
    with that inv show ?thesis unfolding tombstone_inv_def by auto
  qed
  with inv show ?thesis unfolding tombstone_inv_def replace_record_frame by blast
qed

lemma index_inv_replace:
  assumes inv: "index_inv e" and old: "get_record e (rec_record_id u) = Some r" and id: "same_identity r u"
  shows "index_inv (replace_record u e)"
proof -
  let ?X = "eng_indexes e" and ?Y = "eng_indexes (replace_record u e)" and ?i = "rec_record_id u"
  have ok: "idx_ok ?X" using inv by (simp add: index_inv_def)
  have Y: "posted ?Y k = (posted ?X k - (if k \<in> set (record_keys u) then {?i} else {})) \<union>
      (if k \<in> set (record_keys u) then {?i} else {})" for k
    by (simp add: replace_record_def posted_insert posted_remove idx_ok_remove ok)
  have known: "get_record (replace_record u e) x \<noteq> None \<longleftrightarrow> get_record e x \<noteq> None" for x
    using old by simp
  have ids: "ids_under (replace_record u e) k =
      (ids_under e k - {?i}) \<union> (if k \<in> set (record_keys u) then {?i} else {})" for k
    by (auto simp: ids_under_def)
  have i: "?i \<in> ids_under e k \<longleftrightarrow> k \<in> set (record_keys r)" for k
    using old by (simp add: ids_under_def)
  have X: "ids_under e k \<subseteq> posted ?X k" "posted ?X k \<subseteq> {x. get_record e x \<noteq> None}"
    "stable_key k \<Longrightarrow> posted ?X k = ids_under e k" for k
    using inv by (simp_all add: index_inv_def)
  have "ids_under (replace_record u e) k \<subseteq> posted ?Y k" for k
    unfolding ids Y using X(1) [of k] by auto
  moreover have "posted ?Y k \<subseteq> {x. get_record (replace_record u e) x \<noteq> None}" for k
    unfolding known Y using X(2) [of k] old by auto
  moreover have "posted ?Y k = ids_under (replace_record u e) k" if "stable_key k" for k
    unfolding ids Y X(3) [OF that] using i [of k] stable_record_keys [OF id that] by auto
  moreover have "idx_ok ?Y" by (simp add: replace_record_def idx_ok_insert idx_ok_remove ok)
  ultimately show ?thesis unfolding index_inv_def by blast
qed

lemma core_inv_replace:
  assumes "core_inv e" and "get_record e (rec_record_id u) = Some r" and "same_identity r u"
    and "digest_ok u" and "outstanding u \<Longrightarrow> outstanding r"
  shows "core_inv (replace_record u e)"
  using assms unfolding core_inv_def
  by (blast intro: records_inv_replace current_inv_replace history_inv_replace tombstone_inv_replace
      index_inv_replace)

lemma max_inv_replace:
  assumes inv: "max_inv_except X e" and old: "get_record e (rec_record_id u) = Some r"
    and id: "same_identity r u" and el: "outstanding u \<Longrightarrow> outstanding r"
  shows "max_inv_except X (replace_record u e)"
  unfolding max_inv_except_def
proof (intro allI impI, elim conjE)
  fix rid r' assume *: "get_record (replace_record u e) rid = Some r'" "outstanding r'" "rid \<notin> X"
  obtain r0 where r0: "get_record e rid = Some r0" "outstanding r0" "rec_state_id r0 = rec_state_id r'"
    "rec_state_generation r0 = rec_state_generation r'"
    using * old id el by (cases "rid = rec_record_id u") (auto simp: same_identity_def)
  with inv \<open>rid \<notin> X\<close> obtain c where c: "find_state e (rec_state_id r') = Some c"
    "rec_state_generation r' \<le> rec_state_generation c" unfolding max_inv_except_def by metis
  moreover have "map_option rec_state_generation (find_state (replace_record u e) (rec_state_id r'))
      = map_option rec_state_generation (find_state e (rec_state_id r'))"
    using old id by (auto simp: find_state_def same_identity_def split: option.splits)
  ultimately show "\<exists>c. find_state (replace_record u e) (rec_state_id r') = Some c \<and>
      rec_state_generation r' \<le> rec_state_generation c" by auto
qed

section \<open>Adding a record and moving the current one\<close>

definition add_new :: "StateRecord \<Rightarrow> StateIndexEngine \<Rightarrow> StateIndexEngine" where
  "add_new rec e = push_history rec
     (e\<lparr>eng_records := um_put (rec_record_id rec) rec (eng_records e),
        eng_indexes := idx_insert rec (eng_indexes e)\<rparr>)"

lemma add_new_frame [simp]:
  "eng_current (add_new rec e) = eng_current e"
  "eng_tombstones (add_new rec e) = eng_tombstones e"
  "eng_authority (add_new rec e) = eng_authority e"
  "eng_accounting (add_new rec e) = eng_accounting e"
  "eng_invalidations (add_new rec e) = eng_invalidations e"
  "eng_invalidation_seq (add_new rec e) = eng_invalidation_seq e"
  "eng_indexes (add_new rec e) = idx_insert rec (eng_indexes e)"
  "eng_records (add_new rec e) = um_put (rec_record_id rec) rec (eng_records e)"
  by (simp_all add: add_new_def)

lemma get_record_add_new [simp]:
  "get_record (add_new rec e) rid = (if rid = rec_record_id rec then Some rec else get_record e rid)"
  by (simp add: get_record_def)

lemma history_ids_add_new [simp]:
  "history_ids (add_new rec e) st = history_ids e st @ (if st = rec_state_id rec then [rec_record_id rec] else [])"
  unfolding add_new_def by (subst history_ids_push) (simp add: history_ids_def)

lemma find_state_add_new:
  assumes "current_inv e" and "get_record e (rec_record_id rec) = None"
  shows "find_state (add_new rec e) st = find_state e st"
proof -
  have "um_find (eng_current e) st \<noteq> Some (rec_record_id rec)"
    using assms unfolding current_inv_def by (metis option.distinct(1))
  then show ?thesis by (auto simp: find_state_def split: option.splits)
qed

lemma is_tombstoned_add_new [simp]: "is_tombstoned (add_new rec e) = is_tombstoned e"
  by (intro ext views_cong) simp

lemma index_inv_add_new:
  assumes inv: "index_inv e" and new: "get_record e (rec_record_id rec) = None"
  shows "index_inv (add_new rec e)"
proof -
  let ?i = "rec_record_id rec"
  have ok: "idx_ok (eng_indexes e)" using inv by (simp add: index_inv_def)
  have ids: "ids_under (add_new rec e) k = ids_under e k \<union> (if k \<in> set (record_keys rec) then {?i} else {})" for k
    using new by (auto simp: ids_under_def)
  have X: "ids_under e k \<subseteq> posted (eng_indexes e) k" "x \<in> posted (eng_indexes e) k \<Longrightarrow> \<exists>y. get_record e x = Some y"
    "stable_key k \<Longrightarrow> posted (eng_indexes e) k = ids_under e k" for k x
    using inv by (auto simp: index_inv_def)
  show ?thesis
    unfolding index_inv_def add_new_frame posted_insert [OF ok] ids
    using X ok by (auto simp: idx_ok_insert)
qed

lemma core_inv_add_new:
  assumes inv: "core_inv e" and new: "get_record e (rec_record_id rec) = None"
    and "digest_ok rec" and "is_set (rec_state_generation rec)"
    and "\<not> below_floor (eng_authority e) (rec_state_id rec) (rec_state_generation rec)"
  shows "core_inv (add_new rec e)"
proof -
  have r: "records_inv e" and c: "current_inv e" and h: "history_inv e" and t: "tombstone_inv e"
    and i: "index_inv e" using inv by (simp_all add: core_inv_def)
  have "records_inv (add_new rec e)" using r assms(3,4) by (auto simp: records_inv_def)
  moreover have "current_inv (add_new rec e)"
    using c new by (fastforce simp: current_inv_def find_state_add_new [OF c new])
  moreover have "history_inv (add_new rec e)"
    using h new by (auto simp: history_inv_def) (auto simp: add_new_def push_history_def)
  moreover have "tombstone_inv (add_new rec e)" using t assms(5) by (auto simp: tombstone_inv_def)
  moreover have "index_inv (add_new rec e)" by (rule index_inv_add_new [OF i new])
  ultimately show ?thesis by (simp add: core_inv_def)
qed

lemma max_inv_add_new:
  assumes "core_inv e" and "get_record e (rec_record_id rec) = None" and "max_inv_except {} e"
  shows "max_inv_except {rec_record_id rec} (add_new rec e)"
  using assms by (auto simp: max_inv_except_def core_inv_def find_state_add_new)

lemma find_state_make_current:
  "find_state (make_current rec e) st =
     (if st = rec_state_id rec then get_record e (rec_record_id rec) else find_state e st)"
  by (simp add: find_state_def get_record_def split: option.split)

lemma find_state_clear_current [simp]:
  "find_state (clear_current st e) st' = (if st' = st then None else find_state e st')"
  by (simp add: find_state_def get_record_def split: option.split)

lemma make_current_views [simp]:
  "get_record (make_current rec e) = get_record e"
  "is_tombstoned (make_current rec e) = is_tombstoned e"
  "history_ids (make_current rec e) = history_ids e"
  "get_record (clear_current st e) = get_record e"
  "is_tombstoned (clear_current st e) = is_tombstoned e"
  "history_ids (clear_current st e) = history_ids e"
  by (intro ext views_cong; simp)+

lemma below_floor_frame [simp]:
  "below_floor (set_current_authority st g b a) = below_floor a"
  "below_floor (clear_current_authority st a) = below_floor a"
  by (simp_all add: below_floor_def fun_eq_iff)

lemma core_inv_make_current:
  assumes inv: "core_inv e" and rec: "get_record e (rec_record_id rec) = Some rec"
    and "\<not> is_tombstoned e (rec_state_id rec) (rec_state_generation rec)"
  shows "core_inv (make_current rec e)"
proof -
  have "current_inv (make_current rec e)"
    using inv assms(3) rec by (auto simp: core_inv_def current_inv_def find_state_make_current)
  with inv show ?thesis
    by (simp add: core_inv_def records_inv_def history_inv_def tombstone_inv_def index_inv_def
        ids_under_def) blast
qed

lemma core_inv_clear_current:
  assumes inv: "core_inv e"
  shows "core_inv (clear_current st e)"
proof -
  have "current_inv (clear_current st e)"
    using inv by (auto simp: core_inv_def current_inv_def)
  with inv show ?thesis
    by (simp add: core_inv_def records_inv_def history_inv_def tombstone_inv_def index_inv_def
        ids_under_def) blast
qed

lemma max_inv_make_current:
  assumes max: "max_inv_except {rec_record_id rec} e"
    and rec: "get_record e (rec_record_id rec) = Some rec"
    and older: "\<And>c. find_state e (rec_state_id rec) = Some c \<Longrightarrow> rec_state_generation c \<le> rec_state_generation rec"
  shows "max_inv_except {} (make_current rec e)"
  unfolding max_inv_except_def make_current_views
proof (intro allI impI, elim conjE)
  fix rid r assume r: "get_record e rid = Some r" "outstanding r"
  show "\<exists>c. find_state (make_current rec e) (rec_state_id r) = Some c \<and>
      rec_state_generation r \<le> rec_state_generation c"
  proof (cases "rid = rec_record_id rec")
    case True
    with r rec show ?thesis by (simp add: find_state_make_current)
  next
    case False
    with max r obtain c where c: "find_state e (rec_state_id r) = Some c"
      "rec_state_generation r \<le> rec_state_generation c" unfolding max_inv_except_def by blast
    show ?thesis
    proof (cases "rec_state_id r = rec_state_id rec")
      case True
      with c older [of c] rec show ?thesis by (auto simp: find_state_make_current)
    next
      case False
      with c show ?thesis by (simp add: find_state_make_current)
    qed
  qed
qed

lemma max_inv_clear_current:
  assumes "max_inv_except X e" and "\<And>rid r. get_record e rid = Some r \<Longrightarrow> rec_state_id r = st \<Longrightarrow> \<not> outstanding r"
  shows "max_inv_except X (clear_current st e)"
  using assms by (auto simp: max_inv_except_def)

end
