(* ===== verification/ServiceInv.thy ===== *)
theory ServiceInv
  imports EngineInv
begin

text \<open>
  The part of the engine's invariant that rests on the engine alone and not on its authority
  registry: \<open>service_inv\<close>, which a restart keeps, and what each update the mutations share does to it.
  Records lie under their own ids, the indexes post them, the history lists them, and current
  records exist and are not tombstoned. \<open>serving\<close> adds that the current record of a state is the
  newest of those that count.
\<close>

section \<open>The invariant a load keeps\<close>

text \<open>The current record of a state exists and belongs to it, and no tombstone covers it; the
  last clause is waived for the states of \<open>X\<close>, while a tombstone is being recorded.\<close>

definition pointers_inv :: "StateId set \<Rightarrow> StateIndexEngine \<Rightarrow> bool" where
  "pointers_inv X e \<longleftrightarrow> (\<forall>st rid. um_find (eng_current e) st = Some rid \<longrightarrow>
     (\<exists>r. get_record e rid = Some r \<and> rec_state_id r = st \<and>
        (st \<in> X \<or> \<not> is_tombstoned e st (rec_state_generation r))))"

definition service_inv :: "StateId set \<Rightarrow> StateIndexEngine \<Rightarrow> bool" where
  "service_inv X e \<longleftrightarrow> queryable e \<and> history_inv e \<and> um_ok (eng_current e) \<and> pointers_inv X e"

lemma core_inv_service: "core_inv e \<Longrightarrow> service_inv {} e"
  by (auto simp: service_inv_def core_inv_queryable pointers_inv_def core_inv_def current_inv_def)

lemma engine_inv_service: "engine_inv e \<Longrightarrow> service_inv {} e"
  by (simp add: engine_inv_def core_inv_service)

lemma service_queryable: "service_inv X e \<Longrightarrow> queryable e"
  by (simp add: service_inv_def)

lemma service_id: "service_inv X e \<Longrightarrow> get_record e rid = Some r \<Longrightarrow> rec_record_id r = rid"
  by (simp add: service_inv_def queryable_def)

lemma service_current:
  assumes "service_inv X e" and "um_find (eng_current e) st = Some rid"
  obtains r where "get_record e rid = Some r" "rec_state_id r = st" "rec_record_id r = rid"
    "find_state e st = Some r"
proof -
  from assms obtain r where "get_record e rid = Some r" "rec_state_id r = st"
    unfolding service_inv_def pointers_inv_def by blast
  with assms that service_id show ?thesis by (simp add: find_state_def)
qed

lemma service_find:
  assumes "service_inv X e" and "find_state e st = Some r"
  shows "get_record e (rec_record_id r) = Some r" and "rec_state_id r = st"
    and "um_find (eng_current e) st = Some (rec_record_id r)" and "digest_ok r"
    and "st \<notin> X \<Longrightarrow> \<not> is_tombstoned e st (rec_state_generation r)"
proof -
  from assms(2) obtain rid where rid: "um_find (eng_current e) st = Some rid" "get_record e rid = Some r"
    by (auto simp: find_state_def split: option.splits)
  with assms(1) have "rec_record_id r = rid \<and> digest_ok r" by (simp add: service_inv_def queryable_def)
  moreover have "rec_state_id r = st \<and> (st \<in> X \<or> \<not> is_tombstoned e st (rec_state_generation r))"
    using assms(1) rid unfolding service_inv_def pointers_inv_def by force
  ultimately show "get_record e (rec_record_id r) = Some r" "rec_state_id r = st"
    "um_find (eng_current e) st = Some (rec_record_id r)" "digest_ok r"
    "st \<notin> X \<Longrightarrow> \<not> is_tombstoned e st (rec_state_generation r)"
    using rid by auto
qed

text \<open>Nothing but the current record of its own state goes by a record's id.\<close>

lemma service_points:
  assumes "service_inv X e" and "find_state e st = Some r"
  shows "um_find (eng_current e) st' = Some (rec_record_id r) \<longleftrightarrow> st' = st"
proof
  assume "um_find (eng_current e) st' = Some (rec_record_id r)"
  then have "find_state e st' = Some r" using service_find(1) [OF assms] by (simp add: find_state_def)
  with service_find(2) [OF assms(1)] assms(2) show "st' = st" by metis
qed (use service_find(3) [OF assms] in simp)

lemma service_no_current:
  assumes "service_inv X e"
  shows "find_state e st = None \<longleftrightarrow> um_find (eng_current e) st = None"
  using assms by (auto simp: find_state_def split: option.split elim: service_current)

lemma service_cong:
  assumes "eng_records e' = eng_records e" "eng_current e' = eng_current e"
    "eng_tombstones e' = eng_tombstones e" "eng_indexes e' = eng_indexes e"
    "um_ok (eng_history e) \<Longrightarrow> um_ok (eng_history e')" "\<And>st. history_ids e' st = history_ids e st"
  shows "service_inv X e \<Longrightarrow> service_inv X e'"
proof -
  have v: "get_record e' = get_record e" "is_tombstoned e' = is_tombstoned e"
    by (intro ext views_cong assms(1,3))+
  show "service_inv X e \<Longrightarrow> service_inv X e'"
    using assms(5) queryable_cong [OF assms(1,4)]
    by (simp add: service_inv_def pointers_inv_def history_inv_def v assms(2,6))
qed

lemma service_accounting: "same_but_accounting e e' \<Longrightarrow> service_inv X e \<Longrightarrow> service_inv X e'"
  by (rule service_cong) (auto simp: same_but_accounting_fields history_ids_def)

lemma service_touch: "service_inv X e \<Longrightarrow> service_inv X (touch_history st e)"
proof (rule service_cong)
  show "um_ok (eng_history e) \<Longrightarrow> um_ok (eng_history (touch_history st e))"
    by (simp add: touch_history_def)
qed simp_all

section \<open>The shared updates keep it\<close>

lemma service_add_new:
  assumes inv: "service_inv X e" and new: "get_record e (rec_record_id rec) = None" and "digest_ok rec"
  shows "service_inv X (add_new rec e)"
proof -
  have parts: "queryable e" "history_inv e" "pointers_inv X e" and ok: "um_ok (eng_current e)" using inv by (simp_all add: service_inv_def)
  have "index_inv (add_new rec e)" by (rule index_inv_add_new) (use parts(1) new in \<open>simp_all add: queryable_def\<close>)
  then have "queryable (add_new rec e)" using parts(1) assms(3) by (auto simp: queryable_def)
  moreover have "history_inv (add_new rec e)"
    using parts(2) new by (auto simp: history_inv_def) (auto simp: add_new_def push_history_def)
  moreover have "pointers_inv X (add_new rec e)"
    using parts(3) new by (fastforce simp: pointers_inv_def)
  ultimately show ?thesis using ok by (simp add: service_inv_def)
qed

lemma service_replace:
  assumes inv: "service_inv X e" and old: "get_record e (rec_record_id u) = Some r" "same_identity r u" and "digest_ok u"
  shows "service_inv X (replace_record u e)"
proof -
  have parts: "queryable e" "history_inv e" "pointers_inv X e" and ok: "um_ok (eng_current e)" using inv by (simp_all add: service_inv_def)
  have "index_inv (replace_record u e)"
    by (rule index_inv_replace [OF _ old]) (use parts(1) in \<open>simp add: queryable_def\<close>)
  then have "queryable (replace_record u e)"
    using parts(1) assms(4) by (auto simp: queryable_def) (simp add: replace_record_def)
  moreover have "pointers_inv X (replace_record u e)"
  proof -
    have "is_tombstoned (replace_record u e) = is_tombstoned e" by (intro ext views_cong) simp
    with parts(3) old show ?thesis by (fastforce simp: pointers_inv_def same_identity_def)
  qed
  moreover have "history_inv (replace_record u e)" by (rule history_inv_replace [OF parts(2) old])
  ultimately show ?thesis using ok by (simp add: service_inv_def)
qed

lemma service_retire:
  assumes "service_inv X e" and "get_record e rid = Some r"
  shows "service_inv X (replace_record (retire lc r) e)"
  by (rule service_replace [OF assms(1), of _ r]) (simp_all add: assms service_id [OF assms])

text \<open>Moving the current record of a state, with any change of the authority beside it.\<close>

lemma service_point:
  assumes inv: "service_inv X e"
    and to: "\<And>st rid. um_find cur st = Some rid \<Longrightarrow> um_find (eng_current e) st = Some rid \<or>
      (\<exists>r. get_record e rid = Some r \<and> rec_state_id r = st \<and> \<not> is_tombstoned e st (rec_state_generation r))"
    and ok: "um_ok cur" and e': "e' = e\<lparr>eng_current := cur, eng_authority := a\<rparr>"
  shows "service_inv X e'"
proof -
  have v: "get_record e' = get_record e" "is_tombstoned e' = is_tombstoned e" "history_ids e' = history_ids e"
    by (intro ext views_cong; simp add: e')+
  have "queryable e'" "um_ok (eng_current e')"
    using inv ok queryable_cong [of e' e] by (simp_all add: e' service_inv_def)
  moreover have "history_inv e'" using inv unfolding service_inv_def history_inv_def v by (simp add: e')
  moreover have "pointers_inv X e'"
    using inv to unfolding service_inv_def pointers_inv_def v by (fastforce simp: e')
  ultimately show ?thesis by (simp add: service_inv_def)
qed

lemma service_make_current:
  assumes "service_inv X e" and "get_record e (rec_record_id rec) = Some rec"
    and "\<not> is_tombstoned e (rec_state_id rec) (rec_state_generation rec)"
  shows "service_inv X (make_current rec e)"
  by (rule service_point [OF assms(1), where cur = "eng_current (make_current rec e)" and a = "eng_authority (make_current rec e)"])
    (use assms in \<open>auto simp: service_inv_def make_current_def set_authority_of_def split: if_splits\<close>)

lemma service_clear_current: "service_inv X e \<Longrightarrow> service_inv X (clear_current st e)"
  by (rule service_point [where cur = "eng_current (clear_current st e)" and a = "eng_authority (clear_current st e)"])
    (auto simp: service_inv_def clear_current_def split: if_splits)

lemma service_find_add_new:
  assumes "service_inv X e" and "get_record e (rec_record_id rec) = None"
  shows "find_state (add_new rec e) st = find_state e st"
proof -
  have "um_find (eng_current e) st \<noteq> Some (rec_record_id rec)"
    using assms by (auto elim: service_current)
  then show ?thesis by (auto simp: find_state_def split: option.splits)
qed

section \<open>The newest record of a state\<close>

text \<open>The records a current record can be chosen among.\<close>

definition counted :: "StateIndexEngine \<Rightarrow> StateId \<Rightarrow> StateRecord \<Rightarrow> bool" where
  "counted e st r \<longleftrightarrow> rec_state_id r = st \<and> outstanding r \<and> \<not> is_tombstoned e st (rec_state_generation r)"

definition newest_inv :: "StateIndexEngine \<Rightarrow> bool" where
  "newest_inv e \<longleftrightarrow> (\<forall>rid r. get_record e rid = Some r \<and> counted e (rec_state_id r) r \<longrightarrow>
     (\<exists>c. find_state e (rec_state_id r) = Some c \<and> rec_state_generation r \<le> rec_state_generation c))"

definition serving :: "StateIndexEngine \<Rightarrow> bool" where
  "serving e \<longleftrightarrow> service_inv {} e \<and> newest_inv e"

lemma servingD: "serving e \<Longrightarrow> service_inv {} e" "serving e \<Longrightarrow> newest_inv e" "serving e \<Longrightarrow> queryable e"
  by (simp_all add: serving_def service_inv_def)

lemma engine_inv_serving: "engine_inv e \<Longrightarrow> serving e"
  by (auto simp: serving_def engine_inv_service newest_inv_def counted_def)
    (auto simp: engine_inv_def max_inv_except_def)

lemma newest_cong:
  assumes "get_record e' = get_record e" "find_state e' = find_state e" "is_tombstoned e' = is_tombstoned e"
  shows "newest_inv e' = newest_inv e"
  by (simp add: newest_inv_def counted_def assms)

text \<open>Retiring records, and keeping the current generation where one is left that counts.\<close>

lemma newest_kept:
  assumes inv: "newest_inv e"
    and from_old: "\<And>rid r. get_record e' rid = Some r \<Longrightarrow> counted e' (rec_state_id r) r \<Longrightarrow>
      \<exists>r0. get_record e rid = Some r0 \<and> counted e (rec_state_id r) r0 \<and> rec_state_generation r0 = rec_state_generation r \<and>
        map_option rec_state_generation (find_state e' (rec_state_id r)) =
        map_option rec_state_generation (find_state e (rec_state_id r))"
  shows "newest_inv e'"
  unfolding newest_inv_def
proof (intro allI impI, elim conjE)
  fix rid r assume r: "get_record e' rid = Some r" "counted e' (rec_state_id r) r"
  from from_old [OF r] obtain r0 where r0: "get_record e rid = Some r0" "counted e (rec_state_id r) r0"
    "rec_state_generation r0 = rec_state_generation r"
    "map_option rec_state_generation (find_state e' (rec_state_id r)) =
      map_option rec_state_generation (find_state e (rec_state_id r))" by blast
  then have "rec_state_id r0 = rec_state_id r" by (simp add: counted_def)
  with inv r0 obtain c where "find_state e (rec_state_id r) = Some c" "rec_state_generation r \<le> rec_state_generation c"
    unfolding newest_inv_def by metis
  with r0(4) show "\<exists>c. find_state e' (rec_state_id r) = Some c \<and> rec_state_generation r \<le> rec_state_generation c"
    by auto
qed

end
