(* ===== verification/EngineOps.thy ===== *)
theory EngineOps
  imports ServiceInv
begin

text \<open>
  The mutations of the engine keep its invariant, leave everything but the rejection counters
  alone when they reject, and move the current record of a state only upwards. The contract
  every mutation meets is the locale \<open>engine_mutation\<close>; each of the five is an instance.
\<close>

section \<open>Registration\<close>

lemma stamp_simps [simp]:
  "rec_record_id (stamp env r) = rec_record_id r"
  "rec_state_id (stamp env r) = rec_state_id r"
  "rec_state_generation (stamp env r) = rec_state_generation r"
  "rec_authority_boot (stamp env r) = env_worker_boot env"
  "rec_lifecycle (stamp env r) = rec_lifecycle r"
  "rec_locations (stamp env r) = rec_locations r"
  "rec_dependencies (stamp env r) = rec_dependencies r"
  "\<not> rec_is_historical (stamp env r)"
  "digest_ok (stamp env r)"
  by (simp_all add: stamp_def)

text \<open>When a registration is accepted, and the engine it then leaves.\<close>

definition may_register :: "StateRecord \<Rightarrow> MutationEnvelope \<Rightarrow> StateIndexEngine \<Rightarrow> bool" where
  "may_register rec env e \<longleftrightarrow>
     mvd_verdict (validate_state_publication (eng_authority e) (rec_state_id rec) env (rec_state_generation rec))
       = MutationVerdict_ACCEPTED \<and>
     get_record e (rec_record_id rec) = None \<and>
     \<not> is_tombstoned e (rec_state_id rec) (rec_state_generation rec)"

definition publish :: "StateRecord \<Rightarrow> StateIndexEngine \<Rightarrow> StateIndexEngine" where
  "publish rec e =
     (case find_state e (rec_state_id rec) of
        None \<Rightarrow> make_current rec (add_new rec e)
      | Some old \<Rightarrow>
          if rec_state_generation old < rec_state_generation rec
          then make_current rec (replace_record (retire Lifecycle_SUPERSEDED old) (add_new rec e))
          else add_new rec e)"

lemma find_state_SomeD:
  assumes "core_inv e" and "find_state e st = Some r"
  shows "get_record e (rec_record_id r) = Some r" and "rec_state_id r = st"
    and "um_find (eng_current e) st = Some (rec_record_id r)"
    and "\<not> is_tombstoned e st (rec_state_generation r)" and "is_set (rec_state_generation r)" and "digest_ok r"
proof -
  from assms(2) obtain rid where rid: "um_find (eng_current e) st = Some rid" "get_record e rid = Some r"
    by (auto simp: find_state_def split: option.splits)
  with assms(1) have "rec_record_id r = rid \<and> digest_ok r \<and> is_set (rec_state_generation r)"
    by (simp add: core_inv_def records_inv_def)
  moreover have "rec_state_id r = st \<and> \<not> is_tombstoned e st (rec_state_generation r)"
    using assms(1) rid unfolding core_inv_def current_inv_def by force
  ultimately show "get_record e (rec_record_id r) = Some r" "rec_state_id r = st"
    "um_find (eng_current e) st = Some (rec_record_id r)"
    "\<not> is_tombstoned e st (rec_state_generation r)" "is_set (rec_state_generation r)" "digest_ok r"
    using rid by auto
qed

lemma set_current_publish:
  assumes inv: "service_inv X e" and new: "get_record e (rec_record_id rec) = None"
  shows "set_current rec (e\<lparr>eng_records := um_put (rec_record_id rec) rec (eng_records e),
      eng_indexes := idx_insert rec (eng_indexes e)\<rparr>) = publish rec e"
proof (cases "um_find (eng_current e) (rec_state_id rec)")
  case None
  then show ?thesis by (simp add: set_current_def publish_def find_state_def add_new_def [symmetric])
next
  case (Some old_id)
  with inv obtain old where old: "get_record e old_id = Some old" by (rule service_current) blast
  with new have "old_id \<noteq> rec_record_id rec" by auto
  with Some old show ?thesis
    by (simp add: set_current_def publish_def find_state_def add_new_def [symmetric] Let_def)
qed

lemma register_state_accepted:
  assumes "service_inv X e" and "may_register rec env e"
  shows "mvd_verdict (fst (register_state rec env e)) = MutationVerdict_ACCEPTED \<and>
    snd (register_state rec env e) = count_record (stamp env rec) (publish (stamp env rec) e)"
proof -
  have "get_record e (rec_record_id (stamp env rec)) = None"
    using assms(2) by (simp add: may_register_def)
  from set_current_publish [OF assms(1) this] assms(2) show ?thesis
    by (simp add: register_state_def may_register_def accepted_iff get_record_def Let_def)
qed

lemma register_state_rejected:
  assumes "\<not> may_register rec env e"
  shows "mvd_verdict (fst (register_state rec env e)) \<noteq> MutationVerdict_ACCEPTED \<and>
    (snd (register_state rec env e) = bump acc_duplicate_mutation_rejections_update e \<or>
     snd (register_state rec env e) = bump acc_stale_mutation_rejections_update e)"
  using assms by (auto simp: register_state_def may_register_def get_record_def Let_def)

lemma may_register_above_floor:
  assumes "may_register rec env e"
  shows "\<not> below_floor (eng_authority e) (rec_state_id rec) (rec_state_generation rec)"
    and "is_set (rec_state_generation rec)"
  using assms by (auto simp: may_register_def accepted_iff)

lemma engine_inv_publish:
  assumes inv: "engine_inv e" and new: "get_record e (rec_record_id rec) = None"
    and dig: "digest_ok rec" "is_set (rec_state_generation rec)"
    and floor': "\<not> below_floor (eng_authority e) (rec_state_id rec) (rec_state_generation rec)"
    and tomb: "\<not> is_tombstoned e (rec_state_id rec) (rec_state_generation rec)"
  shows "engine_inv (publish rec e)"
proof -
  have core: "core_inv e" and max: "max_inv_except {} e" using inv by (simp_all add: engine_inv_def)
  then have cur: "current_inv e" by (simp add: core_inv_def)
  let ?e1 = "add_new rec e"
  have core1: "core_inv ?e1" by (rule core_inv_add_new [OF core new dig floor'])
  have max1: "max_inv_except {rec_record_id rec} ?e1" by (rule max_inv_add_new [OF core new max])
  have find1: "find_state ?e1 st = find_state e st" for st by (rule find_state_add_new [OF cur new])
  show ?thesis
  proof (cases "find_state e (rec_state_id rec)")
    case None
    have "engine_inv (make_current rec ?e1)"
      unfolding engine_inv_def
      by (intro conjI core_inv_make_current max_inv_make_current core1 max1)
        (simp_all add: find1 None tomb)
    with None show ?thesis by (simp add: publish_def)
  next
    case (Some old)
    with find_state_SomeD [OF core] have old: "get_record e (rec_record_id old) = Some old"
      "rec_state_id old = rec_state_id rec" by blast+
    with new have ne: "rec_record_id old \<noteq> rec_record_id rec" by auto
    show ?thesis
    proof (cases "rec_state_generation old < rec_state_generation rec")
      case True
      let ?u = "retire Lifecycle_SUPERSEDED old" and ?e2 = "replace_record (retire Lifecycle_SUPERSEDED old) ?e1"
      have get: "get_record ?e1 (rec_record_id ?u) = Some old" using old ne by simp
      have core2: "core_inv ?e2" by (rule core_inv_replace [OF core1 get]) simp_all
      have max2: "max_inv_except {rec_record_id rec} ?e2" by (rule max_inv_replace [OF max1 get]) simp_all
      have "is_tombstoned ?e2 = is_tombstoned ?e1" by (intro ext views_cong) simp
      then have "engine_inv (make_current rec ?e2)"
        unfolding engine_inv_def using True ne old tomb
        by (intro conjI core_inv_make_current max_inv_make_current core2 max2)
          (auto simp: find_state_replace find1 Some split: if_splits)
      with Some True show ?thesis by (simp add: publish_def)
    next
      case False
      have "max_inv_except {} ?e1"
        unfolding max_inv_except_def
      proof (intro allI impI, elim conjE)
        fix rid r assume r: "get_record ?e1 rid = Some r" "outstanding r"
        show "\<exists>c. find_state ?e1 (rec_state_id r) = Some c \<and> rec_state_generation r \<le> rec_state_generation c"
        proof (cases "rid = rec_record_id rec")
          case True
          with r have "r = rec" by simp
          moreover have "find_state ?e1 (rec_state_id rec) = Some old" by (simp add: find1 Some)
          ultimately show ?thesis using False by simp
        next
          case False
          with max1 r show ?thesis unfolding max_inv_except_def by blast
        qed
      qed
      with core1 Some False show ?thesis by (simp add: publish_def engine_inv_def)
    qed
  qed
qed

lemma engine_inv_register:
  assumes inv: "engine_inv e"
  shows "engine_inv (snd (register_state rec env e))"
proof (cases "may_register rec env e")
  case True
  have "engine_inv (publish (stamp env rec) e)"
    using True may_register_above_floor [OF True]
    by (intro engine_inv_publish [OF inv]) (simp_all add: may_register_def)
  with register_state_accepted [OF engine_inv_service [OF inv] True] show ?thesis
    by (auto intro: engine_inv_accounting [OF same_but_accounting_count_record])
next
  case False
  with register_state_rejected [OF False] show ?thesis
    by (auto intro: engine_inv_accounting [OF _ inv])
qed

section \<open>Locations\<close>

lemma engine_inv_replace:
  assumes "engine_inv e" and "get_record e (rec_record_id u) = Some r" and "same_identity r u"
    and "digest_ok u" and "outstanding u \<Longrightarrow> outstanding r"
  shows "engine_inv (replace_record u e)"
  using assms unfolding engine_inv_def by (blast intro: core_inv_replace max_inv_replace)

lemma engine_inv_relocate:
  assumes inv: "engine_inv e" and "find_state e st = Some r" and "same_but_accounting e e'"
  shows "engine_inv (replace_record (with_locations ls r) e')"
proof (rule engine_inv_replace)
  show "engine_inv e'" by (rule engine_inv_accounting [OF assms(3) inv])
  have "get_record e (rec_record_id r) = Some r"
    using find_state_SomeD(1) [OF _ assms(2)] inv by (simp add: engine_inv_def)
  moreover have "get_record e' = get_record e"
    using assms(3) by (intro ext views_cong) (rule same_but_accounting_fields)
  ultimately show "get_record e' (rec_record_id (with_locations ls r)) = Some r" by simp
qed simp_all

lemma engine_inv_add_location:
  assumes "engine_inv e"
  shows "engine_inv (snd (add_location st loc env e))"
  using assms
  by (auto simp: add_location_def Let_def split: option.splits
      intro!: engine_inv_relocate same_but_accounting_count_put)

lemma engine_inv_remove_location:
  assumes "engine_inv e"
  shows "engine_inv (snd (remove_location st p env e))"
proof -
  have acc: "same_but_accounting x (x\<lparr>eng_accounting := a\<rparr>)" for x a
    by (simp add: same_but_accounting_def)
  show ?thesis
    using assms
    by (auto simp: remove_location_def Let_def split: option.splits
        intro!: engine_inv_accounting [OF acc] engine_inv_relocate)
qed

section \<open>Marking the history of a state\<close>

text \<open>The loops of \<^verbatim>\<open>invalidate\<close> and \<^verbatim>\<open>tombstone\<close> rewrite single records and touch nothing else
  but the indexes.\<close>

definition same_views :: "StateIndexEngine \<Rightarrow> StateIndexEngine \<Rightarrow> bool" where
  "same_views e e' \<longleftrightarrow>
     eng_current e' = eng_current e \<and> eng_history e' = eng_history e \<and>
     eng_tombstones e' = eng_tombstones e \<and> eng_authority e' = eng_authority e \<and>
     eng_invalidations e' = eng_invalidations e \<and> eng_invalidation_seq e' = eng_invalidation_seq e \<and>
     eng_accounting e' = eng_accounting e"

lemma same_views_refl [simp]: "same_views e e"
  by (simp add: same_views_def)

lemma same_views_trans: "same_views e f \<Longrightarrow> same_views f g \<Longrightarrow> same_views e g"
  by (simp add: same_views_def)

lemma same_views_replace [simp]: "same_views e (replace_record u e)"
  by (simp add: same_views_def)

text \<open>A record rewritten by a mark that only ends a record.\<close>

definition marked :: "(StateRecord \<Rightarrow> bool) \<Rightarrow> Lifecycle \<Rightarrow> StateRecord \<Rightarrow> StateRecord" where
  "marked P lc r = (if P r then retire lc r else r)"

lemma retire_retire [simp]: "retire lc (retire lc' r) = retire lc r"
  by (simp add: retire_def redigest_def compute_semantic_digest_def canonical_without_digest_def
      StateRecord_serialize_def)

lemma invalidate_entry_fold:
  assumes "service_inv X e"
  shows "service_inv X (snd (foldl (invalidate_entry b) (c, e) rs)) \<and>
    same_views e (snd (foldl (invalidate_entry b) (c, e) rs)) \<and>
    (\<forall>rid. get_record (snd (foldl (invalidate_entry b) (c, e) rs)) rid =
       map_option (marked (\<lambda>_. \<exists>x\<in>set rs. rec_record_id x = rid \<and> rec_state_generation x \<le> b \<and>
           rec_lifecycle x \<noteq> Lifecycle_INVALIDATED) Lifecycle_INVALIDATED) (get_record e rid))"
  using assms
proof (induction rs arbitrary: c e)
  case Nil
  then show ?case by (simp add: marked_def option.map_ident)
next
  case (Cons x rs)
  show ?case
  proof (cases "rec_state_generation x \<le> b \<and> rec_lifecycle x \<noteq> Lifecycle_INVALIDATED \<and>
      get_record e (rec_record_id x) \<noteq> None")
    case False
    then have "invalidate_entry b (c, e) x = (c, e)"
      by (auto simp: invalidate_entry_def split: option.splits)
    moreover have "map_option (marked (\<lambda>_. \<exists>y\<in>set (x # rs). rec_record_id y = rid \<and> rec_state_generation y \<le> b \<and>
           rec_lifecycle y \<noteq> Lifecycle_INVALIDATED) Lifecycle_INVALIDATED) (get_record e rid) =
       map_option (marked (\<lambda>_. \<exists>y\<in>set rs. rec_record_id y = rid \<and> rec_state_generation y \<le> b \<and>
           rec_lifecycle y \<noteq> Lifecycle_INVALIDATED) Lifecycle_INVALIDATED) (get_record e rid)" for rid
      using False by (cases "get_record e rid") (auto simp: marked_def)
    ultimately show ?thesis using Cons by simp
  next
    case True
    then obtain sr where sr: "get_record e (rec_record_id x) = Some sr" by blast
    have id: "rec_record_id sr = rec_record_id x" by (rule service_id [OF Cons.prems sr])
    let ?e = "replace_record (retire Lifecycle_INVALIDATED sr) e"
    have step: "invalidate_entry b (c, e) x = (True, ?e)"
      using True sr by (simp add: invalidate_entry_def)
    have "service_inv X ?e" by (rule service_retire [OF Cons.prems sr])
    from Cons.IH [OF this, of True] show ?thesis
      using True sr id by (auto simp: step marked_def intro: same_views_trans [OF same_views_replace])
  qed
qed

lemma engine_inv_retire:
  assumes "engine_inv e" and "get_record e rid = Some r" and "terminal_lifecycle lc"
  shows "engine_inv (replace_record (retire lc r) e)"
  by (rule engine_inv_replace [OF assms(1), of _ r])
    (use assms service_id [OF engine_inv_service [OF assms(1)] assms(2)] in simp_all)

lemma engine_inv_invalidate_entries:
  "engine_inv (snd ce) \<Longrightarrow> engine_inv (snd (foldl (invalidate_entry b) ce rs))"
proof (induction rs arbitrary: ce)
  case (Cons r rs)
  then have "engine_inv (snd (invalidate_entry b ce r))"
    by (auto simp: invalidate_entry_def engine_inv_retire split: option.split)
  with Cons.IH show ?case by simp
qed simp

section \<open>Invalidation\<close>

lemma engine_inv_cong:
  assumes "eng_records e' = eng_records e" "eng_current e' = eng_current e"
    "eng_tombstones e' = eng_tombstones e" "eng_indexes e' = eng_indexes e"
    "um_ok (eng_history e) \<Longrightarrow> um_ok (eng_history e')" "\<And>st. history_ids e' st = history_ids e st"
    "auth_current_authority (eng_authority e') = auth_current_authority (eng_authority e)"
    "auth_tombstone_floor (eng_authority e') = auth_tombstone_floor (eng_authority e)"
  shows "engine_inv e \<Longrightarrow> engine_inv e'"
  unfolding engine_inv_def using core_inv_cong [OF assms] by blast

lemma engine_inv_touch: "engine_inv e \<Longrightarrow> engine_inv (touch_history st e)"
proof (rule engine_inv_cong)
  show "um_ok (eng_history e) \<Longrightarrow> um_ok (eng_history (touch_history st e))"
    by (simp add: touch_history_def)
qed simp_all

definition log_invalidation :: "InvalidationRecord \<Rightarrow> MutationEnvelope \<Rightarrow> StateIndexEngine \<Rightarrow> StateIndexEngine" where
  "log_invalidation i env e = bump acc_invalidations_update
     (e\<lparr>eng_invalidation_seq := eng_invalidation_seq e + 1,
        eng_invalidations := eng_invalidations e @ [stamp_invalidation (eng_invalidation_seq e + 1) env i]\<rparr>)"

lemma log_invalidation_frame [simp]:
  "eng_records (log_invalidation i env e) = eng_records e"
  "eng_current (log_invalidation i env e) = eng_current e"
  "eng_history (log_invalidation i env e) = eng_history e"
  "eng_tombstones (log_invalidation i env e) = eng_tombstones e"
  "eng_authority (log_invalidation i env e) = eng_authority e"
  "eng_indexes (log_invalidation i env e) = eng_indexes e"
  by (simp_all add: log_invalidation_def)

lemma log_invalidation_views [simp]:
  "get_record (log_invalidation i env e) = get_record e"
  "find_state (log_invalidation i env e) = find_state e"
  "history_ids (log_invalidation i env e) = history_ids e"
  by (intro ext views_cong; simp)+

lemma engine_inv_log: "engine_inv e \<Longrightarrow> engine_inv (log_invalidation i env e)"
  by (rule engine_inv_cong) simp_all

lemma service_log: "service_inv X e \<Longrightarrow> service_inv X (log_invalidation i env e)"
  by (rule service_cong) simp_all

lemma set_history_of:
  assumes "service_inv X e"
  shows "set (history_of e st) = {r. get_record e (rec_record_id r) = Some r \<and> rec_state_id r = st}"
proof -
  have mem: "r \<in> set (history_of e st) \<longleftrightarrow> (\<exists>rid\<in>set (history_ids e st). get_record e rid = Some r)" for r
    by (force simp: history_of_def List.map_filter_def)
  have ids: "rid \<in> set (history_ids e st) \<longleftrightarrow> (\<exists>r. get_record e rid = Some r \<and> rec_state_id r = st)" for rid
    using assms by (simp add: service_inv_def history_inv_def)
  note key = service_id [OF assms]
  show ?thesis
  proof (intro set_eqI iffI)
    fix r assume "r \<in> set (history_of e st)"
    then obtain rid where "rid \<in> set (history_ids e st)" "get_record e rid = Some r" using mem by blast
    with ids [of rid] key [of rid r] show "r \<in> {r. get_record e (rec_record_id r) = Some r \<and> rec_state_id r = st}"
      by simp
  next
    fix r assume "r \<in> {r. get_record e (rec_record_id r) = Some r \<and> rec_state_id r = st}"
    then have "get_record e (rec_record_id r) = Some r" "rec_record_id r \<in> set (history_ids e st)"
      using ids by auto
    then show "r \<in> set (history_of e st)" using mem by blast
  qed
qed

text \<open>What an accepted invalidation does to each record.\<close>

definition invalidated :: "StateId \<Rightarrow> StateGeneration \<Rightarrow> StateRecord \<Rightarrow> StateRecord" where
  "invalidated st b r =
     (if rec_state_id r = st \<and> rec_state_generation r \<le> b \<and> rec_lifecycle r \<noteq> Lifecycle_INVALIDATED
      then retire Lifecycle_INVALIDATED r else r)"

definition mark_invalidated :: "StateId \<Rightarrow> StateGeneration \<Rightarrow> StateIndexEngine \<Rightarrow> bool \<times> StateIndexEngine" where
  "mark_invalidated st b e = foldl (invalidate_entry b) (False, e) (history_of e st)"

lemma mark_invalidated:
  assumes "service_inv X e"
  shows "service_inv X (snd (mark_invalidated st b e))"
    and "same_views e (snd (mark_invalidated st b e))"
    and "get_record (snd (mark_invalidated st b e)) rid = map_option (invalidated st b) (get_record e rid)"
proof -
  note fold = invalidate_entry_fold [OF assms, of b False "history_of e st"]
  from fold show "service_inv X (snd (mark_invalidated st b e))" "same_views e (snd (mark_invalidated st b e))"
    by (simp_all add: mark_invalidated_def)
  have "marked (\<lambda>_. \<exists>x\<in>set (history_of e st). rec_record_id x = rid \<and> rec_state_generation x \<le> b \<and>
      rec_lifecycle x \<noteq> Lifecycle_INVALIDATED) Lifecycle_INVALIDATED r = invalidated st b r"
    if r: "get_record e rid = Some r" for r
  proof -
    have "rec_record_id r = rid" by (rule service_id [OF assms r])
    with r have "(\<exists>x\<in>set (history_of e st). rec_record_id x = rid \<and> rec_state_generation x \<le> b \<and>
        rec_lifecycle x \<noteq> Lifecycle_INVALIDATED) \<longleftrightarrow>
        rec_state_id r = st \<and> rec_state_generation r \<le> b \<and> rec_lifecycle r \<noteq> Lifecycle_INVALIDATED"
      unfolding set_history_of [OF assms] by auto
    then show ?thesis by (simp only: marked_def invalidated_def)
  qed
  with fold show "get_record (snd (mark_invalidated st b e)) rid = map_option (invalidated st b) (get_record e rid)"
    unfolding mark_invalidated_def by (cases "get_record e rid") simp_all
qed

lemma engine_inv_mark_invalidated: "engine_inv e \<Longrightarrow> engine_inv (snd (mark_invalidated st b e))"
  unfolding mark_invalidated_def by (rule engine_inv_invalidate_entries) simp

text \<open>The generation bound of an accepted invalidation covers the whole state: no record of it
  stays to be counted, so the search for a record to promote comes back empty.\<close>

lemma none_left_after_mark:
  assumes inv: "service_inv X e"
    and r: "get_record (snd (mark_invalidated st b e)) rid = Some r" "rec_state_id r = st" "outstanding r"
  shows "get_record e rid = Some r" and "b < rec_state_generation r"
proof -
  from r obtain r0 where r0: "get_record e rid = Some r0" "r = invalidated st b r0"
    by (auto simp: mark_invalidated(3) [OF inv])
  moreover have "rec_state_id r0 = st" using r(2) r0(2) by (auto simp: invalidated_def split: if_splits)
  ultimately have eq: "r = r0 \<and> \<not> rec_state_generation r \<le> b"
    using r(3) by (auto simp: invalidated_def outstanding_def split: if_splits)
  then show "get_record e rid = Some r" using r0(1) by simp
  from eq show "b < rec_state_generation r" unfolding not_le by (rule conjunct2)
qed

lemma none_outstanding_after_mark:
  assumes inv: "engine_inv e" and below: "\<And>r. find_state e st = Some r \<Longrightarrow> rec_state_generation r \<le> b"
    and r: "get_record (snd (mark_invalidated st b e)) rid = Some r" "rec_state_id r = st"
  shows "\<not> outstanding r"
proof
  assume el: "outstanding r"
  note left = none_left_after_mark [OF engine_inv_service [OF inv] r el]
  from inv left(1) el r(2) obtain c where "find_state e st = Some c" "rec_state_generation r \<le> rec_state_generation c"
    unfolding engine_inv_def max_inv_except_def by blast
  with below [of c] left(2) show False by (meson order_trans not_le)
qed

lemma none_counted_after_mark:
  assumes inv: "serving e" and below: "\<And>r. find_state e st = Some r \<Longrightarrow> rec_state_generation r \<le> b"
    and r: "get_record (snd (mark_invalidated st b e)) rid = Some r"
  shows "\<not> counted (snd (mark_invalidated st b e)) st r"
proof
  note srv = servingD(1) [OF inv]
  assume "counted (snd (mark_invalidated st b e)) st r"
  moreover have "is_tombstoned (snd (mark_invalidated st b e)) = is_tombstoned e"
    using mark_invalidated(2) [OF srv, of st b] by (intro ext views_cong) (simp add: same_views_def)
  ultimately have c: "counted e st r" "rec_state_id r = st" "outstanding r" by (simp_all add: counted_def)
  note left = none_left_after_mark [OF srv r c(2,3)]
  from servingD(2) [OF inv] left(1) c(1,2) obtain c where "find_state e st = Some c"
    "rec_state_generation r \<le> rec_state_generation c"
    unfolding newest_inv_def by blast
  with below [of c] left(2) show False by (meson order_trans not_le)
qed

lemma promote_nothing:
  assumes "service_inv X e" and "\<And>rid r. get_record e rid = Some r \<Longrightarrow> \<not> counted e st r"
  shows "promote st b e = clear_current st (touch_history st e)"
proof -
  have views: "get_record (touch_history st e) = get_record e" "is_tombstoned (touch_history st e) = is_tombstoned e"
    by (intro ext views_cong; simp)+
  have "\<not> eligible r \<or> is_tombstoned e (rec_state_id r) (rec_state_generation r)"
    if "get_record e rid = Some r" "rec_state_id r = st" for rid r
    using assms(2) [OF that(1)] eligible_outstanding that(2) by (auto simp: counted_def)
  then have "better_candidate (touch_history st e) b None rid = None" if "rid \<in> set (history_ids e st)" for rid
    using that assms(1) by (fastforce simp: better_candidate_def views service_inv_def history_inv_def split: option.split)
  then have "set rs \<subseteq> set (history_ids e st) \<Longrightarrow>
      foldl (better_candidate (touch_history st e) b) None rs = None" for rs
    by (induction rs) auto
  then show ?thesis by (simp add: promote_def)
qed

definition may_invalidate :: "InvalidationRecord \<Rightarrow> MutationEnvelope \<Rightarrow> StateIndexEngine \<Rightarrow> bool" where
  "may_invalidate i env e \<longleftrightarrow> guard_authority env e = None \<and>
     (\<forall>r. find_state e (inv_state_id i) = Some r \<longrightarrow> rec_state_generation r \<le> inv_bound_generation i)"

lemma guard_authority_verdict: "guard_authority env e = Some v \<Longrightarrow> mvd_verdict v \<noteq> MutationVerdict_ACCEPTED"
  by (auto simp: guard_authority_def split: if_splits)

lemma invalidate_rejected:
  assumes "\<not> may_invalidate i env e"
  shows "mvd_verdict (fst (invalidate i env e)) \<noteq> MutationVerdict_ACCEPTED" and "snd (invalidate i env e) = e"
  using assms
  by (auto simp: invalidate_def may_invalidate_def Let_def guard_authority_verdict not_le split: option.splits)

lemma invalidate_accepted:
  assumes inv: "serving e" and ok: "may_invalidate i env e"
  defines "st \<equiv> inv_state_id i" and "b \<equiv> inv_bound_generation i"
  defines "e2 \<equiv> snd (mark_invalidated st b (log_invalidation i env e))"
  shows "mvd_verdict (fst (invalidate i env e)) = MutationVerdict_ACCEPTED"
    and "snd (invalidate i env e) = e2 \<and> find_state e2 st = None \<or>
         snd (invalidate i env e) = clear_current st (touch_history st e2)"
proof -
  let ?e1 = "log_invalidation i env e"
  obtain changed where ce: "mark_invalidated st b ?e1 = (changed, e2)"
    unfolding e2_def by (metis prod.collapse)
  have notabove: "\<not> (case find_state e st of None \<Rightarrow> False | Some r \<Rightarrow> rec_state_generation r > b)"
    using ok by (auto simp: may_invalidate_def st_def b_def split: option.splits)
  have run: "fst (invalidate i env e) = verdict_detail MutationVerdict_ACCEPTED
        (''invalidated state '' @ id_to_string st @ '' through generation '' @ gen_to_string b) \<and>
      snd (invalidate i env e) = (if changed \<or> find_state e st \<noteq> None then promote st b e2 else e2)"
    using ok notabove ce unfolding invalidate_def may_invalidate_def Let_def log_invalidation_def
      mark_invalidated_def st_def b_def by (auto split: prod.splits)
  then show "mvd_verdict (fst (invalidate i env e)) = MutationVerdict_ACCEPTED" by simp
  have srv1: "service_inv {} ?e1" by (rule service_log [OF servingD(1) [OF inv]])
  have "newest_inv ?e1 = newest_inv e" by (rule newest_cong) (simp_all add: fun_eq_iff is_tombstoned_def)
  with srv1 servingD(2) [OF inv] have inv1: "serving ?e1" by (simp add: serving_def)
  have srv2: "service_inv {} e2" and views: "same_views ?e1 e2"
    unfolding e2_def by (rule mark_invalidated [OF srv1])+
  have "\<not> counted e2 st r" if "get_record e2 rid = Some r" for rid r
    using none_counted_after_mark [OF inv1, of st b rid r] that ok
    by (simp add: e2_def may_invalidate_def st_def b_def)
  then have prom: "promote st b e2 = clear_current st (touch_history st e2)" by (rule promote_nothing [OF srv2])
  have "find_state e2 st = None" if "find_state e st = None"
    using that service_no_current [OF srv2] service_no_current [OF servingD(1) [OF inv]] views
    by (simp add: same_views_def)
  with run prom show "snd (invalidate i env e) = e2 \<and> find_state e2 st = None \<or>
      snd (invalidate i env e) = clear_current st (touch_history st e2)" by auto
qed

lemma engine_inv_invalidate:
  assumes inv: "engine_inv e"
  shows "engine_inv (snd (invalidate i env e))"
proof (cases "may_invalidate i env e")
  case False
  with inv show ?thesis by (simp add: invalidate_rejected)
next
  case True
  let ?st = "inv_state_id i" and ?b = "inv_bound_generation i"
  let ?e2 = "snd (mark_invalidated ?st ?b (log_invalidation i env e))"
  have inv1: "engine_inv (log_invalidation i env e)" by (rule engine_inv_log [OF inv])
  have inv2: "engine_inv (touch_history ?st ?e2)"
    by (rule engine_inv_touch) (rule engine_inv_mark_invalidated [OF inv1])
  have "\<not> outstanding r" if "get_record ?e2 rid = Some r" "rec_state_id r = ?st" for rid r
    using none_outstanding_after_mark [OF inv1, of ?st ?b rid r] that True by (simp add: may_invalidate_def)
  moreover have "get_record (touch_history ?st ?e2) = get_record ?e2" by (intro ext views_cong) simp
  ultimately have "engine_inv (clear_current ?st (touch_history ?st ?e2))"
    using inv2 unfolding engine_inv_def
    by (intro conjI core_inv_clear_current max_inv_clear_current) simp_all
  with invalidate_accepted(2) [OF engine_inv_serving [OF inv] True] engine_inv_mark_invalidated [OF inv1] show ?thesis by auto
qed

section \<open>Tombstones\<close>

definition entombed :: "StateId \<Rightarrow> StateGeneration \<Rightarrow> StateRecord \<Rightarrow> StateRecord" where
  "entombed st f r =
     (if rec_state_id r = st \<and> rec_state_generation r \<le> f \<and> rec_lifecycle r \<noteq> Lifecycle_TOMBSTONED
      then retire Lifecycle_TOMBSTONED r else r)"

lemma entombed_simps [simp]:
  "rec_record_id (entombed st f r) = rec_record_id r"
  "rec_state_id (entombed st f r) = rec_state_id r"
  "rec_state_generation (entombed st f r) = rec_state_generation r"
  "rec_authority_boot (entombed st f r) = rec_authority_boot r"
  by (simp_all add: entombed_def)

lemma invalidated_simps [simp]:
  "rec_record_id (invalidated st b r) = rec_record_id r"
  "rec_state_id (invalidated st b r) = rec_state_id r"
  "rec_state_generation (invalidated st b r) = rec_state_generation r"
  "rec_authority_boot (invalidated st b r) = rec_authority_boot r"
  by (simp_all add: invalidated_def)

lemma entombed_retired:
  "rec_state_id r = st \<Longrightarrow> rec_state_generation r \<le> f \<Longrightarrow> \<not> outstanding (entombed st f r)"
  by (auto simp: entombed_def outstanding_def)

lemma invalidated_retired:
  "rec_state_id r = st \<Longrightarrow> rec_state_generation r \<le> b \<Longrightarrow> \<not> outstanding (invalidated st b r)"
  by (auto simp: invalidated_def outstanding_def)

lemma tombstone_entry_fold:
  assumes "service_inv X e"
  shows "service_inv X (foldl (tombstone_entry f) e ids) \<and> same_views e (foldl (tombstone_entry f) e ids) \<and>
    (\<forall>rid. get_record (foldl (tombstone_entry f) e ids) rid =
       map_option (marked (\<lambda>r. rid \<in> set ids \<and> rec_state_generation r \<le> f \<and>
           rec_lifecycle r \<noteq> Lifecycle_TOMBSTONED) Lifecycle_TOMBSTONED) (get_record e rid))"
  using assms
proof (induction ids arbitrary: e)
  case Nil
  then show ?case by (simp add: marked_def option.map_ident)
next
  case (Cons x ids)
  show ?case
  proof (cases "\<exists>r. get_record e x = Some r \<and> rec_state_generation r \<le> f \<and> rec_lifecycle r \<noteq> Lifecycle_TOMBSTONED")
    case False
    then have "tombstone_entry f e x = e" by (auto simp: tombstone_entry_def split: option.splits)
    moreover have "map_option (marked (\<lambda>r. rid \<in> set (x # ids) \<and> rec_state_generation r \<le> f \<and>
           rec_lifecycle r \<noteq> Lifecycle_TOMBSTONED) Lifecycle_TOMBSTONED) (get_record e rid) =
       map_option (marked (\<lambda>r. rid \<in> set ids \<and> rec_state_generation r \<le> f \<and>
           rec_lifecycle r \<noteq> Lifecycle_TOMBSTONED) Lifecycle_TOMBSTONED) (get_record e rid)" for rid
      using False by (cases "get_record e rid") (auto simp: marked_def)
    ultimately show ?thesis using Cons by simp
  next
    case True
    then obtain r where r: "get_record e x = Some r" "rec_state_generation r \<le> f"
      "rec_lifecycle r \<noteq> Lifecycle_TOMBSTONED" by blast
    have id: "rec_record_id r = x" by (rule service_id [OF Cons.prems r(1)])
    let ?e = "replace_record (retire Lifecycle_TOMBSTONED r) e"
    have step: "tombstone_entry f e x = ?e" using r by (simp add: tombstone_entry_def)
    have "service_inv X ?e" by (rule service_retire [OF Cons.prems r(1)])
    from Cons.IH [OF this] show ?thesis
      using r id by (auto simp: step marked_def intro: same_views_trans [OF same_views_replace])
  qed
qed

lemma engine_inv_tombstone_entries:
  "engine_inv e \<Longrightarrow> engine_inv (foldl (tombstone_entry f) e ids)"
proof (induction ids arbitrary: e)
  case (Cons rid ids)
  then have "engine_inv (tombstone_entry f e rid)"
    by (auto simp: tombstone_entry_def engine_inv_retire split: option.split)
  with Cons.IH show ?case by simp
qed simp

text \<open>The marking loop does not read the tombstones, the floors or the counters, so it commutes
  with the update of those fields that precedes it in the code.\<close>

definition raise_floor :: "StateId \<Rightarrow> TombstoneRecord \<Rightarrow> StateIndexEngine \<Rightarrow> StateIndexEngine" where
  "raise_floor st t e = touch_history st (bump acc_tombstones_update
     (e\<lparr>eng_tombstones := um_put st t (eng_tombstones e),
        eng_authority := set_tombstone_floor st (tomb_floor_generation t) (eng_authority e)\<rparr>))"

lemma raise_floor_frame [simp]:
  "eng_records (raise_floor st t e) = eng_records e"
  "eng_current (raise_floor st t e) = eng_current e"
  "eng_indexes (raise_floor st t e) = eng_indexes e"
  "eng_invalidations (raise_floor st t e) = eng_invalidations e"
  "eng_invalidation_seq (raise_floor st t e) = eng_invalidation_seq e"
  "eng_tombstones (raise_floor st t e) = um_put st t (eng_tombstones e)"
  "eng_authority (raise_floor st t e) = set_tombstone_floor st (tomb_floor_generation t) (eng_authority e)"
  by (simp_all add: raise_floor_def)

lemma raise_floor_views [simp]:
  "get_record (raise_floor st t e) = get_record e"
  "find_state (raise_floor st t e) = find_state e"
  by (intro ext views_cong; simp)+

lemma history_ids_raise_floor [simp]: "history_ids (raise_floor st t e) st' = history_ids e st'"
  unfolding raise_floor_def history_ids_touch by (rule views_cong) simp

lemma replace_raise_floor: "replace_record u (raise_floor st t e) = raise_floor st t (replace_record u e)"
  by (simp add: replace_record_def raise_floor_def touch_history_def bump_def history_ids_def)

lemma tombstone_entry_raise_floor:
  "foldl (tombstone_entry f) (raise_floor st t e) ids = raise_floor st t (foldl (tombstone_entry f) e ids)"
proof (induction ids arbitrary: e)
  case (Cons x ids)
  have "tombstone_entry f (raise_floor st t e) x = raise_floor st t (tombstone_entry f e x)"
    by (simp add: tombstone_entry_def replace_raise_floor split: option.split)
  with Cons show ?case by simp
qed simp

definition mark_entombed :: "StateId \<Rightarrow> StateGeneration \<Rightarrow> StateIndexEngine \<Rightarrow> StateIndexEngine" where
  "mark_entombed st f e = foldl (tombstone_entry f) e (history_ids e st)"

lemma mark_entombed:
  assumes "service_inv X e"
  shows "service_inv X (mark_entombed st f e)" and "same_views e (mark_entombed st f e)"
    and "get_record (mark_entombed st f e) rid = map_option (entombed st f) (get_record e rid)"
proof -
  note fold = tombstone_entry_fold [OF assms, of f "history_ids e st"]
  from fold show "service_inv X (mark_entombed st f e)" "same_views e (mark_entombed st f e)"
    by (simp_all add: mark_entombed_def)
  have "rid \<in> set (history_ids e st) \<longleftrightarrow> rec_state_id r = st" if "get_record e rid = Some r" for r
    using assms that by (auto simp: service_inv_def history_inv_def)
  with fold show "get_record (mark_entombed st f e) rid = map_option (entombed st f) (get_record e rid)"
    unfolding mark_entombed_def by (cases "get_record e rid") (simp_all add: marked_def entombed_def)
qed

lemma engine_inv_mark_entombed: "engine_inv e \<Longrightarrow> engine_inv (mark_entombed st f e)"
  unfolding mark_entombed_def by (rule engine_inv_tombstone_entries)

lemma tombstone_accept_eq:
  "snd (tombstone_accept st t e) =
     drop_tombstoned_current st (raise_floor st t (mark_entombed st (tomb_floor_generation t) e))"
proof -
  have "history_ids (raise_floor st t e) st = history_ids e st" by simp
  then show ?thesis
    by (simp only: tombstone_accept_def Let_def mark_entombed_def tombstone_entry_raise_floor [symmetric]
        raise_floor_def [symmetric] snd_conv)
qed

definition may_tombstone :: "TombstoneRecord \<Rightarrow> MutationEnvelope \<Rightarrow> StateIndexEngine \<Rightarrow> bool" where
  "may_tombstone t env e \<longleftrightarrow> guard_authority env e = None \<and>
     (\<forall>t0. um_find (eng_tombstones e) (tomb_state_id t) = Some t0 \<longrightarrow>
        tomb_floor_generation t0 < tomb_floor_generation t)"

definition stamp_tombstone :: "MutationEnvelope \<Rightarrow> TombstoneRecord \<Rightarrow> TombstoneRecord" where
  "stamp_tombstone env t =
     t\<lparr>tomb_coordinator_epoch := env_coordinator_epoch env, tomb_worker_boot := env_worker_boot env\<rparr>"

lemma stamp_tombstone_simps [simp]:
  "tomb_state_id (stamp_tombstone env t) = tomb_state_id t"
  "tomb_floor_generation (stamp_tombstone env t) = tomb_floor_generation t"
  "tomb_current (stamp_tombstone env t) = tomb_current t"
  by (simp_all add: stamp_tombstone_def)

lemma tombstone_rejected:
  assumes "\<not> may_tombstone t env e"
  shows "mvd_verdict (fst (tombstone t env e)) \<noteq> MutationVerdict_ACCEPTED" and "snd (tombstone t env e) = e"
  using assms
  by (auto simp: tombstone_def may_tombstone_def Let_def guard_authority_verdict not_less split: option.splits)

lemma tombstone_accepted:
  assumes "may_tombstone t env e"
  shows "mvd_verdict (fst (tombstone t env e)) = MutationVerdict_ACCEPTED"
    and "snd (tombstone t env e) = drop_tombstoned_current (tomb_state_id t)
      (raise_floor (tomb_state_id t) (stamp_tombstone env t)
        (mark_entombed (tomb_state_id t) (tomb_floor_generation t) e))"
proof -
  have "tombstone t env e = tombstone_accept (tomb_state_id t) (stamp_tombstone env t) e"
    using assms by (auto simp: tombstone_def may_tombstone_def Let_def stamp_tombstone_def not_le split: option.splits)
  then show "mvd_verdict (fst (tombstone t env e)) = MutationVerdict_ACCEPTED"
    and "snd (tombstone t env e) = drop_tombstoned_current (tomb_state_id t)
      (raise_floor (tomb_state_id t) (stamp_tombstone env t)
        (mark_entombed (tomb_state_id t) (tomb_floor_generation t) e))"
    by (simp_all add: tombstone_accept_eq) (simp add: tombstone_accept_def Let_def)
qed

lemma is_tombstoned_raise_floor [simp]:
  "is_tombstoned (raise_floor st t e) st' g = (if st' = st then covers t g else is_tombstoned e st' g)"
  by (simp add: is_tombstoned_def)

text \<open>Raising the floor over marked records keeps every clause of the invariant but the one on
  the current record of the state, which \<open>drop_tombstoned_current\<close> restores.\<close>

lemma engine_inv_drop_raise:
  assumes inv: "engine_inv e"
    and marked: "\<And>rid r. get_record e rid = Some r \<Longrightarrow> rec_state_id r = st \<Longrightarrow>
      rec_state_generation r \<le> tomb_floor_generation t \<Longrightarrow> \<not> outstanding r"
  shows "engine_inv (drop_tombstoned_current st (raise_floor st t e))"
proof -
  let ?e = "raise_floor st t e"
  have core: "core_inv e" and max: "max_inv_except {} e" using inv by (simp_all add: engine_inv_def)
  have others: "records_inv ?e" "history_inv ?e" "index_inv ?e"
    using core by (simp_all add: core_inv_def records_inv_def history_inv_def index_inv_def ids_under_def)
      (simp add: raise_floor_def touch_history_def)
  have below: "below_floor (eng_authority ?e) st' g \<longleftrightarrow>
      (if st' = st then g \<le> tomb_floor_generation t else below_floor (eng_authority e) st' g)" for st' g
    by (simp add: below_floor_def)
  have tomb: "tombstone_inv ?e"
    using core marked unfolding core_inv_def tombstone_inv_def below
    by (simp; metis)
  have max': "max_inv_except {} ?e" using max by (simp add: max_inv_except_def)
  show ?thesis
  proof (cases "\<exists>r. find_state e st = Some r \<and> covers t (rec_state_generation r)")
    case True
    then obtain c where c: "find_state e st = Some c" "covers t (rec_state_generation c)" by blast
    then have cur: "um_find (eng_current e) st = Some (rec_record_id c)" "get_record e (rec_record_id c) = Some c"
      using find_state_SomeD [OF core] by blast+
    then have drop: "drop_tombstoned_current st ?e = clear_current st ?e"
      using c by (simp add: drop_tombstoned_current_def)
    have none: "\<not> outstanding r" if "get_record e rid = Some r" "rec_state_id r = st" for rid r
    proof
      assume "outstanding r"
      with max that c have "rec_state_generation r \<le> rec_state_generation c"
        unfolding max_inv_except_def by fastforce
      with c have "rec_state_generation r \<le> tomb_floor_generation t" unfolding covers_def by (meson order_trans)
      with marked that \<open>outstanding r\<close> show False by blast
    qed
    have "current_inv (clear_current st ?e)" using core by (auto simp: core_inv_def current_inv_def)
    moreover have "records_inv (clear_current st ?e)" "history_inv (clear_current st ?e)"
      "index_inv (clear_current st ?e)" "tombstone_inv (clear_current st ?e)"
      using others tomb by (simp_all add: records_inv_def history_inv_def index_inv_def ids_under_def tombstone_inv_def) blast
    moreover have "max_inv_except {} (clear_current st ?e)"
      by (rule max_inv_clear_current [OF max']) (simp add: none)
    ultimately show ?thesis by (simp add: drop engine_inv_def core_inv_def)
  next
    case False
    have "um_find (eng_current e) st = Some rid \<Longrightarrow> get_record e rid = Some r \<Longrightarrow>
        find_state e st = Some r" for rid r
      by (simp add: find_state_def)
    with False have drop: "drop_tombstoned_current st ?e = ?e"
      by (auto simp: drop_tombstoned_current_def split: option.split)
    have "current_inv ?e"
      unfolding current_inv_def
    proof (intro conjI allI impI)
      fix st' rid assume *: "um_find (eng_current ?e) st' = Some rid"
      then obtain r where "get_record e rid = Some r" "rec_state_id r = st'"
        "\<not> is_tombstoned e st' (rec_state_generation r)" "find_state e st' = Some r"
        using core unfolding core_inv_def current_inv_def by (fastforce simp: find_state_def)
      with False show "\<exists>r. get_record ?e rid = Some r \<and> rec_state_id r = st' \<and>
          \<not> is_tombstoned ?e st' (rec_state_generation r)" by auto
    qed (use core in \<open>simp_all add: core_inv_def current_inv_def\<close>)
    with others tomb max' show ?thesis by (simp add: drop engine_inv_def core_inv_def)
  qed
qed

lemma engine_inv_tombstone:
  assumes inv: "engine_inv e"
  shows "engine_inv (snd (tombstone t env e))"
proof (cases "may_tombstone t env e")
  case True
  show ?thesis
    unfolding tombstone_accepted(2) [OF True]
  proof (rule engine_inv_drop_raise [OF engine_inv_mark_entombed [OF inv]])
    fix rid r
    assume "get_record (mark_entombed (tomb_state_id t) (tomb_floor_generation t) e) rid = Some r"
      "rec_state_id r = tomb_state_id t" "rec_state_generation r \<le> tomb_floor_generation (stamp_tombstone env t)"
    then show "\<not> outstanding r"
      by (auto simp: mark_entombed(3) [OF engine_inv_service [OF inv]] entombed_retired)
  qed
qed (use inv in \<open>simp add: tombstone_rejected\<close>)

section \<open>The current record of a state only moves up\<close>

text \<open>Each operation, on each state: the current record is dropped, kept with its generation, or
  exchanged for one of a higher generation.\<close>

definition current_gen :: "StateIndexEngine \<Rightarrow> StateId \<Rightarrow> StateGeneration option" where
  "current_gen e st = map_option rec_state_generation (find_state e st)"

definition never_regresses :: "StateIndexEngine \<Rightarrow> StateIndexEngine \<Rightarrow> bool" where
  "never_regresses e e' \<longleftrightarrow>
     (\<forall>st g g'. current_gen e st = Some g \<and> current_gen e' st = Some g' \<longrightarrow> g \<le> g')"

lemma never_regresses_refl [simp, intro]: "never_regresses e e"
  by (auto simp: never_regresses_def)

lemma never_regresses_current_gen:
  "(\<And>st. current_gen e' st = current_gen e st) \<Longrightarrow> never_regresses e e'"
  by (auto simp: never_regresses_def)

lemma current_gen_accounting: "same_but_accounting e e' \<Longrightarrow> current_gen e' st = current_gen e st"
  by (simp add: current_gen_def same_but_accounting_fields views_cong(2) [of e' e])

lemma current_gen_replace:
  assumes "get_record e (rec_record_id u) = Some r" and "same_identity r u"
  shows "current_gen (replace_record u e) st = current_gen e st"
  using assms by (auto simp: current_gen_def find_state_def same_identity_def split: option.splits)

lemma current_gen_publish:
  assumes inv: "service_inv X e" and new: "get_record e (rec_record_id rec) = None"
  shows "current_gen (publish rec e) st =
    (if st = rec_state_id rec
     then (case current_gen e st of None \<Rightarrow> Some (rec_state_generation rec)
           | Some g \<Rightarrow> Some (max g (rec_state_generation rec)))
     else current_gen e st)"
proof -
  note find1 = service_find_add_new [OF inv new]
  show ?thesis
  proof (cases "find_state e (rec_state_id rec)")
    case None
    then show ?thesis by (simp add: publish_def current_gen_def find_state_make_current find1)
  next
    case (Some old)
    have ne: "rec_record_id old \<noteq> rec_record_id rec" using service_find(1) [OF inv Some] new by auto
    note other = service_points [OF inv Some, THEN iffD1]
    show ?thesis
    proof (cases "rec_state_generation old < rec_state_generation rec")
      case True
      have "find_state (publish rec e) st = (if st = rec_state_id rec then Some rec else find_state e st)"
        using True Some ne other [of st]
        by (auto simp: publish_def find_state_make_current find_state_replace find1)
      with True Some show ?thesis by (simp add: current_gen_def max_def less_imp_le)
    next
      case False
      then have "find_state (publish rec e) st = find_state e st" using Some by (simp add: publish_def find1)
      with False Some show ?thesis by (auto simp: current_gen_def max_def)
    qed
  qed
qed

lemma never_regresses_register:
  assumes "service_inv X e"
  shows "never_regresses e (snd (register_state rec env e))"
proof (cases "may_register rec env e")
  case True
  have "get_record e (rec_record_id (stamp env rec)) = None" using True by (simp add: may_register_def)
  from current_gen_publish [OF assms this] have "never_regresses e (publish (stamp env rec) e)"
    by (auto simp: never_regresses_def max_def split: option.splits if_splits)
  then show ?thesis
    using register_state_accepted [OF assms True] current_gen_accounting [OF same_but_accounting_count_record]
    by (simp add: never_regresses_def)
next
  case False
  with register_state_rejected [OF False] show ?thesis
    by (auto intro!: never_regresses_current_gen current_gen_accounting)
qed

lemma current_gen_relocate:
  assumes "service_inv X e" and "find_state e st = Some r" and "same_but_accounting e e'"
  shows "current_gen (replace_record (with_locations ls r) e') st' = current_gen e st'"
proof -
  have "get_record e' (rec_record_id (with_locations ls r)) = Some r"
    using service_find(1) [OF assms(1,2)] views_cong(1) [OF same_but_accounting_fields(1) [OF assms(3)]] by simp
  then show ?thesis
    by (simp add: current_gen_replace [of e' _ r] current_gen_accounting [OF assms(3)])
qed

lemma current_gen_add_location:
  assumes "service_inv X e"
  shows "current_gen (snd (add_location st loc env e)) st' = current_gen e st'"
  using assms
  by (auto simp: add_location_def Let_def split: option.splits
      intro!: current_gen_relocate same_but_accounting_count_put)

lemma current_gen_remove_location:
  assumes "service_inv X e"
  shows "current_gen (snd (remove_location st p env e)) st' = current_gen e st'"
proof -
  have "same_but_accounting x (x\<lparr>eng_accounting := a\<rparr>)" for x a
    by (simp add: same_but_accounting_def)
  from current_gen_accounting [OF this] show ?thesis
    using assms
    by (auto simp: remove_location_def Let_def split: option.splits intro!: current_gen_relocate)
qed

lemma locations_relocate:
  assumes "service_inv X e" and "find_state e st = Some r" and "same_but_accounting e e'"
  shows "locations_of (replace_record (with_locations ls r) e') st' = (if st' = st then ls else locations_of e st')"
proof -
  have f: "find_state e' = find_state e"
    by (intro ext views_cong) (simp_all add: same_but_accounting_fields [OF assms(3)])
  have c: "um_find (eng_current e') = um_find (eng_current e)"
    by (simp add: same_but_accounting_fields [OF assms(3)])
  have "um_find (eng_current e) st' = Some (rec_record_id r) \<longleftrightarrow> st' = st" by (rule service_points [OF assms(1,2)])
  then show ?thesis
    by (simp add: locations_of_def find_state_replace f c with_locations_def)
qed

lemma locations_of_accounting [simp]: "locations_of (e\<lparr>eng_accounting := a\<rparr>) st = locations_of e st"
  by (simp add: locations_of_def find_state_def get_record_def split: option.split)

lemma find_state_invalidate:
  assumes inv: "serving e" and ok: "may_invalidate i env e"
  shows "find_state (snd (invalidate i env e)) st =
    (if st = inv_state_id i then None
     else map_option (invalidated (inv_state_id i) (inv_bound_generation i)) (find_state e st))"
proof -
  let ?st = "inv_state_id i" and ?b = "inv_bound_generation i"
  let ?e2 = "snd (mark_invalidated ?st ?b (log_invalidation i env e))"
  note m = mark_invalidated [OF service_log [OF servingD(1) [OF inv], of i env], where st = ?st and b = ?b]
  have e2: "find_state ?e2 st = map_option (invalidated ?st ?b) (find_state e st)" for st
    using m(2) by (simp add: find_state_def same_views_def m(3) split: option.split)
  have "find_state (touch_history ?st ?e2) = find_state ?e2" by (intro ext views_cong) simp_all
  with invalidate_accepted(2) [OF inv ok] e2 show ?thesis by auto
qed

lemma get_record_invalidate:
  assumes inv: "serving e" and ok: "may_invalidate i env e"
  shows "get_record (snd (invalidate i env e)) rid =
    map_option (invalidated (inv_state_id i) (inv_bound_generation i)) (get_record e rid)"
proof -
  let ?st = "inv_state_id i" and ?b = "inv_bound_generation i"
  let ?e2 = "snd (mark_invalidated ?st ?b (log_invalidation i env e))"
  have "get_record (touch_history ?st ?e2) = get_record ?e2" by (intro ext views_cong) simp
  with invalidate_accepted(2) [OF inv ok]
    mark_invalidated(3) [OF service_log [OF servingD(1) [OF inv], of i env], where st = ?st and b = ?b]
  show ?thesis by auto
qed

lemma get_record_tombstone:
  assumes inv: "service_inv X e" and ok: "may_tombstone t env e"
  shows "get_record (snd (tombstone t env e)) rid =
    map_option (entombed (tomb_state_id t) (tomb_floor_generation t)) (get_record e rid)"
  by (simp add: tombstone_accepted(2) [OF ok] drop_tombstoned_current_def mark_entombed(3) [OF inv]
      split: option.split)

lemma never_regresses_invalidate:
  assumes "serving e"
  shows "never_regresses e (snd (invalidate i env e))"
proof (cases "may_invalidate i env e")
  case True
  then show ?thesis
    by (auto simp: never_regresses_def current_gen_def find_state_invalidate [OF assms True] split: if_splits)
qed (simp add: invalidate_rejected)

lemma find_state_tombstone:
  assumes inv: "service_inv X e" and ok: "may_tombstone t env e"
  shows "find_state (snd (tombstone t env e)) st =
    (if st = tomb_state_id t \<and> (\<exists>r. find_state e st = Some r \<and> covers t (rec_state_generation r)) then None
     else map_option (entombed (tomb_state_id t) (tomb_floor_generation t)) (find_state e st))"
proof -
  let ?st = "tomb_state_id t" and ?f = "tomb_floor_generation t"
  let ?e = "mark_entombed ?st ?f e"
  note m = mark_entombed [OF inv, of ?st ?f]
  have e2: "find_state ?e st = map_option (entombed ?st ?f) (find_state e st)" for st
    using m(2) by (simp add: find_state_def same_views_def m(3) split: option.split)
  have cov: "covers (stamp_tombstone env t) g = covers t g" for g by (simp add: covers_def)
  have cur: "eng_current ?e = eng_current e" using m(2) by (simp add: same_views_def)
  show ?thesis
  proof (cases "um_find (eng_current e) ?st")
    case None
    then show ?thesis
      by (simp add: tombstone_accepted(2) [OF ok] drop_tombstoned_current_def cur e2 find_state_def [of e])
  next
    case (Some rid)
    then obtain r where "get_record e rid = Some r"
      using inv by (auto elim: service_current)
    with Some show ?thesis
      by (auto simp: tombstone_accepted(2) [OF ok] drop_tombstoned_current_def cur e2 m(3) cov find_state_def [of e])
  qed
qed

lemma never_regresses_tombstone:
  assumes "service_inv X e"
  shows "never_regresses e (snd (tombstone t env e))"
proof (cases "may_tombstone t env e")
  case True
  then show ?thesis
    by (auto simp: never_regresses_def current_gen_def find_state_tombstone [OF assms True] split: if_splits)
qed (simp add: tombstone_rejected)

end
