(* ===== verification/Serving.thy ===== *)
theory Serving
  imports EngineOps
begin

text \<open>
  Every mutation keeps an engine serving, whatever its authority registry holds: \<open>service_inv\<close> along
  the shared updates a mutation is made of, and the newest record of each state by what the
  mutation does to the records and the current records as a whole.
\<close>

section \<open>Every mutation keeps it\<close>

lemma service_set_current:
  assumes inv: "service_inv X e" and new: "get_record e (rec_record_id rec) = None" and "digest_ok rec"
    and live: "\<not> is_tombstoned e (rec_state_id rec) (rec_state_generation rec)"
  shows "service_inv X (set_current rec (e\<lparr>eng_records := um_put (rec_record_id rec) rec (eng_records e),
      eng_indexes := idx_insert rec (eng_indexes e)\<rparr>))" (is "service_inv X (set_current rec ?e1)")
proof -
  have add: "service_inv X (add_new rec e)" by (rule service_add_new [OF inv new assms(3)])
  show ?thesis
  proof (cases "um_find (eng_current e) (rec_state_id rec)")
    case None
    then have "set_current rec ?e1 = make_current rec (add_new rec e)"
      by (simp add: set_current_def add_new_def [symmetric])
    with add live show ?thesis by (simp add: service_make_current)
  next
    case (Some old_id)
    with inv obtain old where old: "get_record e old_id = Some old" "rec_record_id old = old_id"
      by (rule service_current) blast
    with new have neq: "old_id \<noteq> rec_record_id rec" by auto
    let ?e2 = "replace_record (retire Lifecycle_SUPERSEDED old) (add_new rec e)"
    have "service_inv X ?e2" by (rule service_retire [OF add, of old_id]) (use old neq in simp)
    moreover have "is_tombstoned ?e2 = is_tombstoned e" by (intro ext views_cong) simp
    ultimately have "service_inv X (make_current rec ?e2)"
      using old neq live by (intro service_make_current) auto
    moreover have "set_current rec ?e1 =
        (if rec_state_generation old < rec_state_generation rec then make_current rec ?e2 else add_new rec e)"
      using Some old neq by (simp add: set_current_def add_new_def [symmetric] Let_def)
    ultimately show ?thesis using add by simp
  qed
qed

lemma service_register:
  assumes inv: "service_inv X e"
  shows "service_inv X (snd (register_state rec env e))"
proof (cases "may_register rec env e")
  case False
  from register_state_rejected [OF this] show ?thesis
    by (metis inv service_accounting same_but_accounting_bump)
next
  case True
  let ?rec = "stamp env rec"
  have "service_inv X (set_current ?rec (e\<lparr>eng_records := um_put (rec_record_id ?rec) ?rec (eng_records e),
      eng_indexes := idx_insert ?rec (eng_indexes e)\<rparr>))"
    by (rule service_set_current [OF inv]) (use True in \<open>simp_all add: may_register_def\<close>)
  then show ?thesis
    using True
    by (simp add: register_state_def may_register_def accepted_iff get_record_def Let_def
        service_accounting [OF same_but_accounting_count_record])
qed

lemma service_relocate:
  assumes inv: "service_inv X e" and f: "find_state e st = Some r" and acc: "same_but_accounting e e'"
  shows "service_inv X (replace_record (with_locations ls r) e')"
proof (rule service_replace [of _ _ _ r])
  show "service_inv X e'" by (rule service_accounting [OF acc inv])
  from f obtain rid where rid: "get_record e rid = Some r" by (auto simp: find_state_def split: option.splits)
  moreover have "get_record e' = get_record e"
    using acc by (intro ext views_cong) (rule same_but_accounting_fields)
  ultimately show "get_record e' (rec_record_id (with_locations ls r)) = Some r"
    using service_id [OF inv rid] by simp
qed simp_all

lemma service_add_location: "service_inv X e \<Longrightarrow> service_inv X (snd (add_location st loc env e))"
  by (auto simp: add_location_def Let_def split: option.splits
      intro!: service_relocate same_but_accounting_count_put)

lemma service_remove_location:
  assumes "service_inv X e"
  shows "service_inv X (snd (remove_location st p env e))"
proof -
  have acc: "same_but_accounting x (x\<lparr>eng_accounting := a\<rparr>)" for x a
    by (simp add: same_but_accounting_def)
  show ?thesis
    using assms
    by (auto simp: remove_location_def Let_def split: option.splits
        intro!: service_accounting [OF acc] service_relocate)
qed

lemma better_candidate_fold:
  assumes "\<And>c. best = Some c \<Longrightarrow> P c"
    and "\<And>rid c. rid \<in> set ids \<Longrightarrow> get_record e rid = Some c \<Longrightarrow>
      \<not> is_tombstoned e (rec_state_id c) (rec_state_generation c) \<Longrightarrow> P c"
    and "foldl (better_candidate e b) best ids = Some c"
  shows "P c"
  using assms
proof (induction ids arbitrary: best)
  case (Cons rid ids)
  have "P d" if "better_candidate e b best rid = Some d" for d
    using that Cons.prems(1,2) by (auto simp: better_candidate_def split: option.splits if_splits)
  with Cons show ?case by (metis foldl_Cons list.set_intros(2))
qed simp

lemma service_promote:
  assumes inv: "service_inv X e"
  shows "service_inv X (promote st b e)"
proof -
  let ?e1 = "touch_history st e"
  have inv1: "service_inv X ?e1" by (rule service_touch [OF inv])
  have views: "get_record ?e1 = get_record e" "is_tombstoned ?e1 = is_tombstoned e"
    by (intro ext views_cong; simp)+
  show ?thesis
  proof (cases "foldl (better_candidate ?e1 b) None (history_ids ?e1 st)")
    case None
    then show ?thesis by (simp add: promote_def service_clear_current [OF inv1])
  next
    case (Some best)
    have "get_record ?e1 (rec_record_id best) = Some best \<and> rec_state_id best = st \<and>
        \<not> is_tombstoned ?e1 st (rec_state_generation best)"
    proof (rule better_candidate_fold [OF _ _ Some])
      fix rid c
      assume *: "rid \<in> set (history_ids ?e1 st)" "get_record ?e1 rid = Some c"
        "\<not> is_tombstoned ?e1 (rec_state_id c) (rec_state_generation c)"
      moreover have "rec_state_id c = st"
        using * inv by (auto simp: views service_inv_def history_inv_def)
      ultimately show "get_record ?e1 (rec_record_id c) = Some c \<and> rec_state_id c = st \<and>
          \<not> is_tombstoned ?e1 st (rec_state_generation c)"
        using service_id [OF inv1 *(2)] by simp
    qed simp
    then have "service_inv X (?e1\<lparr>eng_current := um_put st (rec_record_id best) (eng_current ?e1),
        eng_authority := set_current_authority st (rec_state_generation best) (rec_authority_boot best) (eng_authority ?e1)\<rparr>)"
      by (intro service_point [OF inv1 _ _ refl]) (use inv1 in \<open>auto simp: service_inv_def split: if_splits\<close>)
    moreover have "promote st b e = bump acc_current_states_update
        (?e1\<lparr>eng_current := um_put st (rec_record_id best) (eng_current ?e1),
          eng_authority := set_current_authority st (rec_state_generation best) (rec_authority_boot best) (eng_authority ?e1)\<rparr>)"
      using Some by (simp add: promote_def Let_def bump_def)
    ultimately show ?thesis by (simp only: service_accounting [OF same_but_accounting_bump])
  qed
qed

lemma service_invalidate:
  assumes inv: "service_inv X e"
  shows "service_inv X (snd (invalidate i env e))"
proof -
  obtain changed e2 where e2: "foldl (invalidate_entry (inv_bound_generation i)) (False, log_invalidation i env e)
      (history_of (log_invalidation i env e) (inv_state_id i)) = (changed, e2)" by fastforce
  then have "service_inv X e2"
    using mark_invalidated(1) [OF service_log [OF inv, of i env], where st = "inv_state_id i" and b = "inv_bound_generation i"]
    by (simp add: mark_invalidated_def)
  with e2 inv show ?thesis
    by (auto simp: invalidate_def Let_def log_invalidation_def [symmetric] service_promote split: option.split)
qed

lemma service_raise_floor:
  assumes "service_inv X e"
  shows "service_inv (insert st X) (raise_floor st t e)"
proof -
  have "queryable (raise_floor st t e)"
    using assms queryable_cong [of "raise_floor st t e" e] by (simp add: service_inv_def)
  moreover have "um_ok (eng_history e) \<Longrightarrow> um_ok (eng_history (raise_floor st t e))"
    by (simp add: raise_floor_def touch_history_def)
  ultimately show ?thesis
    using assms unfolding service_inv_def history_inv_def pointers_inv_def by fastforce
qed

lemma service_drop_current:
  assumes inv: "service_inv (insert st X) e"
  shows "service_inv X (drop_tombstoned_current st e)"
proof -
  have narrow: "service_inv X e'" if "service_inv (insert st X) e'"
    "\<And>rid r. um_find (eng_current e') st = Some rid \<Longrightarrow> get_record e' rid = Some r \<Longrightarrow>
      \<not> is_tombstoned e' st (rec_state_generation r)" for e'
    using that by (fastforce simp: service_inv_def pointers_inv_def)
  have "service_inv X (clear_current st e)"
    by (rule narrow [OF service_clear_current [OF inv]]) simp
  moreover have "service_inv X e"
    if "\<not> (\<exists>rid r. um_find (eng_current e) st = Some rid \<and> get_record e rid = Some r \<and>
      is_tombstoned e st (rec_state_generation r))"
    by (rule narrow [OF inv]) (use that in blast)
  ultimately show ?thesis by (auto simp: drop_tombstoned_current_def split: option.split)
qed

lemma service_tombstone:
  assumes inv: "service_inv X e"
  shows "service_inv X (snd (tombstone t env e))"
proof (cases "may_tombstone t env e")
  case True
  show ?thesis
    unfolding tombstone_accepted(2) [OF True]
    by (intro service_drop_current service_raise_floor mark_entombed(1) inv)
qed (use inv in \<open>simp add: tombstone_rejected\<close>)

text \<open>What an accepted registration does to the records and the current records.\<close>

definition overtakes :: "StateRecord \<Rightarrow> StateIndexEngine \<Rightarrow> bool" where
  "overtakes rec e \<longleftrightarrow>
     (\<forall>c. find_state e (rec_state_id rec) = Some c \<longrightarrow> rec_state_generation c < rec_state_generation rec)"

lemma publish_views:
  assumes inv: "service_inv X e" and new: "get_record e (rec_record_id rec) = None"
  shows "find_state (publish rec e) st = (if st = rec_state_id rec \<and> overtakes rec e then Some rec else find_state e st)"
    and "get_record (publish rec e) rid = (if rid = rec_record_id rec then Some rec
      else map_option (\<lambda>r. if overtakes rec e \<and> find_state e (rec_state_id rec) = Some r
        then retire Lifecycle_SUPERSEDED r else r) (get_record e rid))"
proof -
  note find1 = service_find_add_new [OF inv new]
  have "find_state (publish rec e) st = (if st = rec_state_id rec \<and> overtakes rec e then Some rec else find_state e st) \<and>
    get_record (publish rec e) rid = (if rid = rec_record_id rec then Some rec
      else map_option (\<lambda>r. if overtakes rec e \<and> find_state e (rec_state_id rec) = Some r
        then retire Lifecycle_SUPERSEDED r else r) (get_record e rid))"
  proof (cases "find_state e (rec_state_id rec)")
    case None
    then show ?thesis by (simp add: publish_def find_state_make_current find1 overtakes_def option.map_ident)
  next
    case (Some old)
    note old = service_find [OF inv Some]
    have ne: "rec_record_id old \<noteq> rec_record_id rec" using old(1) new by auto
    show ?thesis
    proof (cases "rec_state_generation old < rec_state_generation rec")
      case True
      then have over: "overtakes rec e" using Some by (simp add: overtakes_def)
      have other: "um_find (eng_current e) st \<noteq> Some (rec_record_id old) \<or> st = rec_state_id rec"
        using service_points [OF inv Some] by blast
      have pub: "publish rec e = make_current rec (replace_record (retire Lifecycle_SUPERSEDED old) (add_new rec e))"
        using True Some by (simp add: publish_def)
      have "find_state (publish rec e) st = (if st = rec_state_id rec then Some rec else find_state e st)"
        using ne other by (auto simp: pub find_state_make_current find_state_replace find1)
      moreover have "get_record (publish rec e) rid = (if rid = rec_record_id rec then Some rec
          else if rid = rec_record_id old then Some (retire Lifecycle_SUPERSEDED old) else get_record e rid)"
        using ne by (simp add: pub)
      moreover have "r = old \<longleftrightarrow> rid = rec_record_id old" if "get_record e rid = Some r" for r
      proof -
        have "rec_record_id r = rid" by (rule service_id [OF inv that])
        with that old(1) show ?thesis by (metis option.inject)
      qed
      then have "map_option (\<lambda>r. if old = r then retire Lifecycle_SUPERSEDED r else r) (get_record e rid) =
          (if rid = rec_record_id old then Some (retire Lifecycle_SUPERSEDED old) else get_record e rid)"
        using old(1) by (cases "get_record e rid") auto
      ultimately show ?thesis by (simp only: over Some option.inject simp_thms if_True)
    next
      case False
      then have "\<not> overtakes rec e" using Some by (simp add: overtakes_def)
      with False Some show ?thesis by (simp add: publish_def find1 option.map_ident)
    qed
  qed
  then show "find_state (publish rec e) st = (if st = rec_state_id rec \<and> overtakes rec e then Some rec else find_state e st)"
    and "get_record (publish rec e) rid = (if rid = rec_record_id rec then Some rec
      else map_option (\<lambda>r. if overtakes rec e \<and> find_state e (rec_state_id rec) = Some r
        then retire Lifecycle_SUPERSEDED r else r) (get_record e rid))" by blast+
qed

lemma register_views:
  assumes inv: "service_inv X e" and ok: "may_register rec env e"
  shows "find_state (snd (register_state rec env e)) st =
      (if st = rec_state_id rec \<and> overtakes rec e then Some (stamp env rec) else find_state e st)"
    and "get_record (snd (register_state rec env e)) rid = (if rid = rec_record_id rec then Some (stamp env rec)
      else map_option (\<lambda>r. if overtakes rec e \<and> find_state e (rec_state_id rec) = Some r
        then retire Lifecycle_SUPERSEDED r else r) (get_record e rid))"
proof -
  have "get_record e (rec_record_id (stamp env rec)) = None" using ok by (simp add: may_register_def)
  note views = publish_views [OF inv this]
  have over: "overtakes (stamp env rec) e = overtakes rec e" by (simp add: overtakes_def)
  have "find_state (count_record r e') = find_state e'" "get_record (count_record r e') = get_record e'" for r e'
    by (intro ext views_cong same_but_accounting_fields [OF same_but_accounting_count_record])+
  then show "find_state (snd (register_state rec env e)) st =
      (if st = rec_state_id rec \<and> overtakes rec e then Some (stamp env rec) else find_state e st)"
    and "get_record (snd (register_state rec env e)) rid = (if rid = rec_record_id rec then Some (stamp env rec)
      else map_option (\<lambda>r. if overtakes rec e \<and> find_state e (rec_state_id rec) = Some r
        then retire Lifecycle_SUPERSEDED r else r) (get_record e rid))"
    using register_state_accepted [OF inv ok] by (simp_all add: views over)
qed

section \<open>The newest record stays current\<close>

lemma is_tombstoned_register [simp]: "is_tombstoned (snd (register_state rec env e)) = is_tombstoned e"
proof -
  have "eng_tombstones (set_current r e') = eng_tombstones e'" for r e'
    by (simp add: set_current_def set_authority_of_def Let_def split: option.split)
  then have "eng_tombstones (snd (register_state rec env e)) = eng_tombstones e"
    by (simp add: register_state_def Let_def same_but_accounting_fields(4) [OF same_but_accounting_count_record]
        bump_def)
  then show ?thesis by (intro ext views_cong)
qed

lemma newest_register:
  assumes inv: "serving e"
  shows "newest_inv (snd (register_state rec env e))"
proof (cases "may_register rec env e")
  case False
  have same: "same_but_accounting e (snd (register_state rec env e))"
    using register_state_rejected [OF False] by auto
  have "newest_inv (snd (register_state rec env e)) = newest_inv e"
    by (rule newest_cong) (intro ext views_cong same_but_accounting_fields [OF same])+
  with servingD(2) [OF inv] show ?thesis by simp
next
  case True
  note views = register_views [OF servingD(1) [OF inv] True]
  let ?e = "snd (register_state rec env e)"
  show ?thesis
    unfolding newest_inv_def
  proof (intro allI impI, elim conjE)
    fix rid r assume r: "get_record ?e rid = Some r" "counted ?e (rec_state_id r) r"
    show "\<exists>c. find_state ?e (rec_state_id r) = Some c \<and> rec_state_generation r \<le> rec_state_generation c"
    proof (cases "rid = rec_record_id rec")
      case True
      with r have "r = stamp env rec" by (simp add: views)
      then show ?thesis by (auto simp: views overtakes_def not_less)
    next
      case False
      with r have old: "get_record e rid = Some r" "counted e (rec_state_id r) r"
        by (auto simp: views counted_def split: if_splits)
      with servingD(2) [OF inv] obtain c where "find_state e (rec_state_id r) = Some c"
        "rec_state_generation r \<le> rec_state_generation c"
        unfolding newest_inv_def by blast
      then show ?thesis by (auto simp: views overtakes_def intro: order_trans less_imp_le)
    qed
  qed
qed

lemma newest_replace:
  assumes inv: "newest_inv e" and old: "get_record e (rec_record_id u) = Some r" "same_identity r u"
    and out: "outstanding u \<Longrightarrow> outstanding r"
  shows "newest_inv (replace_record u e)"
proof (rule newest_kept [OF inv])
  have t: "is_tombstoned (replace_record u e) = is_tombstoned e" by (intro ext views_cong) simp
  fix rid r' assume r': "get_record (replace_record u e) rid = Some r'" "counted (replace_record u e) (rec_state_id r') r'"
  have "map_option rec_state_generation (find_state (replace_record u e) st) = map_option rec_state_generation (find_state e st)" for st
    using current_gen_replace [OF old] by (simp add: current_gen_def)
  with r' old out show "\<exists>r0. get_record e rid = Some r0 \<and> counted e (rec_state_id r') r0 \<and>
      rec_state_generation r0 = rec_state_generation r' \<and>
      map_option rec_state_generation (find_state (replace_record u e) (rec_state_id r')) =
      map_option rec_state_generation (find_state e (rec_state_id r'))"
    by (auto simp: counted_def t same_identity_def split: if_splits)
qed

lemma newest_accounting: "same_but_accounting e e' \<Longrightarrow> newest_inv e' = newest_inv e"
  by (rule newest_cong) (intro ext views_cong same_but_accounting_fields; assumption)+

lemma newest_relocate:
  assumes inv: "serving e" and f: "find_state e st = Some r" and acc: "same_but_accounting e e'"
  shows "newest_inv (replace_record (with_locations ls r) e')"
proof (rule newest_replace [of _ _ r])
  show "newest_inv e'" using servingD(2) [OF inv] newest_accounting [OF acc] by simp
  have "get_record e' = get_record e"
    using acc by (intro ext views_cong) (rule same_but_accounting_fields)
  then show "get_record e' (rec_record_id (with_locations ls r)) = Some r"
    using service_find(1) [OF servingD(1) [OF inv] f] by simp
qed simp_all

lemma newest_add_location: "serving e \<Longrightarrow> newest_inv (snd (add_location st loc env e))"
  by (auto simp: add_location_def Let_def servingD split: option.splits
      intro!: newest_relocate same_but_accounting_count_put)

lemma newest_remove_location:
  assumes "serving e"
  shows "newest_inv (snd (remove_location st p env e))"
proof -
  have acc: "newest_inv (x\<lparr>eng_accounting := a\<rparr>) = newest_inv x" for x a
    by (rule newest_accounting) (simp add: same_but_accounting_def)
  show ?thesis
    using assms
    by (auto simp: remove_location_def Let_def acc servingD split: option.splits intro!: newest_relocate)
qed

lemma newest_invalidate:
  assumes inv: "serving e"
  shows "newest_inv (snd (invalidate i env e))"
proof (cases "may_invalidate i env e")
  case True
  let ?e = "snd (invalidate i env e)" and ?st = "inv_state_id i" and ?b = "inv_bound_generation i"
  note get = get_record_invalidate [OF inv True] and find = find_state_invalidate [OF inv True]
  have t: "is_tombstoned ?e = is_tombstoned e"
    using invalidate_accepted(2) [OF inv True] mark_invalidated(2) [OF service_log [OF servingD(1) [OF inv]], where ?st = ?st and b = ?b]
    by (intro ext views_cong) (auto simp: same_views_def touch_history_def)
  have gen: "rec_state_generation (invalidated ?st ?b r) = rec_state_generation r" for r by simp
  show ?thesis
  proof (rule newest_kept [OF servingD(2) [OF inv]])
    fix rid r assume r: "get_record ?e rid = Some r" "counted ?e (rec_state_id r) r"
    then obtain r0 where r0: "get_record e rid = Some r0" "r = invalidated ?st ?b r0" by (auto simp: get)
    with r(2) have kept: "r = r0" by (auto simp: invalidated_def counted_def outstanding_def split: if_splits)
    with r(2) have c: "counted e (rec_state_id r) r" by (simp add: counted_def t)
    have "rec_state_id r \<noteq> ?st"
    proof
      assume st: "rec_state_id r = ?st"
      with servingD(2) [OF inv] r0 kept c obtain d where "find_state e ?st = Some d"
        "rec_state_generation r \<le> rec_state_generation d" unfolding newest_inv_def by metis
      with True have "rec_state_generation r \<le> ?b" by (auto simp: may_invalidate_def intro: order_trans)
      with st kept have "\<not> outstanding (invalidated ?st ?b r0)" by (intro invalidated_retired) simp_all
      with r0(2) c show False by (simp add: counted_def)
    qed
    with r0 kept c show "\<exists>r0. get_record e rid = Some r0 \<and> counted e (rec_state_id r) r0 \<and>
        rec_state_generation r0 = rec_state_generation r \<and>
        map_option rec_state_generation (find_state ?e (rec_state_id r)) =
        map_option rec_state_generation (find_state e (rec_state_id r))"
      by (simp add: find option.map_comp comp_def)
  qed
qed (simp add: invalidate_rejected servingD [OF inv])

lemma newest_tombstone:
  assumes inv: "serving e"
  shows "newest_inv (snd (tombstone t env e))"
proof (cases "may_tombstone t env e")
  case True
  let ?e = "snd (tombstone t env e)" and ?st = "tomb_state_id t" and ?f = "tomb_floor_generation t"
  note srv = servingD(1) [OF inv]
  note get = get_record_tombstone [OF srv True] and find = find_state_tombstone [OF srv True]
  have old_floor: "covers t0 g \<Longrightarrow> g < ?f" if "um_find (eng_tombstones e) ?st = Some t0" for t0 g
    using True that by (auto simp: may_tombstone_def covers_def)
  have "eng_tombstones ?e = um_put ?st (stamp_tombstone env t) (eng_tombstones e)"
    using mark_entombed(2) [OF srv, of ?st ?f]
    by (simp add: tombstone_accepted(2) [OF True] drop_tombstoned_current_def same_views_def split: option.split)
  then have tomb: "is_tombstoned ?e st g = (if st = ?st then covers t g else is_tombstoned e st g)" for st g
    by (simp add: is_tombstoned_def covers_def)
  show ?thesis
  proof (rule newest_kept [OF servingD(2) [OF inv]])
    fix rid r assume r: "get_record ?e rid = Some r" "counted ?e (rec_state_id r) r"
    then obtain r0 where r0: "get_record e rid = Some r0" "r = entombed ?st ?f r0" by (auto simp: get)
    with r(2) have kept: "r = r0" by (auto simp: entombed_def counted_def outstanding_def split: if_splits)
    have above: "?f < rec_state_generation r" if "rec_state_id r = ?st"
    proof (rule ccontr)
      assume "\<not> ?f < rec_state_generation r"
      with that kept have "\<not> outstanding (entombed ?st ?f r0)" by (intro entombed_retired) simp_all
      with r(2) r0(2) show False by (simp add: counted_def)
    qed
    have "\<not> is_tombstoned e (rec_state_id r) (rec_state_generation r)"
    proof (cases "rec_state_id r = ?st")
      case True
      with above have "\<not> rec_state_generation r < ?f" by (simp add: not_less less_imp_le)
      with old_floor True show ?thesis by (auto simp: is_tombstoned_def split: option.split)
    qed (use r(2) in \<open>simp add: counted_def tomb\<close>)
    with r(2) have c: "counted e (rec_state_id r) r" by (simp add: counted_def)
    have "map_option rec_state_generation (find_state ?e (rec_state_id r)) =
        map_option rec_state_generation (find_state e (rec_state_id r))"
    proof -
      from servingD(2) [OF inv] r0 kept c obtain d where d: "find_state e (rec_state_id r) = Some d"
        "rec_state_generation r \<le> rec_state_generation d" unfolding newest_inv_def by metis
      then have "\<not> covers t (rec_state_generation d)" if "rec_state_id r = ?st"
        using above [OF that] by (auto simp: covers_def)
      with d show ?thesis by (auto simp: find)
    qed
    with r0(1) kept c show "\<exists>r0. get_record e rid = Some r0 \<and> counted e (rec_state_id r) r0 \<and>
        rec_state_generation r0 = rec_state_generation r \<and>
        map_option rec_state_generation (find_state ?e (rec_state_id r)) =
        map_option rec_state_generation (find_state e (rec_state_id r))" by (intro exI [of _ r]) simp
  qed
qed (simp add: tombstone_rejected servingD [OF inv])

lemma serving_mutations:
  assumes "serving e"
  shows "serving (snd (register_state rec env e))" "serving (snd (add_location st loc env e))"
    "serving (snd (remove_location st p env e))" "serving (snd (invalidate i env e))" "serving (snd (tombstone t env e))"
  using assms newest_register newest_add_location newest_remove_location newest_invalidate newest_tombstone
  by (simp_all add: serving_def service_register service_add_location service_remove_location service_invalidate
      service_tombstone)

end
