(* ===== verification/Planner.thy ===== *)
theory Planner
  imports Engine Result
begin

text \<open>
  The query half of \<^verbatim>\<open>src/engine.cpp\<close>: candidate selection, the chain of filters, the named ranking
  factors and their order, and the result. A filter is \<open>Some\<close> reason and note when it rejects; the
  early returns of \<^verbatim>\<open>evaluate_candidate\<close> are the first rejection of a list of filters in the order
  of the code. Factors are binary64 values of the theory \<^verbatim>\<open>Binary64\<close>.
\<close>

section \<open>Scores\<close>

abbreviation num :: "nat \<Rightarrow> double" where
  "num n \<equiv> f64_of_nat n"

definition inv_factor :: "double \<Rightarrow> double" where
  "inv_factor x = f64_div f64_one (f64_add x f64_one)"

definition factor_order :: "RankingFactor list" where
  "factor_order =
     [RankingFactor_EXACT_IDENTITY_MATCH, RankingFactor_LOCALITY, RankingFactor_COMPATIBILITY_QUALITY,
      RankingFactor_HEALTH, RankingFactor_FRESHNESS, RankingFactor_GENERATION_RECENCY,
      RankingFactor_RETRIEVAL_LATENCY, RankingFactor_TRANSFER_BYTES, RankingFactor_RETRIEVAL_BANDWIDTH,
      RankingFactor_RESTORE_COST, RankingFactor_REUSE_COST, RankingFactor_REPLICA_COUNT,
      RankingFactor_POLICY_PREFERENCE, RankingFactor_ADAPTATION_COST]"

definition freshness_score :: "Freshness \<Rightarrow> double" where
  "freshness_score f =
     (case f of Freshness_CURRENT \<Rightarrow> num 3 | Freshness_REVALIDATION_REQUIRED \<Rightarrow> num 2
      | Freshness_STALE \<Rightarrow> num 1 | _ \<Rightarrow> num 0)"

definition health_score :: "Health \<Rightarrow> double" where
  "health_score h =
     (case h of Health_HEALTHY \<Rightarrow> num 3 | Health_DEGRADED \<Rightarrow> num 2 | Health_UNKNOWN \<Rightarrow> num 1 | _ \<Rightarrow> num 0)"

definition compat_score :: "CompatibilityOutcome \<Rightarrow> double" where
  "compat_score out =
     (case out of CompatibilityOutcome_EXACT \<Rightarrow> num 3 | CompatibilityOutcome_COMPATIBLE \<Rightarrow> num 2
      | CompatibilityOutcome_COMPATIBLE_WITH_ADAPTATION \<Rightarrow> num 1 | _ \<Rightarrow> num 0)"

section \<open>Filters\<close>

record CandidateAssessment =
  ca_record_id :: StateRecordId
  ca_generation :: StateGeneration
  ca_in_scope :: bool
  ca_rejection :: RejectionReason
  ca_rejection_note :: string
  ca_factors :: "double list"
  ca_factor_notes :: "string list"
  ca_best_placement :: "PlacementId option"

type_synonym rejection = "(RejectionReason \<times> string) option"

definition reject_if :: "bool \<Rightarrow> RejectionReason \<Rightarrow> string \<Rightarrow> rejection" where
  "reject_if b r note = (if b then Some (r, note) else None)"

fun first_rejection :: "rejection list \<Rightarrow> rejection" where
  "first_rejection [] = None"
| "first_rejection (None # fs) = first_rejection fs"
| "first_rejection (Some r # fs) = Some r"

text \<open>\<^verbatim>\<open>q.x.has_value() && rec.x != *q.x\<close>\<close>

definition differs :: "'a option \<Rightarrow> 'a \<Rightarrow> bool" where
  "differs wanted x \<longleftrightarrow> (case wanted of None \<Rightarrow> False | Some w \<Rightarrow> x \<noteq> w)"

definition identity_filters :: "StateRecord \<Rightarrow> QueryDescriptor \<Rightarrow> rejection list" where
  "identity_filters rec q =
     [reject_if (differs (qd_kind q) (rec_kind rec)) RejectionReason_WRONG_STATE_KIND
        ''kind does not match requested kind'',
      reject_if (differs (qd_namespace_id q) (rec_namespace_id rec)) RejectionReason_WRONG_NAMESPACE
        ''namespace does not match requested namespace'',
      reject_if (differs (qd_owner_id q) (rec_owner_id rec)) RejectionReason_INSUFFICIENT_EVIDENCE
        ''owner does not match requested owner'',
      reject_if (differs (qd_producer_id q) (rec_producer_id rec)) RejectionReason_INSUFFICIENT_EVIDENCE
        ''producer does not match requested producer'',
      reject_if (\<not> qd_wildcard_state_id q \<and> differs (qd_state_id q) (rec_state_id rec))
        RejectionReason_WRONG_STATE_KIND ''state id does not match requested identity'',
      reject_if (qd_content_digest q \<noteq> [] \<and> rec_content_digest rec \<noteq> qd_content_digest q)
        RejectionReason_CONTENT_DIGEST_MISMATCH ''content digest does not match requirement'']"

definition retired_lifecycle :: "Lifecycle \<Rightarrow> bool" where
  "retired_lifecycle l \<longleftrightarrow> l = Lifecycle_SUPERSEDED \<or> l = Lifecycle_RETIRED \<or> l = Lifecycle_MISSING \<or>
     l = Lifecycle_FAILED"

definition lifecycle_filters :: "StateIndexEngine \<Rightarrow> StateRecord \<Rightarrow> QueryDescriptor \<Rightarrow> rejection list" where
  "lifecycle_filters e rec q =
     [reject_if (is_tombstoned e (rec_state_id rec) (rec_state_generation rec)) RejectionReason_TOMBSTONED
        ''generation covered by a tombstone'',
      reject_if (rec_lifecycle rec = Lifecycle_INVALIDATED \<or> rec_lifecycle rec = Lifecycle_TOMBSTONED)
        RejectionReason_INVALIDATED (''record lifecycle is '' @ Lifecycle_to_string (rec_lifecycle rec)),
      reject_if (\<not> eng_historical_mode e \<and> \<not> qd_include_invalidated q \<and> retired_lifecycle (rec_lifecycle rec))
        RejectionReason_NOT_CURRENT (''record is '' @ Lifecycle_to_string (rec_lifecycle rec))]"

definition is_current_record :: "StateIndexEngine \<Rightarrow> StateRecord \<Rightarrow> bool" where
  "is_current_record e rec \<longleftrightarrow> um_find (eng_current e) (rec_state_id rec) = Some (rec_record_id rec)"

definition generation_filter :: "StateIndexEngine \<Rightarrow> StateRecord \<Rightarrow> QueryDescriptor \<Rightarrow> rejection" where
  "generation_filter e rec q =
     (let g = rec_state_generation rec in
      case qd_generation_rule q of
        GenerationRule_CURRENT \<Rightarrow>
          reject_if (\<not> eng_historical_mode e \<and> \<not> is_current_record e rec) RejectionReason_NOT_CURRENT
            (''generation '' @ gen_to_string g @ '' is not the current authority'')
      | GenerationRule_MINIMUM \<Rightarrow>
          (case qd_minimum_generation q of None \<Rightarrow> None
           | Some m \<Rightarrow> reject_if (g < m) RejectionReason_STALE_GENERATION
               (''generation '' @ gen_to_string g @ '' below minimum '' @ gen_to_string m))
      | GenerationRule_EXACT \<Rightarrow>
          (case qd_exact_generation q of None \<Rightarrow> None
           | Some x \<Rightarrow> reject_if (g \<noteq> x) RejectionReason_STALE_GENERATION
               (''generation '' @ gen_to_string g @ '' does not equal requested '' @ gen_to_string x))
      | GenerationRule_AS_OF \<Rightarrow>
          (case qd_as_of_generation q of None \<Rightarrow> None
           | Some a \<Rightarrow> reject_if (g > a) RejectionReason_NOT_CURRENT
               (''generation '' @ gen_to_string g @ '' is after as-of generation '' @ gen_to_string a))
      | _ \<Rightarrow> None)"

definition compatibility_filter :: "StateRecord \<Rightarrow> QueryDescriptor \<Rightarrow> rejection" where
  "compatibility_filter rec q =
     (if qd_compatibility q = CompatibilityRequirement_NONE then None
      else case rec_compatibility rec of
        None \<Rightarrow> Some (RejectionReason_INSUFFICIENT_EVIDENCE,
          ''no compatibility evidence; cannot satisfy a compatibility requirement'')
      | Some c \<Rightarrow>
          if comp_outcome c = CompatibilityOutcome_UNKNOWN
          then Some (RejectionReason_INSUFFICIENT_EVIDENCE, ''compatibility outcome is UNKNOWN'')
          else reject_if (\<not> satisfies c (qd_compatibility q)) RejectionReason_COMPATIBILITY_MISMATCH
            (''compatibility outcome '' @ CompatibilityOutcome_to_string (comp_outcome c)
             @ '' does not satisfy requirement''))"

text \<open>The body of the loop over \<^verbatim>\<open>q.dependency_requirements\<close>; the test inside its inner loop does not
  depend on the dependency that matched.\<close>

definition requirement_filter :: "StateIndexEngine \<Rightarrow> StateRecord \<Rightarrow> DependencyRequirement \<Rightarrow> rejection" where
  "requirement_filter e rec req =
     (let target = dr_target_state req in
      if list_ex (\<lambda>dep. dep_target_state dep = target) (rec_dependencies rec) then
        reject_if (case find_state e target of None \<Rightarrow> True
            | Some t \<Rightarrow> rec_state_generation t < dr_minimum_generation req)
          RejectionReason_DEPENDENCY_MISMATCH
          (''dependency '' @ id_to_string target @ '' not at required generation'')
      else reject_if (dr_required req) RejectionReason_MISSING_REQUIRED_DEPENDENCY
          (''required dependency '' @ id_to_string target @ '' is absent''))"

definition standing_filter :: "StateIndexEngine \<Rightarrow> StateRecord \<Rightarrow> rejection" where
  "standing_filter e rec = reject_if (\<not> dep_satisfied e rec) RejectionReason_DEPENDENCY_MISMATCH
     ''a required dependency is invalidated, tombstoned, or stale''"

section \<open>Locations\<close>

text \<open>An empty constraint admits everything.\<close>

definition admits :: "'a list \<Rightarrow> 'a \<Rightarrow> bool" where
  "admits xs x \<longleftrightarrow> xs = [] \<or> List.member xs x"

definition usable_locations :: "StateRecord \<Rightarrow> QueryDescriptor \<Rightarrow> StateLocation list" where
  "usable_locations rec q =
     (let lc = qd_location_constraint q in
      filter (\<lambda>l. usable l \<and> admits (lc_domains lc) (loc_domain l) \<and> admits (lc_nodes lc) (loc_node_id l) \<and>
        admits (lc_devices lc) (loc_device_id l)) (rec_locations rec))"

definition location_filters :: "StateLocation list \<Rightarrow> QueryDescriptor \<Rightarrow> rejection list" where
  "location_filters ls q =
     [reject_if (ls = []) RejectionReason_LOCATION_UNAVAILABLE
        ''no usable location matching the location constraints'',
      reject_if (qd_required_health q \<noteq> Health_UNKNOWN \<and>
          \<not> list_ex (\<lambda>l. loc_health l = qd_required_health q) ls)
        RejectionReason_HEALTH_UNACCEPTABLE ''no location has the required health'']"

fun locality_sum :: "MemoryDomain \<Rightarrow> MemoryDomain list \<Rightarrow> double \<Rightarrow> double" where
  "locality_sum d [] s = s"
| "locality_sum d (p # ps) s =
     locality_sum d ps (if d = p then f64_add s (num (length (p # ps))) else s)"

definition locality_score :: "QueryDescriptor \<Rightarrow> StateLocation \<Rightarrow> double" where
  "locality_score q l =
     (let s = locality_sum (loc_domain l) (qd_locality_preference q) (num 0)
      in if loc_access_class l = AccessClass_LOCAL then f64_add s (num 10) else s)"

definition rank_of :: "QueryDescriptor \<Rightarrow> StateLocation \<Rightarrow> double" where
  "rank_of q l =
     f64_add (f64_add (locality_score q l) (health_score (loc_health l)))
       (inv_factor (re_expected_latency_ms (loc_retrieval l)))"

definition best_location :: "QueryDescriptor \<Rightarrow> StateLocation list \<Rightarrow> StateLocation option" where
  "best_location q ls =
     foldl (\<lambda>best l. case best of None \<Rightarrow> Some l
        | Some b \<Rightarrow> if f64_less (rank_of q b) (rank_of q l) then Some l else Some b) None ls"

definition final_filters :: "StateRecord \<Rightarrow> QueryDescriptor \<Rightarrow> StateLocation list \<Rightarrow> rejection list" where
  "final_filters rec q ls =
     [reject_if (qd_required_freshness q \<noteq> Freshness_UNKNOWN \<and>
          f64_less (freshness_score (rec_freshness rec)) (freshness_score (qd_required_freshness q)))
        RejectionReason_FRESHNESS_BELOW_REQUIREMENT
        (''freshness '' @ Freshness_to_string (rec_freshness rec) @ '' is below requirement''),
      reject_if (qd_min_replica_count q > 0 \<and> of_nat (length ls) < qd_min_replica_count q)
        RejectionReason_LOCATION_UNAVAILABLE ''replica count below required minimum'',
      reject_if (case best_location q ls of None \<Rightarrow> False
          | Some best \<Rightarrow> f64_less (num 0) (qd_max_retrieval_cost q) \<and>
              f64_less (qd_max_retrieval_cost q) (re_local_access_cost (loc_retrieval best)))
        RejectionReason_LOCATION_UNAVAILABLE ''retrieval cost exceeds allowed maximum'']"

definition candidate_filters :: "StateIndexEngine \<Rightarrow> StateRecord \<Rightarrow> QueryDescriptor \<Rightarrow> rejection list" where
  "candidate_filters e rec q =
     identity_filters rec q @ lifecycle_filters e rec q
     @ [generation_filter e rec q, compatibility_filter rec q]
     @ List.map (requirement_filter e rec) (qd_dependency_requirements q)
     @ [standing_filter e rec]
     @ location_filters (usable_locations rec q) q
     @ final_filters rec q (usable_locations rec q)"

section \<open>Assessment\<close>

definition exact_id :: "StateRecord \<Rightarrow> QueryDescriptor \<Rightarrow> bool" where
  "exact_id rec q \<longleftrightarrow> \<not> qd_wildcard_state_id q \<and> qd_state_id q = Some (rec_state_id rec)"

definition factor_of ::
    "StateRecord \<Rightarrow> QueryDescriptor \<Rightarrow> StateLocation \<Rightarrow> RankingFactor \<Rightarrow> double \<times> string" where
  "factor_of rec q best f =
     (let est = loc_retrieval best in
      case f of
        RankingFactor_EXACT_IDENTITY_MATCH \<Rightarrow>
          (if exact_id rec q then (num 1, ''exact identity match'') else (num 0, ''identity not exact''))
      | RankingFactor_COMPATIBILITY_QUALITY \<Rightarrow>
          (case rec_compatibility rec of None \<Rightarrow> (num 0, ''no compatibility evidence'')
           | Some c \<Rightarrow> (compat_score (comp_outcome c), CompatibilityOutcome_to_string (comp_outcome c)))
      | RankingFactor_HEALTH \<Rightarrow> (health_score (loc_health best), Health_to_string (loc_health best))
      | RankingFactor_FRESHNESS \<Rightarrow>
          (freshness_score (loc_freshness best), Freshness_to_string (loc_freshness best))
      | RankingFactor_LOCALITY \<Rightarrow>
          (locality_score q best, MemoryDomain_to_string (loc_domain best)
             @ '' access='' @ AccessClass_to_string (loc_access_class best))
      | RankingFactor_GENERATION_RECENCY \<Rightarrow>
          (num (unat (gen_value (rec_state_generation rec))),
           ''generation '' @ gen_to_string (rec_state_generation rec))
      | RankingFactor_RETRIEVAL_LATENCY \<Rightarrow>
          (inv_factor (re_expected_latency_ms est),
           ''latency '' @ f64_to_string (re_expected_latency_ms est) @ ''ms'')
      | RankingFactor_TRANSFER_BYTES \<Rightarrow>
          (inv_factor (re_transfer_bytes est), ''transfer '' @ f64_to_string (re_transfer_bytes est) @ ''B'')
      | RankingFactor_RETRIEVAL_BANDWIDTH \<Rightarrow>
          (re_expected_bandwidth_mbps est,
           ''bandwidth '' @ f64_to_string (re_expected_bandwidth_mbps est) @ ''MB/s'')
      | RankingFactor_RESTORE_COST \<Rightarrow>
          (inv_factor (re_restore_cost est), ''restore cost '' @ f64_to_string (re_restore_cost est))
      | RankingFactor_REUSE_COST \<Rightarrow>
          (inv_factor (re_recompute_cost est), ''reuse cost '' @ f64_to_string (re_recompute_cost est))
      | RankingFactor_REPLICA_COUNT \<Rightarrow>
          (num (length (rec_locations rec)),
           std_to_string (of_nat (length (rec_locations rec))) @ '' replicas'')
      | RankingFactor_POLICY_PREFERENCE \<Rightarrow>
          (if is_set (qd_policy_generation q) \<and> rec_policy_generation rec = qd_policy_generation q
           then num 1 else num 0,
           if is_set (qd_policy_generation q) then ''policy match'' else ''policy not compared'')
      | RankingFactor_ADAPTATION_COST \<Rightarrow>
          (inv_factor (re_adaptation_cost est), ''adaptation cost '' @ f64_to_string (re_adaptation_cost est))
      | RankingFactor_unnamed b \<Rightarrow> (num 0, []))"

definition rejected_candidate :: "StateRecord \<Rightarrow> RejectionReason \<times> string \<Rightarrow> CandidateAssessment" where
  "rejected_candidate rec rn =
     \<lparr>ca_record_id = rec_record_id rec, ca_generation = rec_state_generation rec, ca_in_scope = False,
      ca_rejection = fst rn, ca_rejection_note = snd rn, ca_factors = [], ca_factor_notes = [],
      ca_best_placement = None\<rparr>"

definition accepted_candidate :: "StateRecord \<Rightarrow> QueryDescriptor \<Rightarrow> StateLocation \<Rightarrow> CandidateAssessment" where
  "accepted_candidate rec q best =
     \<lparr>ca_record_id = rec_record_id rec, ca_generation = rec_state_generation rec, ca_in_scope = True,
      ca_rejection = RejectionReason_NONE, ca_rejection_note = [],
      ca_factors = List.map (\<lambda>f. fst (factor_of rec q best f)) factor_order,
      ca_factor_notes = List.map (\<lambda>f. snd (factor_of rec q best f)) factor_order,
      ca_best_placement = Some (loc_placement_id best)\<rparr>"

text \<open>A candidate that passes the filters has a usable location, so \<open>best_location\<close> is \<open>Some\<close>.\<close>

definition evaluate_candidate ::
    "StateIndexEngine \<Rightarrow> StateRecord \<Rightarrow> QueryDescriptor \<Rightarrow> CandidateAssessment" where
  "evaluate_candidate e rec q =
     (case first_rejection (candidate_filters e rec q) of
        Some rn \<Rightarrow> rejected_candidate rec rn
      | None \<Rightarrow> accepted_candidate rec q (the (best_location q (usable_locations rec q))))"

section \<open>Order of the candidates\<close>

text \<open>The loop over the factors: the first pair that is not equal decides, a NaN being unequal to all.\<close>

fun factors_differ :: "double list \<Rightarrow> double list \<Rightarrow> (double \<times> double) option" where
  "factors_differ (x # xs) (y # ys) = (if f64_eq x y then factors_differ xs ys else Some (x, y))"
| "factors_differ _ _ = None"

definition candidate_less :: "CandidateAssessment \<Rightarrow> CandidateAssessment \<Rightarrow> bool" where
  "candidate_less a b =
     (case factors_differ (ca_factors a) (ca_factors b) of
        Some (x, y) \<Rightarrow> f64_less y x
      | None \<Rightarrow>
          if ca_generation a \<noteq> ca_generation b then ca_generation a > ca_generation b
          else ca_record_id a < ca_record_id b)"

text \<open>\<^verbatim>\<open>std::sort\<close>: where the comparison is a strict total order on the elements there is one sorted
  arrangement, so the algorithm does not matter.\<close>

fun insert_by :: "('a \<Rightarrow> 'a \<Rightarrow> bool) \<Rightarrow> 'a \<Rightarrow> 'a list \<Rightarrow> 'a list" where
  "insert_by lt x [] = [x]"
| "insert_by lt x (y # ys) = (if lt y x then y # insert_by lt x ys else x # y # ys)"

definition sort_by :: "('a \<Rightarrow> 'a \<Rightarrow> bool) \<Rightarrow> 'a list \<Rightarrow> 'a list" where
  "sort_by lt xs = foldr (insert_by lt) xs []"

section \<open>Queries\<close>

definition initial_candidate_ids :: "StateIndexEngine \<Rightarrow> QueryDescriptor \<Rightarrow> StateRecordId list" where
  "initial_candidate_ids e q =
     (case qd_state_id q of
        Some st \<Rightarrow> sort (by_state (eng_indexes e) st)
      | None \<Rightarrow>
          sort (case qd_kind q of Some k \<Rightarrow> by_kind (eng_indexes e) k
            | None \<Rightarrow> List.map fst (eng_records e)))"

definition assessments :: "StateIndexEngine \<Rightarrow> QueryDescriptor \<Rightarrow> CandidateAssessment list" where
  "assessments e q =
     List.map_filter (\<lambda>rid. map_option (\<lambda>rec. evaluate_candidate e rec q) (get_record e rid))
       (initial_candidate_ids e q)"

definition ranking_of :: "CandidateAssessment \<Rightarrow> CandidateRanking" where
  "ranking_of c =
     \<lparr>cr_record_id = ca_record_id c, cr_generation = ca_generation c,
      cr_best_placement = ca_best_placement c, cr_factors = zip factor_order (ca_factors c),
      cr_factor_notes = ca_factor_notes c,
      cr_summary = ''StateGeneration '' @ gen_to_string (ca_generation c) @ '' candidate''\<rparr>"

definition elimination_of :: "CandidateAssessment \<Rightarrow> EliminatedCandidate" where
  "elimination_of c =
     \<lparr>el_record_id = ca_record_id c, el_reason = ca_rejection c, el_note = ca_rejection_note c\<rparr>"

datatype rejection_class = Invalid | Stale | Incompatible | Insufficient | Other

definition class_of :: "RejectionReason \<Rightarrow> rejection_class" where
  "class_of r =
     (case r of
        RejectionReason_INVALIDATED \<Rightarrow> Invalid
      | RejectionReason_TOMBSTONED \<Rightarrow> Invalid
      | RejectionReason_STALE_GENERATION \<Rightarrow> Stale
      | RejectionReason_NOT_CURRENT \<Rightarrow> Stale
      | RejectionReason_FRESHNESS_BELOW_REQUIREMENT \<Rightarrow> Stale
      | RejectionReason_COMPATIBILITY_MISMATCH \<Rightarrow> Incompatible
      | RejectionReason_DEPENDENCY_MISMATCH \<Rightarrow> Incompatible
      | RejectionReason_MISSING_REQUIRED_DEPENDENCY \<Rightarrow> Incompatible
      | RejectionReason_INSUFFICIENT_EVIDENCE \<Rightarrow> Insufficient
      | _ \<Rightarrow> Other)"

definition saw :: "rejection_class \<Rightarrow> EliminatedCandidate list \<Rightarrow> bool" where
  "saw c es \<longleftrightarrow> list_ex (\<lambda>el. class_of (el_reason el) = c) es"

definition empty_outcome :: "StateRecordId list \<Rightarrow> EliminatedCandidate list \<Rightarrow> QueryOutcome" where
  "empty_outcome ids es =
     (if ids = [] then QueryOutcome_NOT_FOUND
      else if saw Invalid es \<and> \<not> saw Stale es \<and> \<not> saw Incompatible es \<and> \<not> saw Insufficient es \<and> \<not> saw Other es
      then QueryOutcome_INVALIDATED_ONLY
      else if saw Incompatible es \<and> \<not> saw Stale es \<and> \<not> saw Insufficient es \<and> \<not> saw Invalid es
      then QueryOutcome_INCOMPATIBLE_ONLY
      else if saw Stale es \<and> \<not> saw Insufficient es \<and> \<not> saw Other es then QueryOutcome_STALE_ONLY
      else if saw Insufficient es \<or> saw Other es then QueryOutcome_INSUFFICIENT_EVIDENCE
      else QueryOutcome_NOT_FOUND)"

definition exact_match :: "StateRecord \<Rightarrow> QueryDescriptor \<Rightarrow> bool" where
  "exact_match rec q \<longleftrightarrow> exact_id rec q \<and>
     (qd_compatibility q = CompatibilityRequirement_NONE \<or>
      (case rec_compatibility rec of None \<Rightarrow> False | Some c \<Rightarrow> comp_outcome c = CompatibilityOutcome_EXACT)) \<and>
     (qd_content_digest q = [] \<or> rec_content_digest rec = qd_content_digest q)"

definition select :: "CandidateAssessment \<Rightarrow> QueryResult \<Rightarrow> QueryResult" where
  "select c r = r\<lparr>qr_selected_record_id := Some (ca_record_id c),
     qr_selected_generation := Some (ca_generation c), qr_selected_placement := ca_best_placement c\<rparr>"

text \<open>The three branches that decide the outcome.\<close>

definition decide ::
    "StateIndexEngine \<Rightarrow> QueryDescriptor \<Rightarrow> StateRecordId list \<Rightarrow> CandidateAssessment list
     \<Rightarrow> QueryResult \<Rightarrow> QueryResult" where
  "decide e q ids cs r =
     (case cs of
        [] \<Rightarrow> r\<lparr>qr_outcome := empty_outcome ids (qr_eliminated r)\<rparr>
      | [c] \<Rightarrow>
          (case get_record e (ca_record_id c) of
             None \<Rightarrow> select c r
           | Some rec \<Rightarrow> (select c r)\<lparr>qr_selected_state_id := Some (rec_state_id rec),
               qr_outcome := (if exact_match rec q then QueryOutcome_FOUND_EXACT
                 else QueryOutcome_FOUND_COMPATIBLE)\<rparr>)
      | c # _ \<Rightarrow> (select c r)\<lparr>qr_outcome := QueryOutcome_FOUND_MULTIPLE,
          qr_selected_state_id := map_option rec_state_id (get_record e (ca_record_id c))\<rparr>)"

text \<open>Metadata of the selected record and of its chosen placement.\<close>

definition fill_placement :: "StateRecord \<Rightarrow> QueryResult \<Rightarrow> QueryResult" where
  "fill_placement rec r =
     (case qr_selected_placement r of None \<Rightarrow> r
      | Some p \<Rightarrow>
          (case List.find (same_placement p) (rec_locations rec) of None \<Rightarrow> r
           | Some l \<Rightarrow> r\<lparr>qr_retrieval := loc_retrieval l, qr_provenance := loc_provenance l,
               qr_source := (if loc_provenance l = Evidence_SYNTHETIC then ''SYNTHETIC'' else ''PHYSICAL'')\<rparr>))"

definition fill_provenance :: "StateRecord \<Rightarrow> QueryResult \<Rightarrow> QueryResult" where
  "fill_provenance rec r =
     (case rec_provenance rec of None \<Rightarrow> r
      | Some p \<Rightarrow> if qr_provenance r = Evidence_UNKNOWN then r\<lparr>qr_provenance := prov_quality p\<rparr> else r)"

definition fill_selected :: "StateIndexEngine \<Rightarrow> QueryResult \<Rightarrow> QueryResult" where
  "fill_selected e r =
     (case Option.bind (qr_selected_record_id r) (get_record e) of None \<Rightarrow> r
      | Some rec \<Rightarrow> fill_provenance rec (fill_placement rec
          (r\<lparr>qr_freshness := rec_freshness rec, qr_health := rec_health rec,
             qr_compatibility_outcome := (case rec_compatibility rec of None \<Rightarrow> ''NONE''
               | Some c \<Rightarrow> CompatibilityOutcome_to_string (comp_outcome c)),
             qr_authority_boot := id_to_string (rec_authority_boot rec),
             qr_semantic_digest := rec_semantic_digest rec\<rparr>)))"

definition historical_notes :: "QueryDescriptor \<Rightarrow> bool \<Rightarrow> string list" where
  "historical_notes q historical =
     (if historical then
        [''historical query: results are labelled non-current; they are not eligible for current ranking'']
        @ (if \<not> qd_include_invalidated q
           then [''superseded and invalidated records excluded from this historical view''] else [])
      else [])"

definition result_summary :: "QueryResult \<Rightarrow> string" where
  "result_summary r =
     ''outcome='' @ QueryOutcome_to_string (qr_outcome r)
     @ (case qr_selected_record_id r of None \<Rightarrow> []
        | Some rid \<Rightarrow> '' selected='' @ id_to_string rid @ '' gen=''
            @ gen_to_string (case qr_selected_generation r of None \<Rightarrow> unset_gen | Some g \<Rightarrow> g))
     @ '' candidates='' @ std_to_string (of_nat (length (qr_ranked_candidates r)))
     @ '' eliminated='' @ std_to_string (of_nat (length (qr_eliminated r)))"

text \<open>\<^verbatim>\<open>in_scope\<close> after the sort, and \<^verbatim>\<open>eliminated\<close>.\<close>

definition ranked_assessments :: "StateIndexEngine \<Rightarrow> QueryDescriptor \<Rightarrow> CandidateAssessment list" where
  "ranked_assessments e q = sort_by candidate_less (filter ca_in_scope (assessments e q))"

definition rejected_assessments :: "StateIndexEngine \<Rightarrow> QueryDescriptor \<Rightarrow> CandidateAssessment list" where
  "rejected_assessments e q = filter (\<lambda>c. \<not> ca_in_scope c) (assessments e q)"

definition run_query :: "QueryDescriptor \<Rightarrow> bool \<Rightarrow> StateIndexEngine \<Rightarrow> QueryResult \<times> StateIndexEngine" where
  "run_query q historical e0 =
     (let e = e0\<lparr>eng_historical_mode := historical\<rparr>;
          ids = initial_candidate_ids e q;
          in_scope = ranked_assessments e q;
          r0 = empty_result\<lparr>qr_query_id := qd_query_id q, qr_query_generation := qd_query_generation q,
            qr_ranked_candidates := List.map ranking_of in_scope,
            qr_eliminated := List.map elimination_of (rejected_assessments e q)\<rparr>;
          r1 = fill_selected e (decide e q ids in_scope r0);
          r2 = r1\<lparr>qr_notes := historical_notes q historical\<rparr>
      in (r2\<lparr>qr_summary := result_summary r2\<rparr>, e))"

definition query :: "QueryDescriptor \<Rightarrow> StateIndexEngine \<Rightarrow> QueryResult \<times> StateIndexEngine" where
  "query q e = run_query q False e"

definition query_historical :: "QueryDescriptor \<Rightarrow> StateIndexEngine \<Rightarrow> QueryResult \<times> StateIndexEngine" where
  "query_historical q e = run_query q True e"

end
