(* ===== verification/EngineSteps.thy ===== *)
theory EngineSteps
  imports Serving Planner
begin

text \<open>
  The engine as a transition system: one rule per public method that is not const. The contract every
  enveloped mutation meets is the locale \<open>engine_mutation\<close>, of which the five mutations are
  interpretations; invariants of every reachable engine follow by rule induction.
\<close>

section \<open>The contract of a mutation\<close>

definition stale_envelope :: "MutationEnvelope \<Rightarrow> StateIndexEngine \<Rightarrow> bool" where
  "stale_envelope env e \<longleftrightarrow> env_coordinator_epoch env \<noteq> auth_epoch (eng_authority e) \<or>
     \<not> is_live (eng_authority e) (env_worker_boot env)"

definition floors_kept :: "StateIndexEngine \<Rightarrow> StateIndexEngine \<Rightarrow> bool" where
  "floors_kept e e' \<longleftrightarrow>
     (\<forall>st g. below_floor (eng_authority e) st g \<longrightarrow> below_floor (eng_authority e') st g)"

definition same_membership :: "StateIndexEngine \<Rightarrow> StateIndexEngine \<Rightarrow> bool" where
  "same_membership e e' \<longleftrightarrow>
     auth_epoch (eng_authority e') = auth_epoch (eng_authority e) \<and>
     auth_live_boots (eng_authority e') = auth_live_boots (eng_authority e)"

locale engine_mutation =
  fixes run :: "'a \<Rightarrow> MutationEnvelope \<Rightarrow> StateIndexEngine \<Rightarrow> MutationVerdictDetail \<times> StateIndexEngine"
  assumes keeps_inv: "engine_inv e \<Longrightarrow> engine_inv (snd (run a env e))"
    and keeps_serving: "serving e \<Longrightarrow> serving (snd (run a env e))"
    and keeps_order: "serving e \<Longrightarrow> never_regresses e (snd (run a env e))"
    and keeps_floors: "engine_inv e \<Longrightarrow> floors_kept e (snd (run a env e))"
    and keeps_membership: "engine_inv e \<Longrightarrow> same_membership e (snd (run a env e))"
    and rejected: "mvd_verdict (fst (run a env e)) \<noteq> MutationVerdict_ACCEPTED \<Longrightarrow>
      same_but_accounting e (snd (run a env e))"
    and fenced: "stale_envelope env e \<Longrightarrow>
      mvd_verdict (fst (run a env e)) = MutationVerdict_REJECTED_STALE_EPOCH \<or>
      mvd_verdict (fst (run a env e)) = MutationVerdict_REJECTED_STALE_BOOT"
begin

lemma keeps_serving_sequence: "serving e \<Longrightarrow> serving (foldl (\<lambda>e (a, env). snd (run a env e)) e ops)"
  by (induction ops arbitrary: e) (auto intro: keeps_serving)

lemma fenced_no_effect: "stale_envelope env e \<Longrightarrow> same_but_accounting e (snd (run a env e))"
  using fenced [of env e a] by (auto intro: rejected)

lemma keeps_inv_sequence: "engine_inv e \<Longrightarrow> engine_inv (foldl (\<lambda>e (a, env). snd (run a env e)) e ops)"
  by (induction ops arbitrary: e) (auto intro: keeps_inv)

text \<open>A burst of requests under one stale envelope leaves no trace but the counters.\<close>

lemma stale_burst:
  "stale_envelope env e \<Longrightarrow> same_but_accounting e (foldl (\<lambda>e a. snd (run a env e)) e as)"
proof (induction as arbitrary: e)
  case (Cons a as)
  have same: "same_but_accounting e (snd (run a env e))" by (rule fenced_no_effect [OF Cons.prems])
  then have "eng_authority (snd (run a env e)) = eng_authority e" by (rule same_but_accounting_fields)
  with Cons.prems have "stale_envelope env (snd (run a env e))" by (simp add: stale_envelope_def)
  from same_but_accounting_trans [OF same Cons.IH [OF this]] show ?case by simp
qed simp

end

lemma same_authority_kept:
  "eng_authority e' = eng_authority e \<Longrightarrow> floors_kept e e' \<and> same_membership e e'"
  by (simp add: floors_kept_def same_membership_def)

lemma live_boots_frame [simp]:
  "auth_live_boots (set_current_authority st g b a) = auth_live_boots a"
  "auth_live_boots (clear_current_authority st a) = auth_live_boots a"
  "auth_live_boots (set_tombstone_floor st f a) = auth_live_boots a"
  "auth_epoch (set_current_authority st g b a) = auth_epoch a"
  "auth_epoch (clear_current_authority st a) = auth_epoch a"
  "auth_epoch (set_tombstone_floor st f a) = auth_epoch a"
  by (simp_all add: set_current_authority_def clear_current_authority_def set_tombstone_floor_def)

lemma same_but_accounting_undo:
  "same_but_accounting e e' \<Longrightarrow> e'\<lparr>eng_accounting := eng_accounting e\<rparr> = e"
  by (cases e, cases e') (simp add: same_but_accounting_def)

lemma guard_stale:
  "stale_envelope env e \<Longrightarrow> \<exists>v. guard_authority env e = Some v \<and>
     (mvd_verdict v = MutationVerdict_REJECTED_STALE_EPOCH \<or> mvd_verdict v = MutationVerdict_REJECTED_STALE_BOOT)"
  by (auto simp: stale_envelope_def guard_authority_def)

lemma authority_publish:
  "eng_authority (publish rec e) = eng_authority e \<or>
   eng_authority (publish rec e) = set_current_authority (rec_state_id rec) (rec_state_generation rec)
     (rec_authority_boot rec) (eng_authority e)"
  by (auto simp: publish_def split: option.split)

lemma authority_kept_register:
  assumes "engine_inv e"
  shows "floors_kept e (snd (register_state rec env e)) \<and> same_membership e (snd (register_state rec env e))"
proof (cases "may_register rec env e")
  case True
  with assms authority_publish [of "stamp env rec" e] show ?thesis
    by (auto simp: register_state_accepted [OF engine_inv_service] floors_kept_def same_membership_def
        same_but_accounting_fields(5) [OF same_but_accounting_count_record])
next
  case False
  from register_state_rejected [OF False] show ?thesis
    by (auto simp: floors_kept_def same_membership_def)
qed

lemma authority_add_location: "eng_authority (snd (add_location st loc env e)) = eng_authority e"
  by (auto simp: add_location_def Let_def same_but_accounting_fields(5) [OF same_but_accounting_count_put]
      split: option.split)

lemma authority_remove_location: "eng_authority (snd (remove_location st p env e)) = eng_authority e"
  by (auto simp: remove_location_def Let_def split: option.split)

lemma authority_kept_invalidate:
  assumes "engine_inv e"
  shows "floors_kept e (snd (invalidate i env e)) \<and> same_membership e (snd (invalidate i env e))"
proof (cases "may_invalidate i env e")
  case True
  have "same_views (log_invalidation i env e)
      (snd (mark_invalidated (inv_state_id i) (inv_bound_generation i) (log_invalidation i env e)))"
    by (rule mark_invalidated(2) [OF service_log [OF engine_inv_service [OF assms]]])
  with invalidate_accepted(2) [OF engine_inv_serving [OF assms] True] show ?thesis
    by (auto simp: same_views_def floors_kept_def same_membership_def)
qed (simp add: invalidate_rejected same_authority_kept)

lemma authority_kept_tombstone:
  assumes "engine_inv e"
  shows "floors_kept e (snd (tombstone t env e)) \<and> same_membership e (snd (tombstone t env e))"
proof (cases "may_tombstone t env e")
  case True
  let ?e = "mark_entombed (tomb_state_id t) (tomb_floor_generation t) e"
  have a: "eng_authority ?e = eng_authority e"
    using mark_entombed(2) [OF engine_inv_service [OF assms]] by (simp add: same_views_def)
  have auth: "eng_authority (snd (tombstone t env e)) = set_tombstone_floor (tomb_state_id t) (tomb_floor_generation t) (eng_authority e) \<or>
      eng_authority (snd (tombstone t env e)) = clear_current_authority (tomb_state_id t)
        (set_tombstone_floor (tomb_state_id t) (tomb_floor_generation t) (eng_authority e))"
    by (auto simp: tombstone_accepted(2) [OF True] drop_tombstoned_current_def a split: option.split)
  have "g \<le> f \<Longrightarrow> g \<le> tomb_floor_generation t"
    if "tombstone_floor (eng_authority e) (tomb_state_id t) = Some f" for g f
    using that assms True unfolding engine_inv_def core_inv_def tombstone_inv_def may_tombstone_def
    by (metis (no_types, lifting) less_imp_le map_option_eq_Some order_trans)
  then have "below_floor (eng_authority e) st g \<Longrightarrow>
      below_floor (set_tombstone_floor (tomb_state_id t) (tomb_floor_generation t) (eng_authority e)) st g" for st g
    by (auto simp: below_floor_def)
  with auth show ?thesis by (auto simp: floors_kept_def same_membership_def)
qed (simp add: tombstone_rejected same_authority_kept)

interpretation reg: engine_mutation "\<lambda>rec env e. register_state rec env e"
proof unfold_locales
  fix e rec env
  assume "stale_envelope env e"
  then show "mvd_verdict (fst (register_state rec env e)) = MutationVerdict_REJECTED_STALE_EPOCH \<or>
      mvd_verdict (fst (register_state rec env e)) = MutationVerdict_REJECTED_STALE_BOOT"
    by (auto simp: stale_envelope_def register_state_def validate_state_publication_def Let_def)
next
  fix e rec env
  assume rej: "mvd_verdict (fst (register_state rec env e)) \<noteq> MutationVerdict_ACCEPTED"
  show "same_but_accounting e (snd (register_state rec env e))"
    using rej by (auto simp: register_state_def Let_def split: if_splits)
qed (simp_all add: engine_inv_register serving_mutations never_regresses_register [OF servingD(1)] authority_kept_register)

interpretation addloc: engine_mutation "\<lambda>(st, loc) env e. add_location st loc env e"
proof (unfold_locales, goal_cases)
  case (7 env e a)
  with guard_stale [OF 7] show ?case by (auto simp: add_location_def split: prod.split)
qed (auto simp: engine_inv_add_location current_gen_add_location [OF servingD(1)] serving_mutations authority_add_location same_authority_kept
      intro!: never_regresses_current_gen split: prod.splits,
    auto simp: add_location_def Let_def split: option.splits if_splits)

interpretation remloc: engine_mutation "\<lambda>(st, p) env e. remove_location st p env e"
proof (unfold_locales, goal_cases)
  case (7 env e a)
  with guard_stale [OF 7] show ?case by (auto simp: remove_location_def split: prod.split)
qed (auto simp: engine_inv_remove_location current_gen_remove_location [OF servingD(1)] serving_mutations authority_remove_location same_authority_kept
      intro!: never_regresses_current_gen split: prod.splits,
    auto simp: remove_location_def Let_def split: option.splits if_splits)

interpretation inval: engine_mutation "\<lambda>i env e. invalidate i env e"
proof (unfold_locales, goal_cases)
  case (6 i env e)
  then have "\<not> may_invalidate i env e \<or> snd (invalidate i env e) = e"
    by (auto simp: invalidate_def may_invalidate_def Let_def not_le split: option.splits prod.splits if_splits)
  then show ?case by (auto simp: invalidate_rejected)
next
  case (7 env e i)
  with guard_stale [OF 7] show ?case by (auto simp: invalidate_def)
qed (simp_all add: engine_inv_invalidate serving_mutations never_regresses_invalidate authority_kept_invalidate)

interpretation tomb: engine_mutation "\<lambda>t env e. tombstone t env e"
proof (unfold_locales, goal_cases)
  case (6 t env e)
  then have "\<not> may_tombstone t env e" using tombstone_accepted(1) by blast
  then show ?case by (simp add: tombstone_rejected)
next
  case (7 env e t)
  with guard_stale [OF 7] show ?case by (auto simp: tombstone_def)
qed (simp_all add: engine_inv_tombstone serving_mutations never_regresses_tombstone [OF servingD(1)] authority_kept_tombstone)

section \<open>Queries\<close>

text \<open>A query changes the mode the planner ran in and nothing else.\<close>

definition in_mode :: "bool \<Rightarrow> StateIndexEngine \<Rightarrow> StateIndexEngine" where
  "in_mode h e = e\<lparr>eng_historical_mode := h\<rparr>"

lemma in_mode_views [simp]:
  "get_record (in_mode h e) = get_record e" "find_state (in_mode h e) = find_state e"
  "is_tombstoned (in_mode h e) = is_tombstoned e" "eng_historical_mode (in_mode h e) = h"
  "eng_current (in_mode h e) = eng_current e" "eng_indexes (in_mode h e) = eng_indexes e"
  "eng_records (in_mode h e) = eng_records e"
  by (intro ext views_cong; simp add: in_mode_def)+ (simp_all add: in_mode_def)

lemma engine_inv_in_mode: "engine_inv e \<Longrightarrow> engine_inv (in_mode h e)"
  by (rule engine_inv_cong [of _ e]) (simp_all add: in_mode_def history_ids_def)

lemma queryable_in_mode: "queryable e \<Longrightarrow> queryable (in_mode h e)"
  by (subst queryable_cong [of _ e]) (simp_all add: in_mode_def)

lemma run_query_engine [simp]: "snd (run_query q h e) = in_mode h e"
  by (simp add: run_query_def Let_def in_mode_def)

section \<open>Steps and reachable engines\<close>

inductive engine_step :: "StateIndexEngine \<Rightarrow> StateIndexEngine \<Rightarrow> bool" where
  step_register_worker: "engine_step e (register_worker w b e)"
| step_unregister_worker: "engine_step e (unregister_worker b e)"
| step_advance_epoch: "engine_step e (advance_epoch e)"
| step_register_state: "engine_step e (snd (register_state rec env e))"
| step_add_location: "engine_step e (snd (add_location st loc env e))"
| step_remove_location: "engine_step e (snd (remove_location st p env e))"
| step_invalidate: "engine_step e (snd (invalidate i env e))"
| step_tombstone: "engine_step e (snd (tombstone t env e))"
| step_query: "engine_step e (snd (query q e))"
| step_query_historical: "engine_step e (snd (query_historical q e))"

inductive engine_reachable :: "StateIndexEngine \<Rightarrow> bool" where
  reach_new: "engine_reachable (new_engine epoch)"
| reach_step: "engine_reachable e \<Longrightarrow> engine_step e e' \<Longrightarrow> engine_reachable e'"

inductive_cases engine_stepE: "engine_step e e'"

text \<open>Steps that touch no record: changes of the live boots and of the epoch, and queries.\<close>

definition membership_change :: "StateIndexEngine \<Rightarrow> StateIndexEngine \<Rightarrow> bool" where
  "membership_change e e' \<longleftrightarrow> (\<exists>a h. e' = e\<lparr>eng_authority := a, eng_historical_mode := h\<rparr> \<and>
     auth_current_authority a = auth_current_authority (eng_authority e) \<and>
     auth_tombstone_floor a = auth_tombstone_floor (eng_authority e))"

lemma membership_changes:
  "membership_change e (register_worker w b e)"
  "membership_change e (unregister_worker b e)"
  "membership_change e (advance_epoch e)"
  "membership_change e (snd (query q e))"
  "membership_change e (snd (query_historical q e))"
  unfolding membership_change_def register_worker_def unregister_worker_def advance_epoch_def
    query_def query_historical_def run_query_engine in_mode_def
  by (cases e, force)+

lemma membership_change_keeps:
  assumes "membership_change e e'"
  shows "engine_inv e \<Longrightarrow> engine_inv e'" and "never_regresses e e'" and "floors_kept e e'"
    and "current_gen e' st = current_gen e st" and "serving e \<Longrightarrow> serving e'"
proof -
  from assms obtain a h where a: "e' = e\<lparr>eng_authority := a, eng_historical_mode := h\<rparr>"
    "auth_current_authority a = auth_current_authority (eng_authority e)"
    "auth_tombstone_floor a = auth_tombstone_floor (eng_authority e)"
    unfolding membership_change_def by blast
  show "engine_inv e \<Longrightarrow> engine_inv e'"
    by (rule engine_inv_cong [of e' e]) (simp_all add: a history_ids_def)
  have "find_state e' = find_state e" by (intro ext views_cong) (simp_all add: a)
  then show "current_gen e' st = current_gen e st" "never_regresses e e'"
    by (auto simp: current_gen_def never_regresses_def)
  show "floors_kept e e'" by (simp add: a floors_kept_def below_floor_def tombstone_floor_def)
  have "newest_inv e' = newest_inv e" by (rule newest_cong) (intro ext views_cong; simp add: a)+
  moreover have "service_inv {} e \<Longrightarrow> service_inv {} e'" by (rule service_cong) (simp_all add: a history_ids_def)
  ultimately show "serving e \<Longrightarrow> serving e'" by (simp add: serving_def)
qed

lemma step_serving:
  assumes "engine_step e e'" and "serving e"
  shows "serving e'" and "never_regresses e e'"
  using assms
  by (cases rule: engine_step.cases;
      auto intro: membership_changes [THEN membership_change_keeps(2)] membership_changes [THEN membership_change_keeps(5)]
        serving_mutations reg.keeps_order inval.keeps_order tomb.keeps_order
        addloc.keeps_order [where a = "(_, _)", simplified] remloc.keeps_order [where a = "(_, _)", simplified])+

lemma step_keeps:
  assumes "engine_step e e'" and "engine_inv e"
  shows "engine_inv e'" and "never_regresses e e'" and "floors_kept e e'"
proof -
  show "never_regresses e e'" by (rule step_serving(2) [OF assms(1) engine_inv_serving [OF assms(2)]])
  show "engine_inv e'" and "floors_kept e e'"
    using assms
    by (cases rule: engine_step.cases;
        auto intro: membership_changes [THEN membership_change_keeps(1)]
          membership_changes [THEN membership_change_keeps(3)]
          reg.keeps_inv reg.keeps_floors inval.keeps_inv inval.keeps_floors tomb.keeps_inv tomb.keeps_floors
          addloc.keeps_inv [where a = "(_, _)", simplified] addloc.keeps_floors [where a = "(_, _)", simplified]
          remloc.keeps_inv [where a = "(_, _)", simplified] remloc.keeps_floors [where a = "(_, _)", simplified])+
qed

lemma reachable_inv: "engine_reachable e \<Longrightarrow> engine_inv e"
  by (induction rule: engine_reachable.induct) (auto intro: engine_inv_new step_keeps)

section \<open>A tombstoned generation stays out\<close>

text \<open>The floor \<open>f\<close> keeps out every generation up to it but those of \<open>X\<close>, which were let stay.\<close>

definition fenced_above :: "StateGeneration set \<Rightarrow> StateGeneration \<Rightarrow> StateId \<Rightarrow> StateIndexEngine \<Rightarrow> bool" where
  "fenced_above X f st e \<longleftrightarrow> below_floor (eng_authority e) st f \<and>
     (\<forall>g. current_gen e st = Some g \<longrightarrow> f < g \<or> g \<in> X)"

lemma fenced_above_same_gen:
  assumes "fenced_above X f st e" and "floors_kept e e'"
    and "current_gen e' st = None \<or> current_gen e' st = current_gen e st"
  shows "fenced_above X f st e'"
  using assms by (auto simp: fenced_above_def floors_kept_def)

lemma fenced_above_register:
  assumes inv: "engine_inv e" and f: "fenced_above X f st e"
  shows "fenced_above X f st (snd (register_state rec env e))"
proof (cases "may_register rec env e")
  case False
  have "same_but_accounting e (snd (register_state rec env e))"
    using register_state_rejected [OF False] by auto
  with f reg.keeps_floors [OF inv] show ?thesis
    by (intro fenced_above_same_gen [OF f]) (auto simp: current_gen_accounting)
next
  case True
  note srv = engine_inv_service [OF inv]
  have new: "get_record e (rec_record_id (stamp env rec)) = None" using True by (simp add: may_register_def)
  have cg: "current_gen (snd (register_state rec env e)) st = current_gen (publish (stamp env rec) e) st"
    using register_state_accepted [OF srv True]
    by (simp add: current_gen_accounting [OF same_but_accounting_count_record])
  have "f < rec_state_generation rec" if "st = rec_state_id rec"
  proof -
    obtain f' where f': "tombstone_floor (eng_authority e) st = Some f'" "f \<le> f'"
      using f by (auto simp: fenced_above_def below_floor_def)
    with may_register_above_floor(1) [OF True] that show ?thesis
      by (auto simp: below_floor_def not_le)
  qed
  then have "\<forall>g. current_gen (publish (stamp env rec) e) st = Some g \<longrightarrow> f < g \<or> g \<in> X"
    using f by (auto simp: current_gen_publish [OF srv new] fenced_above_def max_def split: option.splits if_splits)
  with cg f reg.keeps_floors [OF inv] show ?thesis
    by (auto simp: fenced_above_def floors_kept_def)
qed

lemma fenced_above_step:
  assumes inv: "engine_inv e" and step: "engine_step e e'" and f: "fenced_above X f st e"
  shows "fenced_above X f st e'"
  using step
proof (cases rule: engine_step.cases)
  case step_register_state
  with fenced_above_register [OF inv f] show ?thesis by simp
next
  case (step_invalidate i env)
  have "current_gen e' st = None \<or> current_gen e' st = current_gen e st"
    using step_invalidate
    by (cases "may_invalidate i env e")
      (auto simp: current_gen_def find_state_invalidate [OF engine_inv_serving [OF inv]] invalidate_rejected option.map_comp o_def)
  with step_keeps(3) [OF step inv] show ?thesis by (blast intro: fenced_above_same_gen [OF f])
next
  case (step_tombstone t env)
  have "current_gen e' st = None \<or> current_gen e' st = current_gen e st"
    using step_tombstone
    by (cases "may_tombstone t env e")
      (auto simp: current_gen_def find_state_tombstone [OF engine_inv_service [OF inv]] tombstone_rejected option.map_comp o_def)
  with step_keeps(3) [OF step inv] show ?thesis by (blast intro: fenced_above_same_gen [OF f])
qed (use step_keeps(3) [OF step inv] in
    \<open>auto intro!: fenced_above_same_gen [OF f] simp: membership_changes [THEN membership_change_keeps(4)]
      current_gen_add_location [OF engine_inv_service [OF inv]] current_gen_remove_location [OF engine_inv_service [OF inv]]\<close>)

text \<open>A tombstone that is not \<open>current\<close> leaves the current record in place.\<close>

lemma fenced_above_tombstone:
  assumes inv: "engine_inv e" and ok: "may_tombstone t env e"
  shows "fenced_above {g. \<not> tomb_current t \<and> current_gen e (tomb_state_id t) = Some g}
    (tomb_floor_generation t) (tomb_state_id t) (snd (tombstone t env e))"
proof -
  let ?st = "tomb_state_id t" and ?f = "tomb_floor_generation t" and ?e' = "snd (tombstone t env e)"
  have "below_floor (eng_authority ?e') ?st ?f"
    by (auto simp: tombstone_accepted(2) [OF ok] drop_tombstoned_current_def below_floor_def split: option.split)
  moreover have "?f < g \<or> \<not> tomb_current t \<and> current_gen e ?st = Some g" if "current_gen ?e' ?st = Some g" for g
  proof -
    from that obtain r where r: "find_state e ?st = Some r" "\<not> covers t (rec_state_generation r)"
      "g = rec_state_generation r"
      by (auto simp: current_gen_def find_state_tombstone [OF engine_inv_service [OF inv] ok] split: if_splits)
    then have "is_set (rec_state_generation r)"
      using inv find_state_SomeD(5) unfolding engine_inv_def by blast
    with r show ?thesis by (auto simp: covers_def not_le current_gen_def)
  qed
  ultimately show ?thesis by (simp add: fenced_above_def)
qed

lemma fenced_above_steps:
  assumes "engine_step\<^sup>*\<^sup>* e e'" and "engine_inv e" and "fenced_above X f st e"
  shows "fenced_above X f st e' \<and> engine_inv e'"
  using assms by (induction rule: rtranclp_induct) (auto intro: fenced_above_step step_keeps)

section \<open>Publication is always possible\<close>

text \<open>A boot that has just joined can publish any new record above the tombstone floor and the
  current generation of its state, and the record it publishes becomes the current one.\<close>

lemma may_register_joined:
  assumes "engine_reachable e" and new: "get_record e (rec_record_id rec) = None"
    and set: "is_set (rec_state_generation rec)"
    and floor: "\<forall>t. um_find (eng_tombstones e) (rec_state_id rec) = Some t \<longrightarrow>
      tomb_floor_generation t < rec_state_generation rec"
    and cur: "\<forall>c. find_state e (rec_state_id rec) = Some c \<longrightarrow> rec_state_generation c < rec_state_generation rec"
    and env: "env_coordinator_epoch env = auth_epoch (eng_authority e)" "env_worker_boot env = b"
  shows "may_register rec env (register_worker w b e)"
proof -
  let ?e = "register_worker w b e"
  have core: "core_inv ?e"
    using reachable_inv [OF reach_step [OF assms(1) step_register_worker]] by (simp add: engine_inv_def)
  have same: "get_record ?e = get_record e" "find_state ?e = find_state e" "eng_tombstones ?e = eng_tombstones e"
    "is_tombstoned ?e = is_tombstoned e" "auth_epoch (eng_authority ?e) = auth_epoch (eng_authority e)"
    "is_live (eng_authority ?e) b"
    by (simp_all add: register_worker_def get_record_def find_state_def is_tombstoned_def fun_eq_iff cong: option.case_cong)
  have "\<not> below_floor (eng_authority ?e) (rec_state_id rec) (rec_state_generation rec)"
    using core floor by (auto simp: core_inv_def tombstone_inv_def below_floor_def same not_le)
  moreover have "\<not> fenced_by (eng_authority ?e) (rec_state_id rec) b (rec_state_generation rec)"
    using core cur by (auto simp: core_inv_def current_inv_def fenced_by_def same not_le)
  moreover have "\<not> is_tombstoned ?e (rec_state_id rec) (rec_state_generation rec)"
    using floor by (auto simp: is_tombstoned_def same(3) covers_def not_le split: option.split)
  ultimately show ?thesis using new set env same by (simp add: may_register_def accepted_iff)
qed

end
