(* ===== verification/EngineAudit.thy ===== *)
theory EngineAudit
  imports EngineSteps
begin

text \<open>
  What the consistency check of the engine can report in a reachable state, and the ledgers
  that stay exact: the sequence numbers of the invalidation log and the two counters that
  count its entries and the records.
\<close>

section \<open>The highest generation the check computes\<close>

lemma max_gen_fold:
  "case um_find (foldl (max_gen_step e) [] rs) st of
     None \<Rightarrow> \<forall>(rid, r)\<in>set rs. \<not> counted e st r
   | Some g \<Rightarrow> (\<exists>(rid, r)\<in>set rs. counted e st r \<and> rec_state_generation r = g) \<and>
       (\<forall>(rid, r)\<in>set rs. counted e st r \<longrightarrow> rec_state_generation r \<le> g)"
proof (induction rs rule: rev_induct)
  case Nil
  then show ?case by simp
next
  case (snoc x rs)
  obtain rid r where x: "x = (rid, r)" by (cases x)
  let ?m = "foldl (max_gen_step e) [] rs"
  show ?case
  proof (cases "counted e st r")
    case False
    then have "um_find (max_gen_step e ?m x) st = um_find ?m st"
      by (auto simp: x max_gen_step_def Let_def counted_def outstanding_def)
    with snoc False show ?thesis by (auto simp: x split: option.splits)
  next
    case True
    then have "um_find (max_gen_step e ?m x) st =
        (case um_find ?m st of None \<Rightarrow> Some (rec_state_generation r)
         | Some g \<Rightarrow> Some (max g (rec_state_generation r)))"
      by (auto simp: x max_gen_step_def Let_def counted_def outstanding_def max_def not_less split: option.splits)
    with snoc True show ?thesis
      by (cases "um_find ?m st") (fastforce simp: x max_def)+
  qed
qed

lemma max_gen_of_current:
  assumes inv: "serving e" and c: "find_state e st = Some c" and out: "outstanding c"
  shows "um_find (foldl (max_gen_step e) [] (eng_records e)) st = Some (rec_state_generation c)"
proof -
  note srv = servingD(1) [OF inv]
  have ok: "um_ok (eng_records e)" using srv by (simp add: service_inv_def queryable_def)
  have mem: "(rid, r) \<in> set (eng_records e) \<longleftrightarrow> get_record e rid = Some r" for rid r
    by (simp add: um_ok_mem [OF ok] get_record_def)
  have cc: "counted e st c" "(rec_record_id c, c) \<in> set (eng_records e)"
    using service_find [OF srv c] out by (simp_all add: counted_def mem)
  have le: "rec_state_generation r \<le> rec_state_generation c" if "(rid, r) \<in> set (eng_records e)" "counted e st r" for rid r
    using servingD(2) [OF inv] that c unfolding newest_inv_def counted_def mem by fastforce
  note fold = max_gen_fold [where e = e and rs = "eng_records e" and st = st]
  show ?thesis
  proof (cases "um_find (foldl (max_gen_step e) [] (eng_records e)) st")
    case None
    with fold have "\<forall>(rid, r)\<in>set (eng_records e). \<not> counted e st r" by simp
    with cc show ?thesis by blast
  next
    case (Some g)
    with fold have g: "\<exists>(rid, r)\<in>set (eng_records e). counted e st r \<and> rec_state_generation r = g"
      "\<forall>(rid, r)\<in>set (eng_records e). counted e st r \<longrightarrow> rec_state_generation r \<le> g" by simp_all
    from g(1) le have "g \<le> rec_state_generation c" by blast
    moreover from g(2) cc have "rec_state_generation c \<le> g" by blast
    ultimately show ?thesis using Some by simp
  qed
qed

section \<open>The consistency check of a reachable engine\<close>

definition current_sound :: "StateIndexEngine \<Rightarrow> StateRecord \<Rightarrow> bool" where
  "current_sound e r \<longleftrightarrow> outstanding r \<and> has_usable_location r \<and> dep_satisfied e r"

lemma check_currents_Nil:
  "distinct (List.map fst cs) \<Longrightarrow> (\<forall>st\<in>fst ` set cs. st \<notin> set seen) \<Longrightarrow>
   check_currents e seen cs = concat (List.map (\<lambda>(st, rid). check_current_entry e st rid) cs)"
  by (induction e seen cs rule: check_currents.induct) auto

lemma check_current_entry_Nil:
  assumes srv: "service_inv {} e" and "um_find (eng_current e) st = Some rid" and r: "find_state e st = Some r"
  shows "check_current_entry e st rid = [] \<longleftrightarrow> current_sound e r"
proof -
  from service_find [OF srv r] assms(2) have "get_record e rid = Some r" "rec_state_id r = st"
    "\<not> is_tombstoned e st (rec_state_generation r)" by simp_all
  then show ?thesis by (auto simp: check_current_entry_def current_sound_def outstanding_def)
qed

lemma canonical_set:
  assumes "queryable e"
  shows "r \<in> set (canonical_records e) \<longleftrightarrow> get_record e (rec_record_id r) = Some r"
proof -
  have "um_ok (eng_records e)" using assms by (simp add: queryable_def)
  then have "r \<in> set (canonical_records e) \<longleftrightarrow> (\<exists>rid. get_record e rid = Some r)"
    using um_values_set [of "eng_records e" r] by (simp add: canonical_records_def get_record_def)
  then show ?thesis using assms unfolding queryable_def by metis
qed

lemma index_verification_iff:
  assumes inv: "queryable e"
  shows "index_verification e = [] \<longleftrightarrow> (\<forall>r\<in>set (canonical_records e). idx_owned (eng_indexes e) r)"
proof -
  have idx: "index_inv e" using inv by (simp add: queryable_def)
  have "idx_sound (eng_indexes e) (rec_record_id ` set (canonical_records e))"
    unfolding idx_sound_def
  proof (intro allI subsetI)
    fix k rid assume "rid \<in> posted (eng_indexes e) k"
    moreover have "posted (eng_indexes e) k \<subseteq> {rid. get_record e rid \<noteq> None}"
      using idx by (simp add: index_inv_def)
    ultimately obtain r where "get_record e rid = Some r" by blast
    moreover from this inv have "rec_record_id r = rid" by (simp add: queryable_def)
    ultimately show "rid \<in> rec_record_id ` set (canonical_records e)"
      using canonical_set [OF inv, of r] by force
  qed
  moreover have "idx_complete (eng_indexes e) r" if "r \<in> set (canonical_records e)" for r
    using that idx canonical_set [OF inv, of r] by (auto simp: idx_complete_def index_inv_def ids_under_def)
  moreover have "idx_ok (eng_indexes e)" using idx by (simp add: index_inv_def)
  ultimately show ?thesis by (simp add: index_verification_def idx_verify_iff)
qed

lemma invariant_check_iff:
  assumes inv: "serving e"
  shows "invariant_check e = [] \<longleftrightarrow>
    (\<forall>st r. find_state e st = Some r \<longrightarrow> current_sound e r) \<and>
    (\<forall>r\<in>set (canonical_records e). idx_owned (eng_indexes e) r)"
proof -
  note srv = servingD(1) [OF inv]
  have ok: "um_ok (eng_current e)" "um_ok (eng_records e)"
    using srv by (simp_all add: service_inv_def queryable_def)
  have entry: "(st, rid) \<in> set (eng_current e) \<longleftrightarrow> um_find (eng_current e) st = Some rid" for st rid
    by (rule um_ok_mem [OF ok(1)])
  have found: "\<exists>r. find_state e st = Some r \<and> get_record e rid = Some r" if "um_find (eng_current e) st = Some rid" for st rid
    using service_current [OF srv that] by blast
  have "check_currents e [] (eng_current e) = [] \<longleftrightarrow>
      (\<forall>(st, rid)\<in>set (eng_current e). check_current_entry e st rid = [])"
    using ok(1) by (subst check_currents_Nil) (auto simp: um_ok_def)
  also have "\<dots> \<longleftrightarrow> (\<forall>st r. find_state e st = Some r \<longrightarrow> current_sound e r)"
  proof
    assume all: "\<forall>(st, rid)\<in>set (eng_current e). check_current_entry e st rid = []"
    show "\<forall>st r. find_state e st = Some r \<longrightarrow> current_sound e r"
    proof (intro allI impI)
      fix st r assume r: "find_state e st = Some r"
      then have cur: "um_find (eng_current e) st = Some (rec_record_id r)" by (rule service_find(3) [OF srv])
      with all entry check_current_entry_Nil [OF srv cur r] show "current_sound e r" by blast
    qed
  next
    assume "\<forall>st r. find_state e st = Some r \<longrightarrow> current_sound e r"
    with found check_current_entry_Nil [OF srv]
    show "\<forall>(st, rid)\<in>set (eng_current e). check_current_entry e st rid = []"
      unfolding entry case_prod_unfold by (metis entry prod.collapse)
  qed
  finally have currents: "check_currents e [] (eng_current e) = [] \<longleftrightarrow>
      (\<forall>st r. find_state e st = Some r \<longrightarrow> current_sound e r)" .
  have maxes: "concat (List.map (check_max_entry e (foldl (max_gen_step e) [] (eng_records e))) (eng_current e)) = []"
    if sound: "\<forall>st r. find_state e st = Some r \<longrightarrow> current_sound e r"
  proof -
    have "check_max_entry e (foldl (max_gen_step e) [] (eng_records e)) (st, rid) = []"
      if "(st, rid) \<in> set (eng_current e)" for st rid
    proof -
      from that entry found obtain r where r: "find_state e st = Some r" "get_record e rid = Some r" by blast
      with sound have "outstanding r" by (simp add: current_sound_def)
      with r max_gen_of_current [OF inv r(1)] show ?thesis by (simp add: check_max_entry_def)
    qed
    then show ?thesis by auto
  qed
  have "concat (List.map check_digest_entry (eng_records e)) = []"
  proof -
    have "digest_ok r" if "(rid, r) \<in> set (eng_records e)" for rid r
      using that srv um_ok_mem [OF ok(2)] by (auto simp: service_inv_def queryable_def get_record_def)
    then show ?thesis by (auto simp: check_digest_entry_def digest_ok_def)
  qed
  with currents maxes index_verification_iff [OF servingD(3) [OF inv]] show ?thesis
    by (auto simp: invariant_check_def)
qed

section \<open>Exact ledgers\<close>

lemma record_count:
  "um_ok m \<Longrightarrow> length m = card (dom (map_of m))"
  unfolding um_ok_def dom_map_of_conv_image_fst using distinct_card [of "List.map fst m"] by simp

definition ledger_inv :: "StateIndexEngine \<Rightarrow> bool" where
  "ledger_inv e \<longleftrightarrow>
     List.map inv_invalidation_seq (eng_invalidations e) = List.map of_nat [1..<Suc (length (eng_invalidations e))] \<and>
     eng_invalidation_seq e = of_nat (length (eng_invalidations e)) \<and>
     acc_invalidations (eng_accounting e) = of_nat (length (eng_invalidations e)) \<and>
     acc_logical_states (eng_accounting e) = of_nat (card (dom (get_record e)))"

definition same_ledger :: "StateIndexEngine \<Rightarrow> StateIndexEngine \<Rightarrow> bool" where
  "same_ledger e e' \<longleftrightarrow>
     eng_invalidations e' = eng_invalidations e \<and> eng_invalidation_seq e' = eng_invalidation_seq e \<and>
     acc_invalidations (eng_accounting e') = acc_invalidations (eng_accounting e) \<and>
     acc_logical_states (eng_accounting e') = acc_logical_states (eng_accounting e) \<and>
     dom (get_record e') = dom (get_record e)"

lemma same_ledger_keeps: "same_ledger e e' \<Longrightarrow> ledger_inv e \<Longrightarrow> ledger_inv e'"
  by (simp add: same_ledger_def ledger_inv_def)

lemma same_ledger_refl [simp]: "same_ledger e e"
  by (simp add: same_ledger_def)

lemma same_ledger_trans: "same_ledger e f \<Longrightarrow> same_ledger f g \<Longrightarrow> same_ledger e g"
  by (simp add: same_ledger_def)

lemma same_ledger_foldl: "(\<And>e x. same_ledger e (f e x)) \<Longrightarrow> same_ledger e (foldl f e xs)"
  by (induction xs arbitrary: e) (auto intro: same_ledger_trans)

lemma same_ledger_bump:
  assumes "\<And>a. acc_invalidations (c (\<lambda>n. n + 1) a) = acc_invalidations a"
    and "\<And>a. acc_logical_states (c (\<lambda>n. n + 1) a) = acc_logical_states a"
  shows "same_ledger e (bump c e)"
  using assms by (simp add: same_ledger_def bump_def get_record_def [abs_def])

lemma same_ledger_count_location: "same_ledger e (count_location e l)"
  by (simp add: count_location_def Let_def same_ledger_def bump_def get_record_def [abs_def])

lemma same_ledger_count_put: "same_ledger e (count_put_location l ls e)"
  unfolding count_put_location_def
  by (auto intro!: same_ledger_foldl same_ledger_bump same_ledger_trans [OF same_ledger_bump same_ledger_bump])

lemma count_record_ledger:
  "same_ledger (bump acc_logical_states_update e) (count_record rec e)"
  unfolding count_record_def Let_def
  by (intro same_ledger_trans [OF _ same_ledger_foldl [OF same_ledger_count_location]]
      same_ledger_trans [OF _ same_ledger_foldl] same_ledger_bump) simp_all

lemma dom_replace:
  "get_record e (rec_record_id u) \<noteq> None \<Longrightarrow> dom (get_record (replace_record u e)) = dom (get_record e)"
  by (auto simp: dom_def)

lemma ledger_register:
  assumes inv: "serving e" and led: "ledger_inv e"
  shows "ledger_inv (snd (register_state rec env e))"
proof (cases "may_register rec env e")
  case False
  from register_state_rejected [OF False] led show ?thesis
    by (auto intro!: same_ledger_keeps [OF same_ledger_bump])
next
  case True
  let ?r = "stamp env rec"
  note srv = servingD(1) [OF inv]
  have fin: "finite (dom (get_record e))" by (simp add: get_record_def [abs_def] finite_dom_map_of)
  have new: "get_record e (rec_record_id ?r) = None" using True by (simp add: may_register_def)
  have "dom (get_record (publish ?r e)) = insert (rec_record_id ?r) (dom (get_record e))"
  proof (cases "find_state e (rec_state_id ?r)")
    case None
    then show ?thesis by (auto simp: publish_def)
  next
    case (Some old)
    then have "get_record e (rec_record_id old) = Some old" by (rule service_find(1) [OF srv])
    with Some show ?thesis by (auto simp: publish_def split: if_splits)
  qed
  moreover have "eng_accounting (publish ?r e) = eng_accounting e"
    "eng_invalidations (publish ?r e) = eng_invalidations e"
    "eng_invalidation_seq (publish ?r e) = eng_invalidation_seq e"
    by (simp_all add: publish_def split: option.split)
  moreover have "rec_record_id ?r \<notin> dom (get_record e)" using new by auto
  ultimately have "ledger_inv (bump acc_logical_states_update (publish ?r e))"
    using led fin by (simp add: ledger_inv_def bump_def get_record_def [abs_def])
  from same_ledger_keeps [OF count_record_ledger this] register_state_accepted [OF srv True]
  show ?thesis by simp
qed

lemma same_ledger_relocate:
  assumes "service_inv X e" and "find_state e st = Some r" and "same_ledger e e'" and "eng_records e' = eng_records e"
  shows "same_ledger e (replace_record (with_locations ls r) e')"
proof -
  have "get_record e' (rec_record_id (with_locations ls r)) \<noteq> None"
    using service_find(1) [OF assms(1,2)] views_cong(1) [OF assms(4)] by simp
  from dom_replace [OF this] assms(3) show ?thesis by (simp add: same_ledger_def)
qed

lemma same_ledger_add_location:
  "service_inv X e \<Longrightarrow> same_ledger e (snd (add_location st loc env e))"
  by (auto simp: add_location_def Let_def split: option.splits
      intro!: same_ledger_relocate same_ledger_count_put same_but_accounting_fields same_but_accounting_count_put)

lemma same_ledger_remove_location:
  assumes "service_inv X e"
  shows "same_ledger e (snd (remove_location st p env e))"
proof -
  have acc: "acc_invalidations a = acc_invalidations (eng_accounting x) \<Longrightarrow>
      acc_logical_states a = acc_logical_states (eng_accounting x) \<Longrightarrow>
      same_ledger x (x\<lparr>eng_accounting := a\<rparr>)" for x a
    by (simp add: same_ledger_def get_record_def [abs_def])
  note move = same_ledger_trans [OF same_ledger_relocate [OF assms _ same_ledger_refl refl] acc]
  show ?thesis
    by (auto simp: remove_location_def Let_def intro!: move split: option.split)
qed

lemma ledger_invalidate:
  assumes inv: "serving e" and led: "ledger_inv e"
  shows "ledger_inv (snd (invalidate i env e))"
proof (cases "may_invalidate i env e")
  case False
  with led show ?thesis by (simp add: invalidate_rejected)
next
  case True
  let ?e1 = "log_invalidation i env e" and ?st = "inv_state_id i"
  let ?e2 = "snd (mark_invalidated ?st (inv_bound_generation i) ?e1)"
  have log: "eng_invalidations ?e1 = eng_invalidations e @ [stamp_invalidation (eng_invalidation_seq e + 1) env i]"
    "eng_invalidation_seq ?e1 = eng_invalidation_seq e + 1"
    "acc_invalidations (eng_accounting ?e1) = acc_invalidations (eng_accounting e) + 1"
    "acc_logical_states (eng_accounting ?e1) = acc_logical_states (eng_accounting e)"
    "inv_invalidation_seq (stamp_invalidation q env i) = q" for q
    by (simp_all add: log_invalidation_def bump_def stamp_invalidation_def)
  have led1: "ledger_inv ?e1"
    using led unfolding ledger_inv_def log log_invalidation_views
    by (simp add: log(5) add.commute)
  note m = mark_invalidated [OF service_log [OF servingD(1) [OF inv], of i env], where st = ?st and b = "inv_bound_generation i"]
  have "dom (get_record ?e2) = dom (get_record ?e1)" by (auto simp: m(3))
  with m(2) have same: "same_ledger ?e1 ?e2" by (simp add: same_ledger_def same_views_def)
  have "same_ledger ?e2 (clear_current ?st (touch_history ?st ?e2))"
    by (simp add: same_ledger_def) (simp add: get_record_def [abs_def])
  with same_ledger_keeps [OF same led1] invalidate_accepted(2) [OF inv True] show ?thesis
    by (auto intro: same_ledger_keeps)
qed

lemma ledger_tombstone:
  assumes inv: "serving e" and led: "ledger_inv e"
  shows "ledger_inv (snd (tombstone t env e))"
proof (cases "may_tombstone t env e")
  case False
  with led show ?thesis by (simp add: tombstone_rejected)
next
  case True
  let ?e1 = "mark_entombed (tomb_state_id t) (tomb_floor_generation t) e"
  note m = mark_entombed [OF servingD(1) [OF inv], where st = "tomb_state_id t" and f = "tomb_floor_generation t"]
  have "dom (get_record ?e1) = dom (get_record e)" by (auto simp: m(3))
  with m(2) have "same_ledger e ?e1" by (simp add: same_ledger_def same_views_def)
  moreover have "same_ledger x (raise_floor st t' x)" for x st t'
    by (simp add: same_ledger_def) (simp add: raise_floor_def touch_history_def bump_def)
  moreover have "same_ledger x (drop_tombstoned_current st x)" for x st
    by (auto simp: drop_tombstoned_current_def same_ledger_def split: option.split)
  ultimately have "same_ledger e (snd (tombstone t env e))"
    unfolding tombstone_accepted(2) [OF True] by (blast intro: same_ledger_trans)
  with led show ?thesis by (blast intro: same_ledger_keeps)
qed

lemma ledger_step:
  assumes "engine_step e e'" and inv: "serving e" and led: "ledger_inv e"
  shows "ledger_inv e'"
proof -
  have "same_ledger x (x\<lparr>eng_authority := a, eng_historical_mode := h\<rparr>)" for x a h
    by (simp add: same_ledger_def get_record_def [abs_def])
  then have "membership_change e e' \<Longrightarrow> same_ledger e e'" by (auto simp: membership_change_def)
  with assms(1) show ?thesis
    using led same_ledger_keeps [OF _ led] same_ledger_add_location [OF servingD(1) [OF inv]] same_ledger_remove_location [OF servingD(1) [OF inv]]
      ledger_register [OF inv led] ledger_invalidate [OF inv led] ledger_tombstone [OF inv led]
    by (cases rule: engine_step.cases) (auto simp: membership_changes)
qed

lemma ledger_new: "ledger_inv (new_engine epoch)"
  by (simp add: ledger_inv_def new_engine_def no_accounting_def get_record_def [abs_def])

lemma reachable_ledger: "engine_reachable e \<Longrightarrow> ledger_inv e"
  by (induction rule: engine_reachable.induct) (auto intro: ledger_new ledger_step engine_inv_serving reachable_inv)

lemma reachable_record_count:
  assumes "engine_reachable e"
  shows "acc_logical_states (eng_accounting e) = of_nat (length (eng_records e))"
proof -
  have "um_ok (eng_records e)"
    using reachable_inv [OF assms] by (simp add: engine_inv_def core_inv_def records_inv_def)
  from record_count [OF this] reachable_ledger [OF assms] show ?thesis
    by (simp add: ledger_inv_def get_record_def [abs_def])
qed

end
