(* ===== verification/Persistence.thy ===== *)
theory Persistence
  imports EngineAudit
begin

text \<open>
  \<^verbatim>\<open>StateIndexEngine::save\<close> and \<^verbatim>\<open>load\<close> of \<^verbatim>\<open>src/engine.cpp\<close>, on the bytes of the file: the
  payload, its magic, version, CRC-32 and SHA-256, the checks of the loader, the recovery of
  machine-local locations and the recomputation of the current records. Opening, writing and
  renaming the file are the operating system's. An exception leaves the engine as far as the
  loader got, so a loader returns both the outcome and the engine.
\<close>

section \<open>Saving\<close>

definition kPersistMagic :: u32 where
  "kPersistMagic = 0x53494944"

definition kPersistVersion :: u16 where
  "kPersistVersion = 1"

definition save_payload :: "StateIndexEngine \<Rightarrow> bytes" where
  "save_payload e =
     push_list StateRecord_serialize (canonical_records e)
     @ push_list InvalidationRecord_serialize (eng_invalidations e)
     @ push_list TombstoneRecord_serialize (um_values (eng_tombstones e))
     @ gen_serialize (auth_epoch (eng_authority e))
     @ push_u64 (eng_invalidation_seq e)
     @ Accounting_serialize (eng_accounting e)"

definition file_of_payload :: "bytes \<Rightarrow> bytes" where
  "file_of_payload p =
     push_u32 kPersistMagic @ push_u16 kPersistVersion @ push_u16 0 @ push_bytes p
     @ push_u32 (crc32 p) @ push_bytes (sha256 p)"

definition save_file :: "StateIndexEngine \<Rightarrow> bytes" where
  "save_file e = file_of_payload (save_payload e)"

section \<open>The checks on a file\<close>

definition file_header :: "unit parser" where
  "file_header =
     bindr read_u32 (\<lambda>magic.
     if magic \<noteq> kPersistMagic then throw ''persistence: bad magic''
     else bindr read_u16 (\<lambda>version.
     bindr read_u16 (\<lambda>reserved.
     if version \<noteq> kPersistVersion then throw ''persistence: unsupported version''
     else ret ())))"

definition file_tail :: "(u32 \<times> bytes) parser" where
  "file_tail = bindr read_u32 (\<lambda>crc. bindr (read_bytes 32) (\<lambda>sha. ret (crc, sha)))"

definition check_file :: "bytes \<Rightarrow> exn + bytes" where
  "check_file bs =
    (if length bs < 8 + 4 + 32 then Inl (runtime_error ''persistence: file too short'')
     else case file_header (reader bs) of Inl x \<Rightarrow> Inl x | Inr (_, hdr) \<Rightarrow>
       let start = rd_pos hdr in
       if start > length bs \<or> length bs - start < 4 + 32
       then Inl (runtime_error ''persistence: payload truncated'')
       else
         let len = length bs - start - 4 - 32;
             payload = take len (drop start bs)
         in case file_tail (reader (take (4 + 32) (drop (start + len) bs))) of
              Inl x \<Rightarrow> Inl x
            | Inr ((stored_crc, stored_sha), _) \<Rightarrow>
                if crc32 payload \<noteq> stored_crc then Inl (runtime_error ''persistence: CRC-32 mismatch'')
                else if sha256 payload \<noteq> stored_sha
                then Inl (runtime_error ''persistence: SHA-256 semantic digest mismatch'')
                else Inr payload)"

section \<open>Loading\<close>

text \<open>A step of the loader reads from the payload and updates the engine; the engine survives an
  exception.\<close>

type_synonym 'a loader =
  "ByteReader \<Rightarrow> StateIndexEngine \<Rightarrow> (exn + 'a \<times> ByteReader) \<times> StateIndexEngine"

definition reading :: "'a parser \<Rightarrow> 'a loader" where
  "reading p r e = (p r, e)"

definition updating :: "(StateIndexEngine \<Rightarrow> StateIndexEngine) \<Rightarrow> unit loader" where
  "updating f r e = (Inr ((), r), f e)"

definition failing :: "string \<Rightarrow> 'a loader" where
  "failing msg r e = (Inl (runtime_error msg), e)"

definition bindl :: "'a loader \<Rightarrow> ('a \<Rightarrow> 'b loader) \<Rightarrow> 'b loader" where
  "bindl p f r e = (case p r e of (Inl x, e') \<Rightarrow> (Inl x, e') | (Inr (a, r'), e') \<Rightarrow> f a r' e')"

definition load_reset :: "StateIndexEngine \<Rightarrow> StateIndexEngine" where
  "load_reset e = e\<lparr>eng_records := [], eng_current := [], eng_history := [], eng_invalidations := [],
     eng_tombstones := [], eng_invalidation_seq := 0, eng_accounting := no_accounting\<rparr>"

definition put_record :: "StateRecord \<Rightarrow> StateIndexEngine \<Rightarrow> StateIndexEngine" where
  "put_record rec e = e\<lparr>eng_records := um_put (rec_record_id rec) rec (eng_records e)\<rparr>"

definition verify_semantic_digest :: "StateRecord \<Rightarrow> unit loader" where
  "verify_semantic_digest rec =
     (if compute_semantic_digest rec \<noteq> rec_semantic_digest rec
      then failing (''persistence: semantic digest mismatch for record '' @ id_to_string (rec_record_id rec))
      else updating (\<lambda>e. e))"

fun load_records :: "nat \<Rightarrow> StateRecordId list \<Rightarrow> (StateId \<times> u64) list \<Rightarrow> unit loader" where
  "load_records 0 seen_ids seen_gens = updating (\<lambda>e. e)"
| "load_records (Suc n) seen_ids seen_gens =
     bindl (reading StateRecord_deserialize) (\<lambda>rec.
     if rec_record_id rec \<in> set seen_ids
     then failing (''persistence: duplicate record id '' @ id_to_string (rec_record_id rec))
     else if (rec_state_id rec, gen_value (rec_state_generation rec)) \<in> set seen_gens
     then failing (''persistence: duplicate or regressing generation for state ''
                   @ id_to_string (rec_state_id rec))
     else bindl (verify_semantic_digest rec) (\<lambda>_.
          bindl (updating (put_record rec)) (\<lambda>_.
          load_records n (rec_record_id rec # seen_ids)
            ((rec_state_id rec, gen_value (rec_state_generation rec)) # seen_gens))))"

definition rebuild_history :: "StateIndexEngine \<Rightarrow> StateIndexEngine" where
  "rebuild_history e = e\<lparr>eng_history :=
     foldl (\<lambda>h (rid, rec). um_put (rec_state_id rec)
              ((case um_find h (rec_state_id rec) of None \<Rightarrow> [] | Some ids \<Rightarrow> ids) @ [rid]) h)
       [] (eng_records e)\<rparr>"

fun load_invalidations :: "nat \<Rightarrow> unit loader" where
  "load_invalidations 0 = updating (\<lambda>e. e)"
| "load_invalidations (Suc n) =
     bindl (reading InvalidationRecord_deserialize) (\<lambda>i.
     bindl (updating (\<lambda>e. e\<lparr>eng_invalidations := eng_invalidations e @ [i]\<rparr>)) (\<lambda>_. load_invalidations n))"

fun load_tombstones :: "nat \<Rightarrow> unit loader" where
  "load_tombstones 0 = updating (\<lambda>e. e)"
| "load_tombstones (Suc n) =
     bindl (reading TombstoneRecord_deserialize) (\<lambda>t.
     bindl (updating (\<lambda>e. e\<lparr>eng_tombstones := um_put (tomb_state_id t) t (eng_tombstones e)\<rparr>))
       (\<lambda>_. load_tombstones n))"

definition machine_local :: "MemoryDomain \<Rightarrow> bool" where
  "machine_local d \<longleftrightarrow>
     d = MemoryDomain_HOST_MEMORY \<or> d = MemoryDomain_HOST_PINNED \<or> d = MemoryDomain_CUDA_DEVICE"

definition recover_location :: "StateLocation \<Rightarrow> StateLocation" where
  "recover_location l =
     (let l1 = (if machine_local (loc_domain l) \<and> loc_freshness l \<noteq> Freshness_REVALIDATION_REQUIRED
                then l\<lparr>loc_freshness := Freshness_REVALIDATION_REQUIRED\<rparr> else l)
      in if loc_process_handle l1 \<noteq> None
         then l1\<lparr>loc_process_handle := None, loc_process_scope := None\<rparr> else l1)"

text \<open>The flag \<^verbatim>\<open>changed\<close> of the loop.\<close>

definition location_changes :: "StateLocation \<Rightarrow> bool" where
  "location_changes l \<longleftrightarrow>
     machine_local (loc_domain l) \<and> loc_freshness l \<noteq> Freshness_REVALIDATION_REQUIRED \<or>
     loc_process_handle l \<noteq> None"

definition recover_record :: "StateRecord \<Rightarrow> StateRecord" where
  "recover_record r =
     (let r1 = r\<lparr>rec_locations := List.map recover_location (rec_locations r)\<rparr>
      in if list_ex location_changes (rec_locations r) then redigest r1 else r1)"

definition load_finish :: "StateIndexEngine \<Rightarrow> StateIndexEngine" where
  "load_finish e =
     (let e1 = e\<lparr>eng_indexes := idx_rebuild (canonical_records e)\<rparr>;
          e2 = e1\<lparr>eng_records := List.map (\<lambda>(rid, rec). (rid, recover_record rec)) (eng_records e1)\<rparr>
      in recompute_current e2)"

definition load_payload :: "unit loader" where
  "load_payload =
     bindl (updating load_reset) (\<lambda>_.
     bindl (reading read_u64) (\<lambda>nrec.
     if nrec > kMaxRecordCount then failing ''persistence: record count exceeds bound''
     else bindl (load_records (unat nrec) [] []) (\<lambda>_.
     bindl (updating rebuild_history) (\<lambda>_.
     bindl (reading read_u64) (\<lambda>ninv.
     if ninv > kMaxRecordCount then failing ''persistence: invalidation count exceeds bound''
     else bindl (load_invalidations (unat ninv)) (\<lambda>_.
     bindl (reading read_u64) (\<lambda>ntom.
     if ntom > kMaxRecordCount then failing ''persistence: tombstone count exceeds bound''
     else bindl (load_tombstones (unat ntom)) (\<lambda>_.
     bindl (updating (\<lambda>e. e\<lparr>eng_authority := clear_live_workers (eng_authority e)\<rparr>)) (\<lambda>_.
     bindl (reading gen_deserialize) (\<lambda>epoch.
     bindl (updating (\<lambda>e. e\<lparr>eng_authority := auth_set_epoch epoch (eng_authority e)\<rparr>)) (\<lambda>_.
     bindl (reading read_u64) (\<lambda>seq.
     bindl (updating (\<lambda>e. e\<lparr>eng_invalidation_seq := seq\<rparr>)) (\<lambda>_.
     bindl (reading Accounting_deserialize) (\<lambda>acc.
     bindl (updating (\<lambda>e. e\<lparr>eng_accounting := acc\<rparr>)) (\<lambda>_.
     updating load_finish)))))))))))))))"

definition load_file :: "bytes \<Rightarrow> StateIndexEngine \<Rightarrow> exn option \<times> StateIndexEngine" where
  "load_file bs e =
     (case check_file bs of
        Inl x \<Rightarrow> (Some x, e)
      | Inr payload \<Rightarrow>
          (case load_payload (reader payload) e of
             (Inl x, e') \<Rightarrow> (Some x, e')
           | (Inr _, e') \<Rightarrow> (None, e')))"

section \<open>A file that was written is accepted; a damaged payload is not\<close>

text \<open>The layout of a file with arbitrary header and trailer fields; every file of 44 bytes or
  more has it.\<close>

definition file_layout :: "u32 \<Rightarrow> u16 \<Rightarrow> u16 \<Rightarrow> bytes \<Rightarrow> u32 \<Rightarrow> bytes \<Rightarrow> bytes" where
  "file_layout m v z p crc sha = push_u32 m @ push_u16 v @ push_u16 z @ p @ push_u32 crc @ sha"

lemma length_file_layout [simp]: "length (file_layout m v z p crc sha) = 12 + length p + length sha"
  by (simp add: file_layout_def)

lemma file_layout_exists:
  assumes "44 \<le> length bs"
  shows "\<exists>m v z p crc sha. length sha = 32 \<and> bs = file_layout m v z p crc sha"
proof -
  let ?n = "length bs - 36"
  obtain m where m: "take 4 bs = push_u32 m" using u32_bytes [of "take 4 bs"] assms by auto
  obtain v where v: "take 2 (drop 4 bs) = push_u16 v" using u16_bytes [of "take 2 (drop 4 bs)"] assms by auto
  obtain z where z: "take 2 (drop 6 bs) = push_u16 z" using u16_bytes [of "take 2 (drop 6 bs)"] assms by auto
  obtain c where c: "take 4 (drop ?n bs) = push_u32 c" using u32_bytes [of "take 4 (drop ?n bs)"] assms by auto
  have "bs = take 4 bs @ take 2 (drop 4 bs) @ take 2 (drop 6 bs) @ drop 8 bs"
    using append_take_drop_id [of 4 bs] append_take_drop_id [of 2 "drop 4 bs"] append_take_drop_id [of 2 "drop 6 bs"]
    by simp
  moreover have "drop 8 bs = take (length bs - 44) (drop 8 bs) @ take 4 (drop ?n bs) @ drop (?n + 4) bs"
    using append_take_drop_id [of "length bs - 44" "drop 8 bs"] append_take_drop_id [of 4 "drop ?n bs"] assms
    by (simp add: add.commute)
  ultimately have "bs = file_layout m v z (take (length bs - 44) (drop 8 bs)) c (drop (?n + 4) bs)"
    by (simp add: file_layout_def m v z c)
  with assms show ?thesis by (intro exI conjI) (simp_all del: length_file_layout)
qed

lemma file_header_layout:
  "file_header (reader (file_layout m v z p crc sha)) =
     (if m \<noteq> kPersistMagic then Inl (runtime_error ''persistence: bad magic'')
      else if v \<noteq> kPersistVersion then Inl (runtime_error ''persistence: unsupported version'')
      else Inr ((), \<lparr>rd_span = file_layout m v z p crc sha, rd_pos = 8\<rparr>))"
proof -
  have m: "bindr read_u32 f (reader (file_layout m v z p crc sha)) = f m \<lparr>rd_span = file_layout m v z p crc sha, rd_pos = 4\<rparr>" 
    for f :: "u32 \<Rightarrow> unit parser" and m v z
    by (subst bindr_decodes [OF decodes_u32 [of m], where pre = "[]"]) (simp_all add: reader_def file_layout_def)
  have v: "bindr read_u16 f \<lparr>rd_span = file_layout m v z p crc sha, rd_pos = 4\<rparr> = f v \<lparr>rd_span = file_layout m v z p crc sha, rd_pos = 6\<rparr>" 
    for f :: "u16 \<Rightarrow> unit parser" and m v z
    by (subst bindr_decodes [OF decodes_u16 [of v], where pre = "push_u32 m"]) (simp_all add: file_layout_def)
  have z: "bindr read_u16 f \<lparr>rd_span = file_layout m v z p crc sha, rd_pos = 6\<rparr> = f z \<lparr>rd_span = file_layout m v z p crc sha, rd_pos = 8\<rparr>" 
    for f :: "u16 \<Rightarrow> unit parser" and m v z
    by (subst bindr_decodes [OF decodes_u16 [of z], where pre = "push_u32 m @ push_u16 v"]) (simp_all add: file_layout_def)
  show ?thesis unfolding file_header_def by (simp add: m v z throw_def ret_def)
qed

lemma file_tail_decodes:
  assumes "length sha = 32"
  shows "decodes file_tail (push_u32 crc @ sha) (crc, sha)"
  unfolding file_tail_def
  by (rule decodes_bind [OF decodes_u32], rule decodes_bind_last [OF _ decodes_ret])
    (use decodes_bytes [OF assms] in \<open>simp_all add: push_bytes_def\<close>)

lemma check_file_layout:
  assumes sha: "length sha = 32"
  shows "check_file (file_layout m v z p crc sha) =
    (if m \<noteq> kPersistMagic then Inl (runtime_error ''persistence: bad magic'')
     else if v \<noteq> kPersistVersion then Inl (runtime_error ''persistence: unsupported version'')
     else if crc32 p \<noteq> crc then Inl (runtime_error ''persistence: CRC-32 mismatch'')
     else if sha256 p \<noteq> sha then Inl (runtime_error ''persistence: SHA-256 semantic digest mismatch'')
     else Inr p)"
proof -
  have t: "file_tail (reader (push_u32 crc @ sha)) =
      Inr ((crc, sha), \<lparr>rd_span = push_u32 crc @ sha, rd_pos = length (push_u32 crc @ sha)\<rparr>)"
    using decodes_prefix [OF file_tail_decodes [OF sha], where rest = "[]"] by simp
  have d: "drop 8 (file_layout m v z p crc sha) = p @ push_u32 crc @ sha"
    "drop (8 + length p) (file_layout m v z p crc sha) = push_u32 crc @ sha" for m v z
    by (simp_all add: file_layout_def)
  show ?thesis
    unfolding check_file_def file_header_layout
    using sha t by (simp add: d Let_def)
qed

lemma file_of_payload_layout:
  "file_of_payload p = file_layout kPersistMagic kPersistVersion 0 p (crc32 p) (sha256 p)"
  by (simp add: file_of_payload_def file_layout_def push_bytes_def)

lemma check_file_written: "check_file (file_of_payload p) = Inr p"
  by (simp add: file_of_payload_layout check_file_layout length_sha256)

text \<open>The files the checks of \<^verbatim>\<open>load\<close> let through: only the two reserved bytes are free.\<close>

lemma check_file_iff:
  "check_file bs = Inr p \<longleftrightarrow>
     (\<exists>z. bs = file_layout kPersistMagic kPersistVersion z p (crc32 p) (sha256 p))"
proof
  assume ok: "check_file bs = Inr p"
  then have "44 \<le> length bs" by (auto simp: check_file_def not_less split: if_splits)
  then obtain m v z q c sha where bs: "length sha = 32" "bs = file_layout m v z q c sha"
    using file_layout_exists by blast
  with ok show "\<exists>z. bs = file_layout kPersistMagic kPersistVersion z p (crc32 p) (sha256 p)"
    by (auto simp: check_file_layout split: if_splits)
qed (auto simp: check_file_layout length_sha256)

lemma check_file_damaged:
  assumes i: "i < length p" and b: "b \<noteq> p ! i"
  shows "check_file ((file_of_payload p)[8 + i := b]) = Inl (runtime_error ''persistence: CRC-32 mismatch'')"
proof -
  have "(file_of_payload p)[8 + i := b] = file_layout kPersistMagic kPersistVersion 0 (p[i := b]) (crc32 p) (sha256 p)"
    using i by (simp add: file_of_payload_layout file_layout_def list_update_append)
  with crc32_update [OF i b] show ?thesis by (simp add: check_file_layout length_sha256)
qed

section \<open>Recovery of a record\<close>

lemma recover_location_same: "\<not> location_changes l \<Longrightarrow> recover_location l = l"
  by (auto simp: location_changes_def recover_location_def Let_def)

lemma recover_location_settles: "\<not> location_changes (recover_location l)"
  by (auto simp: location_changes_def recover_location_def Let_def)

lemma recover_record_settles: "\<not> list_ex location_changes (rec_locations (recover_record r))"
  by (auto simp: recover_record_def Let_def recover_location_settles list_ex_iff)

lemma recover_record_same:
  assumes "\<not> list_ex location_changes (rec_locations r)"
  shows "recover_record r = r"
proof -
  have "List.map recover_location (rec_locations r) = rec_locations r"
    using assms by (intro map_idI) (auto simp: list_ex_iff recover_location_same)
  with assms show ?thesis by (simp add: recover_record_def)
qed

lemma recover_record_twice: "recover_record (recover_record r) = recover_record r"
  by (rule recover_record_same) (rule recover_record_settles)

lemma recover_record_simps [simp]:
  "rec_record_id (recover_record r) = rec_record_id r"
  "rec_state_id (recover_record r) = rec_state_id r"
  "rec_state_generation (recover_record r) = rec_state_generation r"
  "rec_lifecycle (recover_record r) = rec_lifecycle r"
  by (simp_all add: recover_record_def Let_def)

lemma digest_ok_recover: "digest_ok r \<Longrightarrow> digest_ok (recover_record r)"
  by (cases "list_ex location_changes (rec_locations r)")
    (simp_all add: recover_record_same, simp add: recover_record_def Let_def)

text \<open>No recovered location of volatile memory claims to be fresh, and none keeps a handle of the
  old process.\<close>

lemma recover_record_locations:
  assumes "l \<in> set (rec_locations (recover_record r))"
  shows "machine_local (loc_domain l) \<longrightarrow> loc_freshness l = Freshness_REVALIDATION_REQUIRED"
    and "loc_process_handle l = None"
  using recover_record_settles [of r] assms by (auto simp: list_ex_iff location_changes_def)

section \<open>Recomputing the current records\<close>

lemma recompute_fold_fst: "fst (foldl (recompute_step e) mc rs) = foldl (max_gen_step e) (fst mc) rs"
  by (induction rs arbitrary: mc) (simp_all add: recompute_step_def max_gen_step_def Let_def)

lemma recompute_fold_snd:
  assumes "\<And>rid r. (rid, r) \<in> set rs \<Longrightarrow> rec_record_id r = rid"
  shows "case um_find (snd (foldl (recompute_step e) ([], []) rs)) st of
     None \<Rightarrow> um_find (foldl (max_gen_step e) [] rs) st = None
   | Some rid \<Rightarrow> \<exists>r. (rid, r) \<in> set rs \<and> counted e st r \<and>
       um_find (foldl (max_gen_step e) [] rs) st = Some (rec_state_generation r)"
  using assms
proof (induction rs rule: rev_induct)
  case Nil
  then show ?case by simp
next
  case (snoc x rs)
  obtain rid r where x: "x = (rid, r)" by (cases x)
  with snoc.prems have id: "rec_record_id r = rid" by simp
  let ?mc = "foldl (recompute_step e) ([], []) rs" and ?m = "foldl (max_gen_step e) [] rs"
  have fst: "fst ?mc = ?m" using recompute_fold_fst [of e "([], [])" rs] by simp
  have IH: "case um_find (snd ?mc) st of None \<Rightarrow> um_find ?m st = None
   | Some rid \<Rightarrow> \<exists>r. (rid, r) \<in> set rs \<and> counted e st r \<and> um_find ?m st = Some (rec_state_generation r)"
    by (rule snoc.IH) (use snoc.prems in auto)
  show ?case
  proof (cases "counted e st r \<and> (case um_find ?m st of None \<Rightarrow> True | Some g \<Rightarrow> rec_state_generation r > g)")
    case True
    then have "um_find (snd (recompute_step e ?mc x)) st = Some rid"
      "um_find (max_gen_step e ?m x) st = Some (rec_state_generation r)"
      by (auto simp: x id recompute_step_def max_gen_step_def Let_def counted_def outstanding_def fst)
    with True x show ?thesis by auto
  next
    case False
    then have "um_find (snd (recompute_step e ?mc x)) st = um_find (snd ?mc) st"
      "um_find (max_gen_step e ?m x) st = um_find ?m st"
      by (auto simp: x recompute_step_def max_gen_step_def Let_def counted_def outstanding_def fst split: option.splits)
    with IH show ?thesis by (auto split: option.splits)
  qed
qed

lemma get_record_recompute:
  "get_record (recompute_current e) rid = map_option
     (\<lambda>r. r\<lparr>rec_is_historical := um_find (eng_current (recompute_current e)) (rec_state_id r) \<noteq> Some (rec_record_id r)\<rparr>)
     (get_record e rid)"
  unfolding get_record_def recompute_current_def Let_def
  by (simp add: map_of_map)

lemma recompute_current_spec:
  assumes "um_ok (eng_records e)" and "\<And>rid r. get_record e rid = Some r \<Longrightarrow> rec_record_id r = rid"
  shows "case find_state (recompute_current e) st of
      None \<Rightarrow> \<forall>rid r. get_record e rid = Some r \<longrightarrow> \<not> counted e st r
    | Some c \<Rightarrow> counted e st c \<and> \<not> rec_is_historical c \<and>
        (\<forall>rid r. get_record e rid = Some r \<and> counted e st r \<longrightarrow> rec_state_generation r \<le> rec_state_generation c)"
proof -
  have mem: "(rid, r) \<in> set (eng_records e) \<longleftrightarrow> get_record e rid = Some r" for rid r
    by (simp add: um_ok_mem [OF assms(1)] get_record_def)
  have keyed: "(rid, r) \<in> set (eng_records e) \<Longrightarrow> rec_record_id r = rid" for rid r
    using assms(2) mem by blast
  have cur: "eng_current (recompute_current e) = snd (foldl (recompute_step e) ([], []) (eng_records e))"
    by (simp add: recompute_current_def Let_def)
  note snd = recompute_fold_snd [where e = e and rs = "eng_records e" and st = st, OF keyed, folded cur]
  note max = max_gen_fold [where e = e and rs = "eng_records e" and st = st]
  show ?thesis
  proof (cases "um_find (eng_current (recompute_current e)) st")
    case None
    with snd max have "\<forall>(rid, r)\<in>set (eng_records e). \<not> counted e st r" by simp
    with None show ?thesis by (auto simp: find_state_def mem)
  next
    case (Some rid)
    with snd obtain r where r: "get_record e rid = Some r" "counted e st r"
      "um_find (foldl (max_gen_step e) [] (eng_records e)) st = Some (rec_state_generation r)"
      by (auto simp: mem)
    with max have le: "\<forall>(rid', r')\<in>set (eng_records e). counted e st r' \<longrightarrow> rec_state_generation r' \<le> rec_state_generation r"
      by simp
    have "rec_record_id r = rid" "rec_state_id r = st" using r assms(2) by (auto simp: counted_def)
    then have "find_state (recompute_current e) st = Some (r\<lparr>rec_is_historical := False\<rparr>)"
      using Some r(1) by (simp add: find_state_def get_record_recompute)
    with r le mem show ?thesis by (auto simp: counted_def outstanding_def)
  qed
qed

section \<open>Loading what was saved\<close>

definition loads :: "'a loader \<Rightarrow> bytes \<Rightarrow> 'a \<Rightarrow> StateIndexEngine \<Rightarrow> StateIndexEngine \<Rightarrow> bool" where
  "loads p bs x e e' \<longleftrightarrow>
     (\<forall>pre rest. p \<lparr>rd_span = pre @ bs @ rest, rd_pos = length pre\<rparr> e
        = (Inr (x, \<lparr>rd_span = pre @ bs @ rest, rd_pos = length pre + length bs\<rparr>), e'))"

lemma loads_reading: "decodes p bs x \<Longrightarrow> loads (reading p) bs x e e"
  by (simp add: loads_def reading_def decodesD)

lemma loads_updating: "loads (updating f) [] () e (f e)"
  by (simp add: loads_def updating_def)

lemma loads_updating_eq: "e' = f e \<Longrightarrow> loads (updating f) [] () e e'"
  by (simp add: loads_updating)

lemma loads_bind:
  assumes p: "loads p bs x e e1" and f: "loads (f x) cs y e1 e2"
  shows "loads (bindl p f) (bs @ cs) y e e2"
  unfolding loads_def
proof (intro allI)
  fix pre rest
  have "p \<lparr>rd_span = pre @ bs @ cs @ rest, rd_pos = length pre\<rparr> e
      = (Inr (x, \<lparr>rd_span = pre @ bs @ cs @ rest, rd_pos = length pre + length bs\<rparr>), e1)"
    using p by (simp add: loads_def)
  moreover have "f x \<lparr>rd_span = (pre @ bs) @ cs @ rest, rd_pos = length (pre @ bs)\<rparr> e1
      = (Inr (y, \<lparr>rd_span = (pre @ bs) @ cs @ rest, rd_pos = length (pre @ bs) + length cs\<rparr>), e2)"
    using f unfolding loads_def by blast
  ultimately show "bindl p f \<lparr>rd_span = pre @ (bs @ cs) @ rest, rd_pos = length pre\<rparr> e
      = (Inr (y, \<lparr>rd_span = pre @ (bs @ cs) @ rest, rd_pos = length pre + length (bs @ cs)\<rparr>), e2)"
    by (simp add: bindl_def add.assoc)
qed

lemma loads_update: "loads (f ()) cs y (g e) e2 \<Longrightarrow> loads (bindl (updating g) f) cs y e e2"
  using loads_bind [OF loads_updating] by fastforce

text \<open>The part of a record that is written out.\<close>

definition persisted_record :: "StateRecord \<Rightarrow> StateRecord" where
  "persisted_record r = r\<lparr>rec_locations := List.map persisted_location (rec_locations r), rec_is_historical := False\<rparr>"

lemma serialize_persisted_record [simp]:
  "StateRecord_serialize (persisted_record r) = StateRecord_serialize r"
  by (simp add: StateRecord_serialize_def persisted_record_def push_list_def o_def)

lemma persisted_record_simps [simp]:
  "rec_record_id (persisted_record r) = rec_record_id r"
  "rec_state_id (persisted_record r) = rec_state_id r"
  "rec_state_generation (persisted_record r) = rec_state_generation r"
  "rec_lifecycle (persisted_record r) = rec_lifecycle r"
  "rec_semantic_digest (persisted_record r) = rec_semantic_digest r"
  by (simp_all add: persisted_record_def)

lemma digest_persisted_record [simp]: "compute_semantic_digest (persisted_record r) = compute_semantic_digest r"
proof -
  have "(persisted_record r)\<lparr>rec_semantic_digest := []\<rparr> = persisted_record (r\<lparr>rec_semantic_digest := []\<rparr>)"
    by (simp add: persisted_record_def)
  then show ?thesis by (simp add: compute_semantic_digest_def canonical_without_digest_def)
qed

definition loadable :: "StateRecord \<Rightarrow> bool" where
  "loadable r \<longleftrightarrow> StateRecord_valid (persisted_record r) \<and> digest_ok r"

abbreviation gen_key :: "StateRecord \<Rightarrow> StateId \<times> u64" where
  "gen_key r \<equiv> (rec_state_id r, gen_value (rec_state_generation r))"

lemma loads_record:
  assumes "loadable r"
  shows "loads (reading StateRecord_deserialize) (StateRecord_serialize r) (persisted_record r) e e"
  using loads_reading [OF StateRecord.dec_enc [of "persisted_record r"]] assms by (simp add: loadable_def)

lemma loads_records:
  "\<forall>r\<in>set rs. loadable r \<Longrightarrow> distinct (List.map rec_record_id rs) \<Longrightarrow> distinct (List.map gen_key rs) \<Longrightarrow>
   rec_record_id ` set rs \<inter> set ids = {} \<Longrightarrow> gen_key ` set rs \<inter> set gens = {} \<Longrightarrow>
   loads (load_records (length rs) ids gens) (concat (List.map StateRecord_serialize rs)) () e
     (foldl (\<lambda>e r. put_record (persisted_record r) e) e rs)"
proof (induction rs arbitrary: ids gens e)
  case Nil
  then show ?case using loads_updating [of "\<lambda>e. e" e] by simp
next
  case (Cons r rs)
  let ?r = "persisted_record r"
  have "loads (load_records (length rs) (rec_record_id ?r # ids) (gen_key ?r # gens))
      (concat (List.map StateRecord_serialize rs)) () (put_record ?r e)
      (foldl (\<lambda>e r. put_record (persisted_record r) e) (put_record ?r e) rs)"
    by (rule Cons.IH) (use Cons.prems in auto)
  moreover have "compute_semantic_digest ?r = rec_semantic_digest ?r"
    using Cons.prems(1) by (simp add: loadable_def digest_ok_def)
  ultimately show ?case
    using Cons.prems
    by (auto simp: verify_semantic_digest_def intro!: loads_bind [OF loads_record] loads_update)
qed

lemma loads_invalidations:
  "\<forall>i\<in>set is. InvalidationRecord_valid i \<Longrightarrow>
   loads (load_invalidations (length is)) (concat (List.map InvalidationRecord_serialize is)) () e
     (e\<lparr>eng_invalidations := eng_invalidations e @ is\<rparr>)"
proof (induction "is" arbitrary: e)
  case Nil
  then show ?case using loads_updating [of "\<lambda>e. e" e] by simp
next
  case (Cons i "is")
  have "loads (load_invalidations (length is)) (concat (List.map InvalidationRecord_serialize is)) ()
      (e\<lparr>eng_invalidations := eng_invalidations e @ [i]\<rparr>) (e\<lparr>eng_invalidations := eng_invalidations e @ i # is\<rparr>)"
    using Cons.IH [of "e\<lparr>eng_invalidations := eng_invalidations e @ [i]\<rparr>"] Cons.prems by simp
  then show ?case
    using Cons.prems
    by (auto intro!: loads_bind [OF loads_reading [OF InvalidationRecord.dec_enc]] loads_update)
qed

lemma loads_tombstones:
  "\<forall>t\<in>set ts. TombstoneRecord_valid t \<Longrightarrow>
   loads (load_tombstones (length ts)) (concat (List.map TombstoneRecord_serialize ts)) () e
     (e\<lparr>eng_tombstones := foldl (\<lambda>m t. um_put (tomb_state_id t) t m) (eng_tombstones e) ts\<rparr>)"
proof (induction ts arbitrary: e)
  case Nil
  then show ?case using loads_updating [of "\<lambda>e. e" e] by simp
next
  case (Cons t ts)
  let ?e = "e\<lparr>eng_tombstones := um_put (tomb_state_id t) t (eng_tombstones e)\<rparr>"
  have "loads (load_tombstones (length ts)) (concat (List.map TombstoneRecord_serialize ts)) () ?e
      (e\<lparr>eng_tombstones := foldl (\<lambda>m t. um_put (tomb_state_id t) t m) (eng_tombstones e) (t # ts)\<rparr>)"
    using Cons.IH [of ?e] Cons.prems by simp
  then show ?case
    using Cons.prems
    by (auto intro!: loads_bind [OF loads_reading [OF TombstoneRecord.dec_enc]] loads_update)
qed

text \<open>What a save needs in order to be loadable.\<close>

definition saveable :: "StateIndexEngine \<Rightarrow> bool" where
  "saveable e \<longleftrightarrow>
     um_ok (eng_records e) \<and> (\<forall>rid r. get_record e rid = Some r \<longrightarrow> rec_record_id r = rid \<and> loadable r) \<and>
     length (eng_records e) \<le> unat kMaxRecordCount \<and> distinct (List.map gen_key (canonical_records e)) \<and>
     (\<forall>i\<in>set (eng_invalidations e). InvalidationRecord_valid i) \<and>
     length (eng_invalidations e) \<le> unat kMaxRecordCount \<and>
     um_ok (eng_tombstones e) \<and> (\<forall>st t. um_find (eng_tombstones e) st = Some t \<longrightarrow> tomb_state_id t = st) \<and>
     (\<forall>t\<in>set (um_values (eng_tombstones e)). TombstoneRecord_valid t) \<and>
     length (eng_tombstones e) \<le> unat kMaxRecordCount"

text \<open>The engine the loader has built when it reaches \<open>load_finish\<close>.\<close>

definition loaded_before_finish :: "StateIndexEngine \<Rightarrow> StateIndexEngine \<Rightarrow> StateIndexEngine" where
  "loaded_before_finish e e0 =
     (let e1 = rebuild_history (foldl (\<lambda>e r. put_record (persisted_record r) e) (load_reset e0) (canonical_records e))
      in e1\<lparr>eng_invalidations := eng_invalidations e,
            eng_tombstones := foldl (\<lambda>m t. um_put (tomb_state_id t) t m) [] (um_values (eng_tombstones e)),
            eng_authority := auth_set_epoch (auth_epoch (eng_authority e)) (clear_live_workers (eng_authority e0)),
            eng_invalidation_seq := eng_invalidation_seq e,
            eng_accounting := eng_accounting e\<rparr>)"

lemma count_bound:
  assumes "n \<le> unat kMaxRecordCount"
  shows "unat (of_nat n :: u64) = n" and "\<not> (of_nat n :: u64) > kMaxRecordCount"
proof -
  show u: "unat (of_nat n :: u64) = n"
    using assms unsigned_less [of kMaxRecordCount, where ?'a = nat] by (simp add: unat_of_nat)
  with assms show "\<not> (of_nat n :: u64) > kMaxRecordCount" by (simp add: word_less_nat_alt)
qed

lemma put_records_frame:
  "eng_invalidations (foldl (\<lambda>e r. put_record (f r) e) e rs) = eng_invalidations e"
  "eng_tombstones (foldl (\<lambda>e r. put_record (f r) e) e rs) = eng_tombstones e"
  "eng_authority (foldl (\<lambda>e r. put_record (f r) e) e rs) = eng_authority e"
  "eng_records (foldl (\<lambda>e r. put_record (f r) e) e rs) = foldl (\<lambda>m r. um_put (rec_record_id (f r)) (f r) m) (eng_records e) rs"
  by (induction rs arbitrary: e) (simp_all add: put_record_def)

lemma loads_payload:
  assumes "saveable e"
  shows "loads load_payload (save_payload e) () e0 (load_finish (loaded_before_finish e e0))"
proof -
  have ok: "um_ok (eng_records e)" and keyed: "\<And>rid r. get_record e rid = Some r \<Longrightarrow> rec_record_id r = rid"
    and good: "\<And>rid r. get_record e rid = Some r \<Longrightarrow> loadable r"
    using assms by (auto simp: saveable_def)
  have canon: "set (canonical_records e) = set (um_values (eng_records e))"
    "length (canonical_records e) = length (eng_records e)"
    by (simp_all add: canonical_records_def)
  have "\<forall>r\<in>set (canonical_records e). loadable r"
    using good um_ok_mem [OF ok] canon by (auto simp: get_record_def)
  moreover have "distinct (List.map rec_record_id (canonical_records e))"
  proof -
    have "List.map rec_record_id (um_values (eng_records e)) = List.map fst (eng_records e)"
      using keyed um_ok_mem [OF ok] by (auto simp: get_record_def)
    with ok have "distinct (List.map rec_record_id (um_values (eng_records e)))" by (simp only: um_ok_def)
    then show ?thesis unfolding canonical_records_def distinct_map by (simp add: distinct_map)
  qed
  ultimately have recs: "loads (load_records (length (canonical_records e)) [] [])
      (concat (List.map StateRecord_serialize (canonical_records e))) () (load_reset e0)
      (foldl (\<lambda>e r. put_record (persisted_record r) e) (load_reset e0) (canonical_records e))"
    using assms by (intro loads_records) (auto simp: saveable_def)
  note n = count_bound [of "length (canonical_records e)"] count_bound [of "length (eng_invalidations e)"]
    count_bound [of "length (eng_tombstones e)"]
  note inv = loads_invalidations [of "eng_invalidations e"] and tom = loads_tombstones [of "um_values (eng_tombstones e)"]
  let ?recs = "foldl (\<lambda>e r. put_record (persisted_record r) e) (load_reset e0) (canonical_records e)"
  have empty: "eng_invalidations (rebuild_history ?recs) = []" "eng_tombstones (rebuild_history ?recs) = []"
    "eng_authority (rebuild_history ?recs) = eng_authority e0"
    by (simp_all add: rebuild_history_def put_records_frame load_reset_def)
  show ?thesis
    unfolding load_payload_def save_payload_def push_list_def append_assoc
    apply (rule loads_update)
    apply (rule loads_bind [OF loads_reading [OF decodes_u64]])
    apply (use assms n canon in \<open>simp add: saveable_def\<close>)
    apply (rule loads_bind [OF recs [unfolded canon]])
    apply (rule loads_update)
    apply (rule loads_bind [OF loads_reading [OF decodes_u64]])
    apply (use assms n in \<open>simp add: saveable_def\<close>)
    apply (rule loads_bind [OF inv])
    apply (use assms in \<open>simp add: saveable_def\<close>)
    apply (rule loads_bind [OF loads_reading [OF decodes_u64]])
    apply (use assms n in \<open>simp add: saveable_def\<close>)
    apply (rule loads_bind [OF tom [simplified]])
    apply (use assms in \<open>simp add: saveable_def\<close>)
    apply (rule loads_update)
    apply (rule loads_bind [OF loads_reading [OF decodes_gen]])
    apply (rule loads_update)
    apply (rule loads_bind [OF loads_reading [OF decodes_u64]])
    apply (rule loads_update)
    apply (rule loads_bind [where cs = "[]", unfolded append_Nil2, OF loads_reading [OF accounting_codec.dec_enc]])
     apply (simp add: Accounting_valid_def)
    apply (rule loads_update)
    apply (rule loads_updating_eq)
    apply (simp add: loaded_before_finish_def Let_def empty)
    done
qed

lemma load_saved:
  assumes "saveable e"
  shows "load_file (save_file e) e0 = (None, load_finish (loaded_before_finish e e0))"
proof -
  have "load_payload (reader (save_payload e)) e0 =
      (Inr ((), \<lparr>rd_span = save_payload e, rd_pos = length (save_payload e)\<rparr>), load_finish (loaded_before_finish e e0))"
    using loads_payload [OF assms, of e0, unfolded loads_def, rule_format, of "[]" "[]"] by (simp add: reader_def)
  then show ?thesis by (simp add: load_file_def save_file_def check_file_written)
qed

section \<open>What comes back\<close>

definition recovered :: "StateRecord \<Rightarrow> StateRecord" where
  "recovered r = recover_record (persisted_record r)"

lemma recovered_simps [simp]:
  "rec_record_id (recovered r) = rec_record_id r"
  "rec_state_id (recovered r) = rec_state_id r"
  "rec_state_generation (recovered r) = rec_state_generation r"
  "rec_lifecycle (recovered r) = rec_lifecycle r"
  by (simp_all add: recovered_def)

text \<open>What recovery keeps of a record that was written out, field by field.\<close>

lemma recover_persisted_location:
  "recover_location (persisted_location l) = l\<lparr>loc_process_handle := None, loc_process_scope := None,
     loc_freshness := (if machine_local (loc_domain l) then Freshness_REVALIDATION_REQUIRED else loc_freshness l)\<rparr>"
  by (simp add: recover_location_def persisted_location_def Let_def)

lemma recovered_parts:
  shows "rec_locations (recovered r) = List.map (\<lambda>l. l\<lparr>loc_process_handle := None, loc_process_scope := None,
      loc_freshness := (if machine_local (loc_domain l) then Freshness_REVALIDATION_REQUIRED else loc_freshness l)\<rparr>)
      (rec_locations r)"
    and "(recovered r)\<lparr>rec_locations := ls, rec_semantic_digest := d, rec_is_historical := h\<rparr> =
      r\<lparr>rec_locations := ls, rec_semantic_digest := d, rec_is_historical := h\<rparr>"
  by (simp_all add: recovered_def recover_record_def persisted_record_def redigest_def Let_def
      recover_persisted_location)

lemma digest_ok_recovered:
  assumes "loadable r"
  shows "digest_ok (recovered r)"
proof -
  have "digest_ok (persisted_record r)"
    using assms by (simp add: loadable_def digest_ok_def)
  then show ?thesis unfolding recovered_def by (rule digest_ok_recover)
qed

lemma um_find_puts:
  "r \<in> set rs \<Longrightarrow> distinct (List.map k rs) \<Longrightarrow> um_find (foldl (\<lambda>m r. um_put (k r) (v r) m) m rs) (k r) = Some (v r)"
  "x \<notin> k ` set rs \<Longrightarrow> um_find (foldl (\<lambda>m r. um_put (k r) (v r) m) m rs) x = um_find m x"
  by (induction rs rule: rev_induct) (auto simp: image_iff)

lemma um_ok_puts: "um_ok m \<Longrightarrow> um_ok (foldl (\<lambda>m r. um_put (k r) (v r) m) m rs)"
  by (induction rs arbitrary: m) simp_all

text \<open>A map whose values carry their keys, written out and read back value by value.\<close>

lemma um_find_reload:
  assumes ok: "um_ok m" and keyed: "\<And>k v. um_find m k = Some v \<Longrightarrow> key v = k"
    and vs: "set vs = set (um_values m)" "distinct (List.map key vs)"
  shows "um_find (foldl (\<lambda>n v. um_put (key v) (f v) n) [] vs) k = map_option f (um_find m k)"
proof (cases "um_find m k")
  case None
  have "k \<notin> key ` set vs"
  proof
    assume "k \<in> key ` set vs"
    then obtain v where "v \<in> set (um_values m)" "k = key v" using vs(1) by auto
    then obtain k' where "um_find m k' = Some v" using um_values_set [OF ok] by blast
    with keyed \<open>k = key v\<close> None show False by auto
  qed
  with None show ?thesis by (simp add: um_find_puts(2))
next
  case (Some v)
  then have "v \<in> set vs" using um_values_set [OF ok] vs(1) by blast
  with um_find_puts(1) [OF this vs(2)] keyed [OF Some] Some show ?thesis by simp
qed

lemma distinct_keys_values:
  assumes "um_ok m" and "\<And>k v. um_find m k = Some v \<Longrightarrow> key v = k"
  shows "distinct (List.map key (um_values m))"
proof -
  have "List.map key (um_values m) = List.map fst m"
    using assms um_ok_mem [OF assms(1)] by auto
  with assms(1) show ?thesis by (simp only: um_ok_def)
qed

lemma distinct_canonical:
  assumes "um_ok (eng_records e)" and "\<And>rid r. get_record e rid = Some r \<Longrightarrow> rec_record_id r = rid"
  shows "distinct (List.map rec_record_id (canonical_records e))"
proof -
  have "distinct (List.map rec_record_id (um_values (eng_records e)))"
    by (rule distinct_keys_values) (use assms in \<open>simp_all add: get_record_def\<close>)
  then have "distinct (um_values (eng_records e)) \<and> inj_on rec_record_id (set (um_values (eng_records e)))"
    by (rule distinct_map [THEN iffD1])
  then show ?thesis
    unfolding canonical_records_def
    by (intro distinct_map [THEN iffD2]) (simp only: distinct_sort set_sort simp_thms)
qed

lemma loaded_fields:
  assumes sv: "saveable e"
  shows "um_ok (eng_records (loaded_before_finish e e0))"
    and "get_record (loaded_before_finish e e0) rid = map_option persisted_record (get_record e rid)"
    and "um_find (eng_tombstones (loaded_before_finish e e0)) st = um_find (eng_tombstones e) st"
proof -
  have recs: "eng_records (loaded_before_finish e e0) =
      foldl (\<lambda>m r. um_put (rec_record_id r) (persisted_record r) m) [] (canonical_records e)"
    by (simp add: loaded_before_finish_def Let_def rebuild_history_def put_records_frame load_reset_def)
  show "um_ok (eng_records (loaded_before_finish e e0))" unfolding recs by (rule um_ok_puts) simp
  have ok: "um_ok (eng_records e)" and keyed: "\<And>rid r. get_record e rid = Some r \<Longrightarrow> rec_record_id r = rid"
    using sv by (simp_all add: saveable_def)
  show "get_record (loaded_before_finish e e0) rid = map_option persisted_record (get_record e rid)"
    unfolding get_record_def recs
    by (rule um_find_reload [OF ok keyed _ distinct_canonical [OF ok keyed]])
      (simp_all add: get_record_def canonical_records_def)
  have tok: "um_ok (eng_tombstones e)"
    and tkey: "\<And>st t. um_find (eng_tombstones e) st = Some t \<Longrightarrow> tomb_state_id t = st"
    using sv by (simp_all add: saveable_def)
  have "um_find (foldl (\<lambda>m t. um_put (tomb_state_id t) t m) [] (um_values (eng_tombstones e))) st =
      map_option (\<lambda>t. t) (um_find (eng_tombstones e) st)"
    by (rule um_find_reload [OF tok tkey refl distinct_keys_values [OF tok tkey]])
  then show "um_find (eng_tombstones (loaded_before_finish e e0)) st = um_find (eng_tombstones e) st"
    by (simp add: loaded_before_finish_def Let_def option.map_ident)
qed

definition recover_all :: "StateIndexEngine \<Rightarrow> StateIndexEngine" where
  "recover_all e = e\<lparr>eng_indexes := idx_rebuild (canonical_records e),
     eng_records := List.map (\<lambda>(rid, rec). (rid, recover_record rec)) (eng_records e)\<rparr>"

lemma load_finish_eq: "load_finish e = recompute_current (recover_all e)"
  by (simp add: load_finish_def recover_all_def Let_def)

lemma get_record_recover_all: "get_record (recover_all e) rid = map_option recover_record (get_record e rid)"
  by (simp add: get_record_def recover_all_def map_of_map)

lemma recover_all_records:
  assumes "saveable e"
  shows "get_record (recover_all (loaded_before_finish e e0)) rid = map_option recovered (get_record e rid)"
  by (simp add: get_record_recover_all loaded_fields [OF assms] option.map_comp o_def recovered_def [abs_def])

lemma recover_all_ok:
  assumes "saveable e"
  shows "um_ok (eng_records (recover_all (loaded_before_finish e e0)))"
    and "get_record (recover_all (loaded_before_finish e e0)) rid = Some r \<Longrightarrow> rec_record_id r = rid"
    and "is_tombstoned (recover_all (loaded_before_finish e e0)) st g = is_tombstoned e st g"
proof -
  show "um_ok (eng_records (recover_all (loaded_before_finish e e0)))"
    using loaded_fields(1) [OF assms, of e0] by (simp add: um_ok_def recover_all_def case_prod_unfold o_def)
  show "get_record (recover_all (loaded_before_finish e e0)) rid = Some r \<Longrightarrow> rec_record_id r = rid"
    using assms by (auto simp: recover_all_records [OF assms] saveable_def)
  show "is_tombstoned (recover_all (loaded_before_finish e e0)) st g = is_tombstoned e st g"
    by (simp add: is_tombstoned_def recover_all_def loaded_fields(3) [OF assms])
qed

lemma get_record_loaded:
  fixes e e0
  assumes "saveable e"
  defines "e' \<equiv> load_finish (loaded_before_finish e e0)"
  shows "get_record e' rid = map_option
    (\<lambda>r. (recovered r)\<lparr>rec_is_historical := um_find (eng_current e') (rec_state_id r) \<noteq> Some (rec_record_id r)\<rparr>)
    (get_record e rid)"
  unfolding e'_def load_finish_eq
  by (subst get_record_recompute) (simp add: recover_all_records [OF assms(1)] option.map_comp o_def)

lemma record_after_load:
  fixes e e0
  assumes "saveable e"
  defines "e' \<equiv> load_finish (loaded_before_finish e e0)"
  shows "case get_record e rid of None \<Rightarrow> get_record e' rid = None
    | Some r \<Rightarrow> \<exists>r'. get_record e' rid = Some r' \<and> digest_ok r' \<and>
        r'\<lparr>rec_locations := rec_locations r, rec_semantic_digest := rec_semantic_digest r,
          rec_is_historical := rec_is_historical r\<rparr> = r \<and>
        rec_locations r' = List.map (\<lambda>l. l\<lparr>loc_process_handle := None, loc_process_scope := None,
          loc_freshness := (if machine_local (loc_domain l) then Freshness_REVALIDATION_REQUIRED else loc_freshness l)\<rparr>)
          (rec_locations r) \<and>
        (rec_is_historical r' \<longleftrightarrow> um_find (eng_current e') (rec_state_id r) \<noteq> Some rid)"
proof (cases "get_record e rid")
  case None
  then show ?thesis using get_record_loaded [OF assms(1), of e0 rid] by (simp add: e'_def)
next
  case (Some r)
  then have "rec_record_id r = rid" "loadable r" using assms(1) by (simp_all add: saveable_def)
  with Some show ?thesis
    using get_record_loaded [OF assms(1), of e0 rid] recovered_parts [where r = r] digest_ok_recovered [of r]
    by (simp add: e'_def)
qed

lemma loaded_rest:
  fixes e e0
  defines "e' \<equiv> load_finish (loaded_before_finish e e0)"
  shows "eng_invalidations e' = eng_invalidations e" and "eng_invalidation_seq e' = eng_invalidation_seq e"
    and "eng_accounting e' = eng_accounting e" and "auth_epoch (eng_authority e') = auth_epoch (eng_authority e)"
    and "\<not> is_live (eng_authority e') b"
    and "saveable e \<Longrightarrow> um_find (eng_tombstones e') st = um_find (eng_tombstones e) st"
proof -
  have frame: "eng_invalidations (load_finish x) = eng_invalidations x"
    "eng_invalidation_seq (load_finish x) = eng_invalidation_seq x" "eng_accounting (load_finish x) = eng_accounting x"
    "eng_authority (load_finish x) = eng_authority x" "eng_tombstones (load_finish x) = eng_tombstones x" for x
    by (simp_all add: load_finish_def recompute_current_def Let_def)
  show "eng_invalidations e' = eng_invalidations e" "eng_invalidation_seq e' = eng_invalidation_seq e"
    "eng_accounting e' = eng_accounting e" "auth_epoch (eng_authority e') = auth_epoch (eng_authority e)"
    "\<not> is_live (eng_authority e') b"
    by (simp_all add: e'_def frame loaded_before_finish_def Let_def auth_set_epoch_def is_live_def clear_live_workers_def)
  show "saveable e \<Longrightarrow> um_find (eng_tombstones e') st = um_find (eng_tombstones e) st"
    by (simp add: e'_def frame loaded_fields(3))
qed

text \<open>Recovery elects, for each state, its newest record that is neither retired nor tombstoned.\<close>

lemma find_state_loaded:
  assumes sv: "saveable e"
  shows "case find_state (load_finish (loaded_before_finish e e0)) st of
      None \<Rightarrow> \<forall>rid r. get_record e rid = Some r \<longrightarrow> \<not> counted e st r
    | Some c \<Rightarrow> \<exists>r. get_record e (rec_record_id c) = Some r \<and> c = recovered r \<lparr>rec_is_historical := False\<rparr> \<and>
        counted e st r \<and>
        (\<forall>rid' r'. get_record e rid' = Some r' \<and> counted e st r' \<longrightarrow> rec_state_generation r' \<le> rec_state_generation r)"
proof -
  let ?x = "recover_all (loaded_before_finish e e0)"
  have counted: "counted ?x st (recovered r) = counted e st r" for r
    by (simp add: counted_def outstanding_def recover_all_ok(3) [OF sv])
  note spec = recompute_current_spec [OF recover_all_ok(1) [OF sv, of e0] recover_all_ok(2) [OF sv, of e0], where st = st]
  note get = recover_all_records [OF sv, of e0]
  show ?thesis
  proof (cases "find_state (recompute_current ?x) st")
    case None
    with spec get counted show ?thesis by (auto simp: load_finish_eq)
  next
    case (Some c)
    with spec have c: "counted ?x st c" "\<not> rec_is_historical c" and
      le: "\<And>rid r. get_record ?x rid = Some r \<Longrightarrow> counted ?x st r \<Longrightarrow> rec_state_generation r \<le> rec_state_generation c"
      by auto
    obtain rid where rid: "um_find (eng_current (recompute_current ?x)) st = Some rid"
      "get_record (recompute_current ?x) rid = Some c"
      using Some by (auto simp: find_state_def split: option.splits)
    then obtain r where r: "get_record e rid = Some r"
      "c = recovered r \<lparr>rec_is_historical := rec_is_historical c\<rparr>"
      by (auto simp: get_record_recompute get)
    then have "c = recovered r \<lparr>rec_is_historical := False\<rparr>" using c(2) by simp
    moreover have "rec_record_id r = rid" using sv r(1) by (simp add: saveable_def)
    moreover from calculation have "counted ?x st c = counted e st r"
      using counted [of r] by (simp add: counted_def outstanding_def)
    moreover have "rec_state_generation r' \<le> rec_state_generation r"
      if "get_record e rid' = Some r'" "counted e st r'" for rid' r'
    proof -
      have "rec_state_generation (recovered r') \<le> rec_state_generation c"
        using le [of rid' "recovered r'"] that counted [of r'] get [of rid'] by simp
      moreover have "rec_state_generation c = rec_state_generation r" by (subst r(2)) simp
      ultimately show ?thesis by simp
    qed
    ultimately show ?thesis using Some r(1) c(1) by (auto simp: load_finish_eq)
  qed
qed

text \<open>A save and a load keep the current record of every state, where that record is not
  retired: nothing else of the state can have overtaken it.\<close>

lemma current_survives:
  assumes inv: "serving e" and sv: "saveable e"
    and live: "\<And>c. find_state e st = Some c \<Longrightarrow> outstanding c"
  shows "map_option rec_record_id (find_state (load_finish (loaded_before_finish e e0)) st) =
    map_option rec_record_id (find_state e st)"
proof -
  note spec = find_state_loaded [OF sv, where ?e0.0 = e0 and st = st]
  show ?thesis
  proof (cases "find_state e st")
    case None
    have "\<not> counted e st r" if "get_record e rid = Some r" for rid r
      using servingD(2) [OF inv] that None unfolding newest_inv_def counted_def by fastforce
    with spec None show ?thesis by (auto split: option.splits)
  next
    case (Some c)
    have c: "get_record e (rec_record_id c) = Some c" "counted e st c"
      using service_find [OF servingD(1) [OF inv] Some] live [OF Some] by (auto simp: counted_def)
    obtain c' r where c': "find_state (load_finish (loaded_before_finish e e0)) st = Some c'"
      "get_record e (rec_record_id c') = Some r" "counted e st r"
      "\<And>rid' r'. get_record e rid' = Some r' \<Longrightarrow> counted e st r' \<Longrightarrow> rec_state_generation r' \<le> rec_state_generation r"
      using spec c by (auto split: option.splits)
    have "rec_state_generation c \<le> rec_state_generation r" using c'(4) c by blast
    moreover have "rec_state_generation r \<le> rec_state_generation c"
      using servingD(2) [OF inv] c'(2,3) Some unfolding newest_inv_def counted_def by fastforce
    ultimately have same: "gen_key r = gen_key c" using c c'(3) by (simp add: counted_def)
    have r: "rec_record_id r = rec_record_id c'" using sv c'(2) by (simp add: saveable_def)
    have "r \<in> set (canonical_records e)" "c \<in> set (canonical_records e)"
      using canonical_set [OF servingD(3) [OF inv]] c'(2) c(1) r by simp_all
    moreover have "inj_on gen_key (set (canonical_records e))"
      using sv by (simp add: saveable_def distinct_map)
    ultimately have "r = c" using same by (blast dest: inj_onD)
    with r c'(1) Some show ?thesis by simp
  qed
qed

end
