(* ===== verification/Args.thy ===== *)
theory Args
  imports Strong
begin

text \<open>
  The parts of the C and C++ libraries with which the programs read text: C strings, \<^verbatim>\<open>std::strtoull\<close>
  in base 10, \<^verbatim>\<open>operator>>\<close> into a string (\<^verbatim>\<open>split\<close> of \<^verbatim>\<open>src/worker_main.cpp\<close>) and \<^verbatim>\<open>std::getline\<close>,
  in the C locale.
\<close>

text \<open>\<^verbatim>\<open>s.c_str()\<close> read as a C string, which ends at the first NUL.\<close>

definition c_str :: "string \<Rightarrow> string" where
  "c_str s = takeWhile (\<lambda>c. c \<noteq> CHR 0x00) s"

lemma c_str_plain: "CHR 0x00 \<notin> set s \<Longrightarrow> c_str s = s"
  unfolding c_str_def by (rule takeWhile_eq_all_conv [THEN iffD2]) auto

definition is_space :: "char \<Rightarrow> bool" where
  "is_space c \<longleftrightarrow> (let n = of_char c :: nat in n = 32 \<or> 9 \<le> n \<and> n \<le> 13)"

definition is_digit :: "char \<Rightarrow> bool" where
  "is_digit c \<longleftrightarrow> (let n = of_char c :: nat in 48 \<le> n \<and> n \<le> 57)"

text \<open>\<^verbatim>\<open>std::strtoull(s, nullptr, 10)\<close>: leading space, a sign, digits; a value that does not fit is
  \<^verbatim>\<open>ULLONG_MAX\<close>, a negative one is negated in the type of the result.\<close>

definition strtoull :: "string \<Rightarrow> u64" where
  "strtoull str =
     (let cs = dropWhile is_space (c_str str);
          (minus, ds) = (case cs of [] \<Rightarrow> (False, [])
            | c # r \<Rightarrow> if c = CHR ''-'' then (True, r) else if c = CHR ''+'' then (False, r) else (False, cs));
          n = undecimal 0 (takeWhile is_digit ds)
      in if 2 ^ 64 \<le> n then - 1 else if minus then - of_nat n else of_nat n)"

text \<open>\<^verbatim>\<open>while (ss >> tok) out.push_back(tok);\<close>\<close>

fun split_from :: "string \<Rightarrow> string \<Rightarrow> string list" where
  "split_from tok [] = (if tok = [] then [] else [tok])"
| "split_from tok (c # cs) =
     (if is_space c then (if tok = [] then split_from [] cs else tok # split_from [] cs)
      else split_from (tok @ [c]) cs)"

definition split :: "string \<Rightarrow> string list" where
  "split s = split_from [] s"

text \<open>\<^verbatim>\<open>while (std::getline(sf, line))\<close>: a line that ends the file without a newline counts if it is
  not empty.\<close>

fun getlines_from :: "string \<Rightarrow> string \<Rightarrow> string list" where
  "getlines_from line [] = (if line = [] then [] else [line])"
| "getlines_from line (c # cs) =
     (if of_char c = (10 :: nat) then line # getlines_from [] cs else getlines_from (line @ [c]) cs)"

definition getlines :: "string \<Rightarrow> string list" where
  "getlines text = getlines_from [] text"

section \<open>Numbers read back\<close>

lemma is_digit_char: "n < 10 \<Longrightarrow> is_digit (char_of (48 + n :: nat))"
  by (simp add: is_digit_def)

lemma digits_decimal: "list_all is_digit (decimal n)"
  by (induction n rule: decimal.induct) (subst decimal.simps, simp add: is_digit_char)

lemma decimal_Cons: "\<exists>c cs. decimal n = c # cs"
proof -
  have "decimal n \<noteq> []" by (subst decimal.simps) simp
  then show ?thesis by (cases "decimal n") auto
qed

lemma digit_plain: "is_digit c \<Longrightarrow> \<not> is_space c" "is_digit c \<Longrightarrow> c \<noteq> CHR ''-''" "is_digit c \<Longrightarrow> c \<noteq> CHR ''+''"
  "is_digit c \<Longrightarrow> c \<noteq> CHR 0x00"
  by (auto simp: is_digit_def is_space_def Let_def)

lemma strtoull_decimal: "strtoull (decimal (unat v)) = v"
proof -
  obtain c cs where d: "decimal (unat v) = c # cs" using decimal_Cons by blast
  have all: "is_digit c" "list_all is_digit cs" using digits_decimal [of "unat v"] by (simp_all add: d)
  have "CHR 0x00 \<notin> set (decimal (unat v))"
    using digits_decimal [of "unat v"] digit_plain(4) by (auto simp: list_all_iff)
  then have "c_str (decimal (unat v)) = decimal (unat v)" by (rule c_str_plain)
  moreover have "takeWhile is_digit (c # cs) = c # cs"
    using all by (simp add: takeWhile_eq_all_conv list_all_iff)
  moreover have "unat v < 2 ^ 64" using unsigned_less [of v] by simp
  moreover have "undecimal 0 (c # cs) = unat v" using undecimal_decimal [of "unat v"] by (simp only: d)
  moreover have "dropWhile is_space (c # cs) = c # cs" using digit_plain(1) all(1) by simp
  ultimately show ?thesis using digit_plain(2,3) [OF all(1)]
    by (simp only: strtoull_def d Let_def list.case prod.case if_False not_le [symmetric] simp_thms)
      (simp del: undecimal.simps takeWhile.simps)
qed

text \<open>What a stream splits into are its tokens.\<close>

lemma split_from_token:
  "list_all (\<lambda>c. \<not> is_space c) w \<Longrightarrow> split_from tok (w @ cs) = split_from (tok @ w) cs"
  by (induction w arbitrary: tok) auto

lemma split_words:
  assumes "w \<noteq> []" and "list_all (\<lambda>c. \<not> is_space c) w" and "is_space c"
  shows "split (w @ c # cs) = w # split cs" and "split w = [w]"
  using assms split_from_token [of w "[]" "c # cs"] split_from_token [of w "[]" "[]"] by (simp_all add: split_def)

lemma split_tokens: "t \<in> set (split_from tok s) \<Longrightarrow> list_all (\<lambda>c. \<not> is_space c) tok \<Longrightarrow>
    t \<noteq> [] \<and> list_all (\<lambda>c. \<not> is_space c) t"
  by (induction tok s rule: split_from.induct) (auto split: if_splits)

end
