(* ===== verification/Disk.thy ===== *)
theory Disk
  imports Persistence Args
begin

text \<open>
  The file half of \<^verbatim>\<open>StateIndexEngine::save\<close> and \<^verbatim>\<open>load\<close> (\<^verbatim>\<open>src/engine.cpp\<close>): the temporary file that
  replaces the target by a rename, and \<^verbatim>\<open>read_file\<close>. A disk is what the standard library's streams
  and \<^verbatim>\<open>std::rename\<close> see of one: the contents of its files, the paths at which files may be made and
  removed, and how much of a file it has room for.
\<close>

record Disk =
  disk_files :: "string \<Rightarrow> bytes option"
  disk_allows :: "string \<Rightarrow> bool"
  disk_room :: nat

text \<open>\<^verbatim>\<open>std::ofstream(path, trunc)\<close>: \<open>None\<close> where the stream does not open.\<close>

definition open_write :: "string \<Rightarrow> Disk \<Rightarrow> Disk option" where
  "open_write path d =
     (if disk_allows d path then Some (d\<lparr>disk_files := (disk_files d)(path \<mapsto> [])\<rparr>) else None)"

text \<open>\<^verbatim>\<open>f.write\<close>, \<^verbatim>\<open>f.flush\<close> and \<^verbatim>\<open>f.close\<close>: what does not fit is lost, and only the stream's state, which
  the code does not look at, would tell.\<close>

definition write_bytes :: "string \<Rightarrow> bytes \<Rightarrow> Disk \<Rightarrow> Disk" where
  "write_bytes path bs d = d\<lparr>disk_files := (disk_files d)(path \<mapsto> take (disk_room d) bs)\<rparr>"

definition rename_file :: "string \<Rightarrow> string \<Rightarrow> Disk \<Rightarrow> Disk option" where
  "rename_file source target d =
     (if disk_allows d source \<and> disk_allows d target then
        case disk_files d source of None \<Rightarrow> None
        | Some bs \<Rightarrow> Some (d\<lparr>disk_files := (disk_files d)(source := None, target \<mapsto> bs)\<rparr>)
      else None)"

definition remove_file :: "string \<Rightarrow> Disk \<Rightarrow> Disk" where
  "remove_file path d =
     (if disk_allows d path then d\<lparr>disk_files := (disk_files d)(path := None)\<rparr> else d)"

definition temp_path :: "string \<Rightarrow> string" where
  "temp_path path = path @ ''.tmp''"

text \<open>The operating system is given \<^verbatim>\<open>c_str()\<close>.\<close>

definition save_engine :: "string \<Rightarrow> StateIndexEngine \<Rightarrow> Disk \<Rightarrow> exn option \<times> Disk" where
  "save_engine path e d =
     (let tmp = temp_path path in
      case open_write (c_str tmp) d of
        None \<Rightarrow> (Some (runtime_error (''persistence: cannot write '' @ tmp)), d)
      | Some d1 \<Rightarrow>
          let d2 = write_bytes (c_str tmp) (save_file e) d1 in
          case rename_file (c_str tmp) (c_str path) d2 of
            Some d3 \<Rightarrow> (None, d3)
          | None \<Rightarrow>
              let d3 = remove_file (c_str path) d2 in
              case rename_file (c_str tmp) (c_str path) d3 of
                Some d4 \<Rightarrow> (None, d4)
              | None \<Rightarrow> (Some (runtime_error (''persistence: cannot rename temp to '' @ path)), d3))"

definition read_file :: "string \<Rightarrow> Disk \<Rightarrow> exn + bytes" where
  "read_file path d =
     (case disk_files d (c_str path) of
        None \<Rightarrow> Inl (runtime_error (''persistence: cannot open '' @ path))
      | Some bs \<Rightarrow> Inr bs)"

definition load_engine :: "string \<Rightarrow> Disk \<Rightarrow> StateIndexEngine \<Rightarrow> exn option \<times> StateIndexEngine" where
  "load_engine path d e =
     (case read_file path d of Inl x \<Rightarrow> (Some x, e) | Inr bs \<Rightarrow> load_file bs e)"

section \<open>What a save leaves on the disk\<close>

text \<open>A path without a NUL, in a directory that may be written.\<close>

definition writable :: "Disk \<Rightarrow> string \<Rightarrow> bool" where
  "writable d path \<longleftrightarrow> CHR 0x00 \<notin> set path \<and> disk_allows d path \<and> disk_allows d (temp_path path)"

lemma temp_path_neq [simp]: "temp_path path \<noteq> path" "path \<noteq> temp_path path"
  by (simp_all add: temp_path_def)

lemma c_str_temp: "CHR 0x00 \<notin> set s \<Longrightarrow> c_str (temp_path s) = temp_path s"
  by (rule c_str_plain) (simp add: temp_path_def)

lemmas disk_defs = save_engine_def open_write_def write_bytes_def rename_file_def remove_file_def Let_def

lemma save_writable:
  "writable d path \<Longrightarrow> save_engine path e d =
    (None, d\<lparr>disk_files := (disk_files d)(temp_path path := None, path \<mapsto> take (disk_room d) (save_file e))\<rparr>)"
  by (simp add: writable_def c_str_plain c_str_temp disk_defs fun_upd_twist)

text \<open>A path that may not be written keeps its file; the complete image stays under the temporary name.\<close>

lemma save_refused:
  assumes "CHR 0x00 \<notin> set path" and "\<not> disk_allows d path"
  shows "fst (save_engine path e d) \<noteq> None" and "disk_files (snd (save_engine path e d)) path = disk_files d path"
  using assms by (auto simp: c_str_plain c_str_temp disk_defs)

lemma save_frame:
  assumes "p \<noteq> c_str path" and "p \<noteq> c_str (temp_path path)"
  shows "disk_files (snd (save_engine path e d)) p = disk_files d p"
  using assms by (auto simp: disk_defs split: option.splits)

lemma save_keeps_disk [simp]:
  "disk_allows (snd (save_engine path e d)) = disk_allows d" "disk_room (snd (save_engine path e d)) = disk_room d"
  by (auto simp: disk_defs split: option.splits)

lemma load_after_save:
  assumes "writable d path" and "length (save_file e) \<le> disk_room d" and "saveable e"
  shows "fst (save_engine path e d) = None \<and>
    load_engine path (snd (save_engine path e d)) e0 = (None, load_finish (loaded_before_finish e e0))"
  using assms by (simp add: save_writable load_engine_def read_file_def load_saved) (simp add: writable_def c_str_plain load_saved)

text \<open>On a full disk the save reports success, and the image it put in place of the old one cannot be
  loaded.\<close>

lemma save_on_full_disk:
  assumes "writable d path" and "disk_room d < 44"
  shows "fst (save_engine path e d) = None \<and>
    load_engine path (snd (save_engine path e d)) e0 = (Some (runtime_error ''persistence: file too short''), e0)"
  using assms
  by (auto simp: save_writable load_engine_def read_file_def load_file_def check_file_def min_less_iff_disj
      writable_def c_str_plain)

lemma load_missing:
  "disk_files d (c_str path) = None \<Longrightarrow>
     load_engine path d e = (Some (runtime_error (''persistence: cannot open '' @ path)), e)"
  by (simp add: load_engine_def read_file_def)

end
