(* ===== verification/Coordinator.thy ===== *)
theory Coordinator
  imports Msgs Transport Disk
begin

text \<open>
  The coordinator process, \<^verbatim>\<open>src/coordinator_main.cpp\<close>: an engine, the disk it saves to and a loop
  that serves one connection at a time. \<open>dispatch\<close> is the switch over the kind of a frame,
  \<open>handle_frame\<close> adds the reply and the \<^verbatim>\<open>catch\<close>, \<open>serve\<close> is the loop over the frames of a connection
  (a \<open>partial_function\<close>, since a peer may never stop sending) and \<open>accept_loop\<close> the one over
  connections, whose result without an exit code is a process back at \<^verbatim>\<open>accept\<close>. The socket is a
  parameter, as in \<open>Transport\<close>.
\<close>

section \<open>The switch over the kind of a frame\<close>

text \<open>\<^verbatim>\<open>engine\<close> and the disk, and the locals of a connection: \<^verbatim>\<open>has_boot\<close> with \<^verbatim>\<open>conn_boot\<close>, and \<^verbatim>\<open>done\<close>.\<close>

record Coordinator =
  co_engine :: StateIndexEngine
  co_disk :: Disk
  co_boot :: "WorkerBootId option"
  co_done :: bool

type_synonym Reply = "MsgKind \<times> bytes"

text \<open>\<^verbatim>\<open>ex.what()\<close>, a C string.\<close>

primrec what :: "exn \<Rightarrow> string" where
  "what (runtime_error msg) = c_str msg"

definition error_reply :: "exn \<Rightarrow> Reply" where
  "error_reply x = (MsgKind_MUTATION_RESULT,
     pack_mutation_result MutationVerdict_REJECTED_NOT_LIVE (''coordinator error: '' @ what x))"

definition unsupported_reply :: Reply where
  "unsupported_reply = (MsgKind_MUTATION_RESULT,
     pack_mutation_result MutationVerdict_REJECTED_NOT_LIVE ''unsupported message kind'')"

definition verdict_reply :: "MutationVerdictDetail \<Rightarrow> Reply" where
  "verdict_reply v = (MsgKind_MUTATION_RESULT, pack_mutation_result (mvd_verdict v) (mvd_reason v))"

text \<open>The shape of the five mutations: unpack, run, report the verdict.\<close>

definition serve_mutation ::
  "(exn + 'a) \<Rightarrow> ('a \<Rightarrow> StateIndexEngine \<Rightarrow> MutationVerdictDetail \<times> StateIndexEngine) \<Rightarrow>
     Coordinator \<Rightarrow> (exn + Reply) \<times> Coordinator" where
  "serve_mutation req run c =
     (case req of Inl x \<Rightarrow> (Inl x, c)
      | Inr a \<Rightarrow> let (v, e) = run a (co_engine c) in (Inr (verdict_reply v), c\<lparr>co_engine := e\<rparr>))"

definition chosen_path :: "string \<Rightarrow> string \<Rightarrow> string" where
  "chosen_path persist path = (if path = [] then persist else path)"

definition serve_save :: "string \<Rightarrow> Coordinator \<Rightarrow> (exn + Reply) \<times> Coordinator" where
  "serve_save path c =
     (let (x, d) = save_engine path (co_engine c) (co_disk c); c' = c\<lparr>co_disk := d\<rparr>
      in case x of Some x \<Rightarrow> (Inl x, c') | None \<Rightarrow> (Inr (MsgKind_ACK, []), c'))"

definition serve_load :: "string \<Rightarrow> Coordinator \<Rightarrow> (exn + Reply) \<times> Coordinator" where
  "serve_load path c =
     (let (x, e) = load_engine path (co_disk c) (co_engine c); c' = c\<lparr>co_engine := e\<rparr>
      in case x of Some x \<Rightarrow> (Inl x, c') | None \<Rightarrow> (Inr (MsgKind_ACK, []), c'))"

definition dispatch :: "string \<Rightarrow> Frame \<Rightarrow> Coordinator \<Rightarrow> (exn + Reply) \<times> Coordinator" where
  "dispatch persist f c =
     (let payload = frame_payload f in
      case frame_kind f of
        MsgKind_HELLO \<Rightarrow>
          (case unpack_hello payload of Inl x \<Rightarrow> (Inl x, c)
           | Inr (w, b) \<Rightarrow>
               let e = register_worker w b (co_engine c)
               in (Inr (MsgKind_HELLO_ACK, pack_epoch (auth_epoch (eng_authority e))),
                   c\<lparr>co_engine := e, co_boot := Some b\<rparr>))
      | MsgKind_REGISTER_STATE \<Rightarrow> serve_mutation (unpack_register payload) (\<lambda>(env, rec). register_state rec env) c
      | MsgKind_ADD_LOCATION \<Rightarrow> serve_mutation (unpack_addloc payload) (\<lambda>(env, st, l). add_location st l env) c
      | MsgKind_REMOVE_LOCATION \<Rightarrow> serve_mutation (unpack_rmloc payload) (\<lambda>(env, st, p). remove_location st p env) c
      | MsgKind_INVALIDATE \<Rightarrow> serve_mutation (unpack_invalidate payload) (\<lambda>(env, i). invalidate i env) c
      | MsgKind_TOMBSTONE \<Rightarrow> serve_mutation (unpack_tombstone payload) (\<lambda>(env, t). tombstone t env) c
      | MsgKind_QUERY \<Rightarrow>
          (case unpack_query payload of Inl x \<Rightarrow> (Inl x, c)
           | Inr q \<Rightarrow>
               let (r, e) = query q (co_engine c)
               in (Inr (MsgKind_QUERY_RESULT, pack_query_result r), c\<lparr>co_engine := e\<rparr>))
      | MsgKind_SAVE \<Rightarrow>
          (case unpack_path payload of Inl x \<Rightarrow> (Inl x, c)
           | Inr path \<Rightarrow> serve_save (chosen_path persist path) c)
      | MsgKind_LOAD \<Rightarrow>
          (case unpack_path payload of Inl x \<Rightarrow> (Inl x, c)
           | Inr path \<Rightarrow> serve_load (chosen_path persist path) c)
      | MsgKind_TERMINATE \<Rightarrow> if persist \<noteq> [] then serve_save persist c else (Inr (MsgKind_ACK, []), c)
      | _ \<Rightarrow> (Inr unsupported_reply, c))"

section \<open>Serving\<close>

definition send_reply :: "'s send \<Rightarrow> Reply \<Rightarrow> 's \<Rightarrow> exn option \<times> 's" where
  "send_reply send r s = send_frame send (fst r) (snd r) s"

text \<open>The first \<^verbatim>\<open>send_frame\<close> of a frame is inside the \<^verbatim>\<open>try\<close>, so its failure is reported to the peer as well;
  the one in the handler is not, and ends the process. \<^verbatim>\<open>done\<close> is set after the acknowledgement of
  \<^verbatim>\<open>TERMINATE\<close> has been sent.\<close>

definition handle_frame ::
  "'s send \<Rightarrow> string \<Rightarrow> Frame \<Rightarrow> Coordinator \<Rightarrow> 's \<Rightarrow> exn option \<times> Coordinator \<times> 's" where
  "handle_frame send persist f c s =
     (case dispatch persist f c of
        (Inl x, c') \<Rightarrow> (case send_reply send (error_reply x) s of (y, s') \<Rightarrow> (y, c', s'))
      | (Inr r, c') \<Rightarrow>
          (case send_reply send r s of
             (None, s') \<Rightarrow> (None, c'\<lparr>co_done := (frame_kind f = MsgKind_TERMINATE)\<rparr>, s')
           | (Some x, s') \<Rightarrow> (case send_reply send (error_reply x) s' of (y, s'') \<Rightarrow> (y, c', s''))))"

definition drop_boot :: "Coordinator \<Rightarrow> Coordinator" where
  "drop_boot c =
     (case co_boot c of None \<Rightarrow> c | Some b \<Rightarrow> c\<lparr>co_engine := unregister_worker b (co_engine c)\<rparr>)"

text \<open>\<^verbatim>\<open>while (!done)\<close>: the loop over the frames of a connection. \<open>None\<close> is a loop that does not end.\<close>

partial_function (option) serve ::
  "'s recv \<Rightarrow> 's send \<Rightarrow> string \<Rightarrow> Coordinator \<Rightarrow> 's \<Rightarrow> (exn option \<times> Coordinator \<times> 's) option" where
  "serve recv send persist c s =
     (if co_done c then Some (None, c, s)
      else case recv_frame recv s of
        (Inl _, s') \<Rightarrow> Some (None, drop_boot c, s')
      | (Inr f, s') \<Rightarrow>
          (case handle_frame send persist f c s' of
             (Some x, c', s'') \<Rightarrow> Some (Some x, c', s'')
           | (None, c', s'') \<Rightarrow> serve recv send persist c' s''))"

text \<open>One connection, from \<^verbatim>\<open>accept\<close> to \<^verbatim>\<open>tcp_close\<close>.\<close>

definition connection ::
  "'s recv \<Rightarrow> 's send \<Rightarrow> string \<Rightarrow> Coordinator \<Rightarrow> 's \<Rightarrow> (exn option \<times> Coordinator \<times> 's) option" where
  "connection recv send persist c s =
     (case serve recv send persist (c\<lparr>co_boot := None, co_done := False\<rparr>) s of
        None \<Rightarrow> None
      | Some (Some x, c', s') \<Rightarrow> Some (Some x, c', s')
      | Some (None, c', s') \<Rightarrow> Some (None, drop_boot c', s'))"

text \<open>\<^verbatim>\<open>while (true)\<close>: connections that \<^verbatim>\<open>accept\<close> returns, in turn, until one of them terminates the
  coordinator or an exception comes out of it. The result is the exit code of the process, or \<open>None\<close>
  where the connections are all served and the loop is back at \<^verbatim>\<open>accept\<close>.\<close>

fun accept_loop ::
  "'s recv \<Rightarrow> 's send \<Rightarrow> string \<Rightarrow> Coordinator \<Rightarrow> 's list \<Rightarrow> (int option \<times> Coordinator) option" where
  "accept_loop recv send persist c [] = Some (None, c)"
| "accept_loop recv send persist c (s # ss) =
     (case connection recv send persist c s of
        None \<Rightarrow> None
      | Some (Some _, c', _) \<Rightarrow> Some (Some 1, c')
      | Some (None, c', _) \<Rightarrow>
          if co_done c' then Some (Some 0, c') else accept_loop recv send persist c' ss)"

text \<open>The start: an engine of epoch 1, loaded from the persist file where there is one. A load that
  fails leaves the engine as far as it got.\<close>

definition startup_engine :: "string \<Rightarrow> Disk \<Rightarrow> StateIndexEngine" where
  "startup_engine persist d =
     (let e = new_engine (Generation 1) in
      if persist \<noteq> [] \<and> disk_files d (c_str persist) \<noteq> None then snd (load_engine persist d e) else e)"

definition coordinator_main :: "'s recv \<Rightarrow> 's send \<Rightarrow> string \<Rightarrow> Disk \<Rightarrow> 's list \<Rightarrow> (int option \<times> Coordinator) option" where
  "coordinator_main recv send persist d ss =
     accept_loop recv send persist
       \<lparr>co_engine = startup_engine persist d, co_disk = d, co_boot = None, co_done = False\<rparr> ss"

end
