(* ===== verification/Lifetimes.thy ===== *)
theory Lifetimes
  imports Persistence
begin

text \<open>
  Engines that live through restarts. \<open>engine_reachable\<close> follows an engine through calls; here a run
  may also contain loads, of whatever file the loader accepts. A load restores neither the floors
  nor the current authorities of the registry, so that \<open>engine_inv\<close> is lost; but it leaves the engine
  \<open>serving\<close>, and every call keeps it so. What current records a load chooses is \<open>elected\<close>.
\<close>

section \<open>What a load leaves\<close>

text \<open>A loader that succeeds leads from \<open>P\<close> to \<open>Q\<close>.\<close>

definition leads :: "(StateIndexEngine \<Rightarrow> bool) \<Rightarrow> 'a loader \<Rightarrow> (StateIndexEngine \<Rightarrow> bool) \<Rightarrow> bool" where
  "leads P p Q \<longleftrightarrow> (\<forall>r e x e'. P e \<longrightarrow> p r e = (Inr x, e') \<longrightarrow> Q e')"

lemma leads_reading: "leads P (reading p) P"
  by (auto simp: leads_def reading_def)

lemma leads_updating: "(\<And>e. P e \<Longrightarrow> Q (f e)) \<Longrightarrow> leads P (updating f) Q"
  by (auto simp: leads_def updating_def)

lemma leads_failing: "leads P (failing msg) Q"
  by (auto simp: leads_def failing_def)

lemma leads_bind: "leads P p Q \<Longrightarrow> (\<And>x. leads Q (f x) R) \<Longrightarrow> leads P (bindl p f) R"
  unfolding leads_def bindl_def
  by (auto split: prod.splits sum.splits) blast

lemma leads_verify:
  assumes "digest_ok rec \<Longrightarrow> leads P (f ()) Q"
  shows "leads P (bindl (verify_semantic_digest rec) f) Q"
  using assms by (auto simp: leads_def bindl_def verify_semantic_digest_def failing_def updating_def digest_ok_def)

definition filed :: "StateIndexEngine \<Rightarrow> bool" where
  "filed e \<longleftrightarrow> um_ok (eng_records e) \<and>
     (\<forall>rid r. get_record e rid = Some r \<longrightarrow> rec_record_id r = rid \<and> digest_ok r)"

lemma filed_put: "filed e \<Longrightarrow> digest_ok rec \<Longrightarrow> filed (put_record rec e)"
  by (auto simp: filed_def put_record_def get_record_def)

lemma filed_cong: "eng_records e' = eng_records e \<Longrightarrow> filed e' = filed e"
  by (simp add: filed_def get_record_def)

lemma leads_records: "leads filed (load_records n ids gens) filed"
proof (induction n arbitrary: ids gens)
  case 0
  then show ?case by (simp add: leads_updating)
next
  case (Suc n)
  have put: "digest_ok rec \<Longrightarrow> leads filed (bindl (updating (put_record rec)) (\<lambda>_. load_records n ids' gens')) filed"
    for rec ids' gens' by (rule leads_bind [OF leads_updating Suc]) (rule filed_put)
  show ?case
    unfolding load_records.simps
    by (rule leads_bind [OF leads_reading]) (simp add: leads_failing leads_verify put)
qed

text \<open>From the end of the records on, nothing but \<open>load_finish\<close> touches the records or the history.\<close>

definition filed_history :: "StateIndexEngine \<Rightarrow> bool" where
  "filed_history e \<longleftrightarrow> filed e \<and> history_inv e"

lemma filed_history_cong:
  assumes "eng_records e' = eng_records e" "eng_history e' = eng_history e"
  shows "filed_history e' = filed_history e"
  using filed_cong [OF assms(1)] views_cong(1) [OF assms(1)] views_cong(4) [OF assms(2)]
  by (simp add: filed_history_def history_inv_def assms(2))

lemma leads_frame:
  assumes "\<And>e. eng_records (f e) = eng_records e" "\<And>e. eng_history (f e) = eng_history e"
    and "leads filed_history (g ()) Q"
  shows "leads filed_history (bindl (updating f) g) Q"
proof (rule leads_bind [OF leads_updating])
  show "filed_history e \<Longrightarrow> filed_history (f e)" for e
    using filed_history_cong [of "f e" e] assms(1,2) by simp
qed (use assms(3) in simp)

lemma leads_read: "(\<And>x. leads P (f x) Q) \<Longrightarrow> leads P (bindl (reading p) f) Q"
  by (rule leads_bind [OF leads_reading])

lemma leads_invalidations: "leads filed_history (load_invalidations n) filed_history"
  by (induction n) (simp_all add: leads_updating leads_read leads_frame)

lemma leads_tombstones: "leads filed_history (load_tombstones n) filed_history"
  by (induction n) (simp_all add: leads_updating leads_read leads_frame)

definition history_step ::
    "(StateId, StateRecordId list) umap \<Rightarrow> StateRecordId \<times> StateRecord \<Rightarrow> (StateId, StateRecordId list) umap" where
  "history_step h x = um_put (rec_state_id (snd x))
     ((case um_find h (rec_state_id (snd x)) of None \<Rightarrow> [] | Some ids \<Rightarrow> ids) @ [fst x]) h"

lemma history_fold:
  "um_ok h \<Longrightarrow> um_ok (foldl history_step h xs)"
  "(case um_find (foldl history_step h xs) st of None \<Rightarrow> [] | Some ids \<Rightarrow> ids) =
     (case um_find h st of None \<Rightarrow> [] | Some ids \<Rightarrow> ids) @ List.map fst (filter (\<lambda>x. rec_state_id (snd x) = st) xs)"
  by (induction xs arbitrary: h) (simp_all add: history_step_def)

lemma filed_rebuild_history:
  assumes "filed e"
  shows "filed_history (rebuild_history e)"
proof -
  have eq: "eng_history (rebuild_history e) = foldl history_step [] (eng_records e)"
    by (simp add: rebuild_history_def history_step_def [abs_def] case_prod_unfold)
  have ids: "history_ids (rebuild_history e) st = List.map fst (filter (\<lambda>x. rec_state_id (snd x) = st) (eng_records e))" for st
    using history_fold(2) [of "[]" "eng_records e" st] by (simp add: history_ids_def eq)
  have recs: "eng_records (rebuild_history e) = eng_records e" by (simp add: rebuild_history_def)
  have ok: "um_ok (eng_records e)" using assms by (simp add: filed_def)
  have mem: "(rid, r) \<in> set (eng_records e) \<longleftrightarrow> get_record e rid = Some r" for rid r
    by (simp add: um_ok_mem [OF ok] get_record_def)
  have "distinct (history_ids (rebuild_history e) st)" for st
    unfolding ids by (rule distinct_map_filter) (use ok in \<open>simp add: um_ok_def\<close>)
  moreover have "set (history_ids (rebuild_history e) st) = {rid. \<exists>r. get_record e rid = Some r \<and> rec_state_id r = st}" for st
    unfolding ids by (force simp: mem [symmetric])
  ultimately have "history_inv (rebuild_history e)"
    by (simp add: history_inv_def history_fold(1) eq views_cong(1) [OF recs])
  with filed_cong [OF recs] assms show ?thesis by (simp add: filed_history_def)
qed

lemma filed_canonical:
  assumes "filed e"
  shows "r \<in> set (canonical_records e) \<longleftrightarrow> get_record e (rec_record_id r) = Some r"
proof -
  have "um_ok (eng_records e)" using assms by (simp add: filed_def)
  then have "r \<in> set (canonical_records e) \<longleftrightarrow> (\<exists>rid. get_record e rid = Some r)"
    using um_values_set [of "eng_records e" r] by (simp add: canonical_records_def get_record_def)
  then show ?thesis using assms unfolding filed_def by metis
qed

lemma record_keys_recover: "record_keys (recover_record r) = record_keys r"
proof -
  have keys: "location_keys (recover_location l) = location_keys l" for l
    by (simp add: location_keys_def recover_location_def Let_def)
  show ?thesis
    by (simp add: recover_record_def redigest_def record_keys_def Let_def keys comp_def)
qed

lemma record_keys_historical: "record_keys (r\<lparr>rec_is_historical := b\<rparr>) = record_keys r"
  by (simp add: record_keys_def)

lemma service_load_finish:
  assumes "filed_history e"
  shows "service_inv {} (load_finish e)"
proof -
  let ?x = "recover_all e" and ?e = "load_finish e"
  have filed: "filed e" and hist: "history_inv e" using assms by (simp_all add: filed_history_def)
  have get: "get_record ?e rid = map_option (\<lambda>r. (recover_record r)\<lparr>rec_is_historical :=
      um_find (eng_current ?e) (rec_state_id r) \<noteq> Some (rec_record_id r)\<rparr>) (get_record e rid)" for rid
    unfolding load_finish_eq get_record_recompute get_record_recover_all by (simp add: option.map_comp comp_def)
  have ok: "um_ok (eng_records ?e)" "um_ok (eng_records ?x)"
    using filed by (simp_all add: filed_def um_ok_def load_finish_eq recompute_current_def Let_def recover_all_def
        case_prod_unfold comp_def)
  have idx: "eng_indexes ?e = idx_rebuild (canonical_records e)"
    by (simp add: load_finish_def recompute_current_def Let_def)
  have ids: "ids_under ?e k = {rid. \<exists>r. get_record e rid = Some r \<and> k \<in> set (record_keys r)}" for k
    by (auto simp: ids_under_def get record_keys_historical record_keys_recover)
  have "rec_record_id r = rid" if "get_record e rid = Some r" for rid r
    using filed that by (simp add: filed_def)
  then have "ids_under ?e k = posted (eng_indexes ?e) k" for k
    unfolding idx posted_rebuild ids filed_canonical [OF filed] by (metis (mono_tags, lifting))
  moreover have "posted (eng_indexes ?e) k \<subseteq> {rid. get_record ?e rid \<noteq> None}" for k
    unfolding idx posted_rebuild filed_canonical [OF filed] by (auto simp: get)
  ultimately have "index_inv ?e" by (simp add: index_inv_def idx idx_ok_rebuild)
  with ok(1) filed have "queryable ?e"
    by (auto simp: queryable_def filed_def get digest_ok_recover)
  moreover have "eng_history ?e = eng_history e" by (simp add: load_finish_def recompute_current_def Let_def)
  then have "history_inv ?e" using hist by (auto simp: history_inv_def history_ids_def get)
  moreover have "pointers_inv {} ?e"
    unfolding pointers_inv_def
  proof (intro allI impI)
    fix st rid assume cur: "um_find (eng_current ?e) st = Some rid"
    have mem: "(rid, r) \<in> set (eng_records ?x) \<longleftrightarrow> get_record ?x rid = Some r" for rid r
      by (simp add: um_ok_mem [OF ok(2)] get_record_def)
    have keyed: "(rid, r) \<in> set (eng_records ?x) \<Longrightarrow> rec_record_id r = rid" for rid r
      using filed by (auto simp: mem get_record_recover_all filed_def)
    from recompute_fold_snd [of "eng_records ?x" ?x st, OF keyed] cur
    obtain r where r: "(rid, r) \<in> set (eng_records ?x)" "counted ?x st r"
      by (auto simp: load_finish_eq recompute_current_def Let_def)
    then obtain r0 where "get_record e rid = Some r0" "r = recover_record r0"
      by (auto simp: mem get_record_recover_all)
    moreover have "is_tombstoned ?e = is_tombstoned ?x"
      by (intro ext views_cong) (simp add: load_finish_eq recompute_current_def Let_def)
    ultimately show "\<exists>r. get_record ?e rid = Some r \<and> rec_state_id r = st \<and>
        (st \<in> {} \<or> \<not> is_tombstoned ?e st (rec_state_generation r))"
      using r(2) by (auto simp: get counted_def)
  qed
  moreover have "um_ok (eng_current ?e)"
  proof -
    have "um_ok (snd mc) \<Longrightarrow> um_ok (snd (foldl (recompute_step ?x) mc rs))" for mc rs
      by (induction rs arbitrary: mc) (simp_all add: recompute_step_def Let_def)
    then show ?thesis by (simp add: load_finish_eq recompute_current_def Let_def)
  qed
  ultimately show ?thesis by (simp add: service_inv_def)
qed

lemma newest_load_finish:
  assumes "filed_history e"
  shows "newest_inv (load_finish e)"
proof -
  let ?x = "recover_all e" and ?e = "load_finish e"
  have filed: "filed e" using assms by (simp add: filed_history_def)
  have ok: "um_ok (eng_records ?x)"
    using filed by (simp add: filed_def um_ok_def recover_all_def case_prod_unfold comp_def)
  have keyed: "get_record ?x rid = Some r \<Longrightarrow> rec_record_id r = rid" for rid r
    using filed by (auto simp: filed_def get_record_recover_all)
  have t: "is_tombstoned ?e = is_tombstoned ?x"
    by (intro ext views_cong) (simp add: load_finish_eq recompute_current_def Let_def)
  show ?thesis
    unfolding newest_inv_def
  proof (intro allI impI, elim conjE)
    fix rid r assume r: "get_record ?e rid = Some r" "counted ?e (rec_state_id r) r"
    then obtain r0 where r0: "get_record ?x rid = Some r0" "rec_state_id r = rec_state_id r0"
      "rec_state_generation r = rec_state_generation r0" "rec_lifecycle r = rec_lifecycle r0"
      by (auto simp: load_finish_eq get_record_recompute)
    with r(2) have "counted ?x (rec_state_id r) r0" by (simp add: counted_def outstanding_def t)
    with recompute_current_spec [OF ok keyed, where st = "rec_state_id r"] r0
    show "\<exists>c. find_state ?e (rec_state_id r) = Some c \<and> rec_state_generation r \<le> rec_state_generation c"
      by (auto simp: load_finish_eq split: option.splits)
  qed
qed

text \<open>The current records a load elects: the newest of those neither retired nor tombstoned, where there is one.\<close>

definition elected :: "StateIndexEngine \<Rightarrow> bool" where
  "elected e \<longleftrightarrow> (\<forall>st. case find_state e st of
      None \<Rightarrow> \<forall>rid r. get_record e rid = Some r \<longrightarrow> \<not> counted e st r
    | Some c \<Rightarrow> counted e st c \<and>
        (\<forall>rid r. get_record e rid = Some r \<and> counted e st r \<longrightarrow> rec_state_generation r \<le> rec_state_generation c))"

lemma elected_load_finish:
  assumes "filed_history e"
  shows "elected (load_finish e)"
proof -
  let ?x = "recover_all e" and ?e = "load_finish e"
  have filed: "filed e" using assms by (simp add: filed_history_def)
  have ok: "um_ok (eng_records ?x)"
    using filed by (simp add: filed_def um_ok_def recover_all_def case_prod_unfold comp_def)
  have keyed: "get_record ?x rid = Some r \<Longrightarrow> rec_record_id r = rid" for rid r
    using filed by (auto simp: filed_def get_record_recover_all)
  have t: "is_tombstoned ?e = is_tombstoned ?x"
    by (intro ext views_cong) (simp add: load_finish_eq recompute_current_def Let_def)
  have counted: "counted ?e st = counted ?x st" for st
    by (simp add: counted_def t fun_eq_iff)
  have le: "\<exists>r0. get_record ?x rid = Some r0 \<and> (counted ?x st r \<longleftrightarrow> counted ?x st r0) \<and>
      rec_state_generation r = rec_state_generation r0" if "get_record ?e rid = Some r" for st rid r
    using that by (auto simp: load_finish_eq get_record_recompute counted_def outstanding_def)
  show ?thesis
    unfolding elected_def counted
  proof
    fix st
    from recompute_current_spec [OF ok keyed, where st = st] le [of _ _ st]
    show "case find_state ?e st of None \<Rightarrow> \<forall>rid r. get_record ?e rid = Some r \<longrightarrow> \<not> counted ?x st r
      | Some c \<Rightarrow> counted ?x st c \<and>
          (\<forall>rid r. get_record ?e rid = Some r \<and> counted ?x st r \<longrightarrow> rec_state_generation r \<le> rec_state_generation c)"
      unfolding load_finish_eq by (fastforce split: option.split)
  qed
qed

lemma leads_payload: "leads (\<lambda>_. True) load_payload (\<lambda>e. serving e \<and> elected e)"
proof -
  have reset: "leads (\<lambda>_. True) (updating load_reset) filed"
    by (rule leads_updating) (simp add: filed_def load_reset_def get_record_def)
  have rebuild: "leads filed (updating rebuild_history) filed_history"
    by (rule leads_updating) (rule filed_rebuild_history)
  have finish: "leads filed_history (updating load_finish) (\<lambda>e. serving e \<and> elected e)"
    by (rule leads_updating) (simp add: serving_def service_load_finish newest_load_finish elected_load_finish)
  show ?thesis
    unfolding load_payload_def
    by (rule leads_bind [OF reset])
      (simp add: leads_read leads_failing leads_bind [OF leads_records] leads_bind [OF rebuild]
        leads_bind [OF leads_invalidations] leads_bind [OF leads_tombstones] leads_frame finish)
qed

lemma load_leads: "load_file bs e = (None, e') \<Longrightarrow> serving e' \<and> elected e'"
  using leads_payload unfolding leads_def load_file_def
  by (auto split: sum.splits prod.splits)

lemmas serving_load = load_leads [THEN conjunct1]
lemmas elected_load = load_leads [THEN conjunct2]

section \<open>Engines with restarts\<close>

inductive engine_lived :: "StateIndexEngine \<Rightarrow> bool" where
  lived_new: "engine_lived (new_engine epoch)"
| lived_step: "engine_lived e \<Longrightarrow> engine_step e e' \<Longrightarrow> engine_lived e'"
| lived_load: "engine_lived e \<Longrightarrow> load_file bs e = (None, e') \<Longrightarrow> engine_lived e'"

lemma reachable_lived: "engine_reachable e \<Longrightarrow> engine_lived e"
  by (induction rule: engine_reachable.induct) (auto intro: engine_lived.intros)

lemma lived_serving: "engine_lived e \<Longrightarrow> serving e"
  by (induction rule: engine_lived.induct)
    (auto intro: engine_inv_serving engine_inv_new step_serving serving_load)

lemmas lived_service = lived_serving [THEN servingD(1)]
lemmas lived_queryable = lived_serving [THEN servingD(3)]

end
