(* ===== verification/Sessions.thy ===== *)
theory Sessions
  imports Coordinator Lifetimes
begin

text \<open>
  What a connection of the coordinator amounts to. \<open>answer\<close> and \<open>converse\<close> are the coordinator without
  its socket: a frame and its reply, a list of frames and their replies. The loop over a stream
  socket refines them, whatever the runs the bytes come in, and ends for every stream that does.
\<close>

section \<open>One frame\<close>

lemmas serving_defs = serve_mutation_def serve_save_def serve_load_def dispatch_def

text \<open>Every frame but \<^verbatim>\<open>LOAD\<close> leaves the engine as it was or takes it one step.\<close>

lemma serve_mutation_step:
  assumes "\<And>a. engine_step (co_engine c) (snd (run a (co_engine c)))"
  shows "engine_step\<^sup>=\<^sup>= (co_engine c) (co_engine (snd (serve_mutation req run c)))"
  using assms by (auto simp: serve_mutation_def split: sum.splits prod.splits) (metis snd_conv)

lemma serve_save_frame [simp]:
  "co_engine (snd (serve_save path c)) = co_engine c" "co_boot (snd (serve_save path c)) = co_boot c"
  "co_done (snd (serve_save path c)) = co_done c"
  by (simp_all add: serve_save_def Let_def split: prod.splits option.splits)

lemma serve_load_frame [simp]:
  "co_disk (snd (serve_load path c)) = co_disk c" "co_boot (snd (serve_load path c)) = co_boot c"
  "co_done (snd (serve_load path c)) = co_done c"
  by (simp_all add: serve_load_def Let_def split: prod.splits option.splits)

lemma serve_mutation_frame [simp]:
  "co_disk (snd (serve_mutation req run c)) = co_disk c" "co_boot (snd (serve_mutation req run c)) = co_boot c"
  "co_done (snd (serve_mutation req run c)) = co_done c"
  by (simp_all add: serve_mutation_def Let_def split: prod.splits sum.splits)

lemma dispatch_engine:
  assumes "frame_kind f \<noteq> MsgKind_LOAD"
  shows "engine_step\<^sup>=\<^sup>= (co_engine c) (co_engine (snd (dispatch persist f c)))"
proof (cases "frame_kind f")
  case MsgKind_HELLO
  then show ?thesis
    by (auto simp: dispatch_def Let_def intro: step_register_worker split: sum.splits)
next
  case MsgKind_QUERY
  then show ?thesis
    by (auto simp: dispatch_def Let_def split: sum.splits prod.splits) (metis step_query snd_conv)
qed (use assms in \<open>auto simp: dispatch_def Let_def intro!: serve_mutation_step [simplified] split: sum.splits
      intro: engine_step.intros\<close>)

lemma dispatch_done [simp]: "co_done (snd (dispatch persist f c)) = co_done c"
  by (simp add: dispatch_def Let_def split: MsgKind.splits sum.splits prod.splits)

lemma dispatch_boot:
  "co_boot (snd (dispatch persist f c)) =
     (if frame_kind f = MsgKind_HELLO
      then case unpack_hello (frame_payload f) of Inl _ \<Rightarrow> co_boot c | Inr (_, b) \<Rightarrow> Some b
      else co_boot c)"
  by (simp add: dispatch_def Let_def split: MsgKind.splits sum.splits prod.splits)

lemma dispatch_doneD: "dispatch persist f c = (r, c') \<Longrightarrow> co_done c' = co_done c"
  using dispatch_done [of persist f c] by simp

text \<open>An error inside the switch changes neither the engine nor the connection; only \<^verbatim>\<open>LOAD\<close> may leave
  the engine half loaded, and only a save that fails may leave something on the disk.\<close>

lemma dispatch_error:
  assumes "dispatch persist f c = (Inl x, c')" and "frame_kind f \<noteq> MsgKind_LOAD"
  shows "co_engine c' = co_engine c" and "co_boot c' = co_boot c"
    and "frame_kind f \<notin> {MsgKind_SAVE, MsgKind_TERMINATE} \<Longrightarrow> c' = c"
  using assms
  by (auto simp: serving_defs Let_def split: MsgKind.splits sum.splits prod.splits option.splits if_splits)

section \<open>A conversation\<close>

definition answer :: "string \<Rightarrow> Frame \<Rightarrow> Coordinator \<Rightarrow> Reply \<times> Coordinator" where
  "answer persist f c =
     (case dispatch persist f c of (Inl x, c') \<Rightarrow> (error_reply x, c')
      | (Inr r, c') \<Rightarrow> (r, c'\<lparr>co_done := (frame_kind f = MsgKind_TERMINATE)\<rparr>))"

fun converse :: "string \<Rightarrow> Frame list \<Rightarrow> Coordinator \<Rightarrow> Reply list \<times> Coordinator" where
  "converse persist [] c = ([], if co_done c then c else drop_boot c)"
| "converse persist (f # fs) c =
     (if co_done c then ([], c)
      else let (r, c1) = answer persist f c; (rs, c2) = converse persist fs c1 in (r # rs, c2))"

definition frames_on_wire :: "Frame list \<Rightarrow> bytes" where
  "frames_on_wire fs = concat (map (\<lambda>f. encode_frame (frame_kind f) (frame_payload f)) fs)"

definition replies_on_wire :: "Reply list \<Rightarrow> bytes" where
  "replies_on_wire rs = concat (map (\<lambda>(kind, payload). encode_frame kind payload) rs)"

definition sendable :: "Frame \<Rightarrow> bool" where
  "sendable f \<longleftrightarrow> MsgKind_ok (frame_kind f) \<and> known_kind (MsgKind_code (frame_kind f)) \<and>
     length (frame_payload f) \<le> unat kMaxFrameBytes"

context reliable_socket
begin

lemma handle_frame_answers:
  "\<exists>s'. handle_frame send persist f c s = (None, snd (answer persist f c), s') \<and>
     sent s' = sent s @ replies_on_wire [fst (answer persist f c)] \<and> pending s' = pending s"
proof (cases "dispatch persist f c")
  case (Pair r c')
  obtain s' where "send_frame send (fst (fst (answer persist f c))) (snd (fst (answer persist f c))) s = (None, s')"
    "sent s' = sent s @ replies_on_wire [fst (answer persist f c)]" "pending s' = pending s"
    using send_frame_delivers [of "fst (fst (answer persist f c))" "snd (fst (answer persist f c))" s]
    by (auto simp: replies_on_wire_def split: prod.splits)
  with Pair show ?thesis by (cases r) (simp_all add: handle_frame_def answer_def send_reply_def)
qed

text \<open>Frames that come in whole are answered in order.\<close>

lemma serve_converse:
  "pending s = frames_on_wire fs \<Longrightarrow> list_all sendable fs \<Longrightarrow>
     \<exists>s'. serve recv send persist c s = Some (None, snd (converse persist fs c), s') \<and>
       sent s' = sent s @ replies_on_wire (fst (converse persist fs c))"
proof (induction fs arbitrary: c s)
  case Nil
  have closed: "fst (recv_frame recv s) = Inl (runtime_error ''connection closed'')"
    using recv_exact_short [of s kProtocolHeaderSize] Nil
    by (auto simp: recv_frame_def frames_on_wire_def kProtocolHeaderSize_def split: prod.splits sum.splits)
  obtain s' where s': "recv_frame recv s = (Inl (runtime_error ''connection closed''), s')"
    using closed by (cases "recv_frame recv s") simp
  show ?case
    using s' recv_frame_sent [OF s'] by (subst serve.simps) (auto simp: replies_on_wire_def)
next
  case (Cons f fs)
  show ?case
  proof (cases "co_done c")
    case False
    have "pending s = encode_frame (frame_kind f) (frame_payload f) @ frames_on_wire fs"
      using Cons.prems(1) by (simp add: frames_on_wire_def)
    then obtain s1 where s1: "recv_frame recv s = (Inr f, s1)" "pending s1 = frames_on_wire fs"
      using recv_frame_encoded [of s "frame_kind f" "frame_payload f" "frames_on_wire fs"] Cons.prems(2)
      by (cases f) (auto simp: sendable_def)
    obtain s2 where s2: "handle_frame send persist f c s1 = (None, snd (answer persist f c), s2)"
      "sent s2 = sent s1 @ replies_on_wire [fst (answer persist f c)]" "pending s2 = pending s1"
      using handle_frame_answers by blast
    obtain s3 where "serve recv send persist (snd (answer persist f c)) s2 =
        Some (None, snd (converse persist fs (snd (answer persist f c))), s3)"
      "sent s3 = sent s2 @ replies_on_wire (fst (converse persist fs (snd (answer persist f c))))"
      using Cons.IH [of s2] s1(2) s2(3) Cons.prems(2) by force
    with False s1 s2 recv_frame_sent [OF s1(1)] show ?thesis
      by (subst serve.simps) (auto simp: Let_def replies_on_wire_def split: prod.splits)
  qed (simp add: serve.simps replies_on_wire_def)
qed

end

text \<open>A stream of finitely many bytes is served to its end, whatever its bytes are and whichever calls fail.
  Where an exception comes out, it was no termination.\<close>

context ending_stream
begin

lemma handle_frame_ends:
  assumes "handle_frame send persist f c s = (x, c', s')"
  shows "length (pending s') \<le> length (pending s)" and "x \<noteq> None \<Longrightarrow> co_done c' = co_done c"
  using assms
  by (auto simp: handle_frame_def send_reply_def split: prod.splits sum.splits option.splits
      dest!: send_frame_ends dispatch_doneD intro: order_trans)

lemma serve_returns:
  "\<exists>x c' s'. serve recv send persist c s = Some (x, c', s') \<and> (x \<noteq> None \<longrightarrow> \<not> co_done c')"
proof (induction "length (pending s)" arbitrary: c s rule: less_induct)
  case less
  show ?case
  proof (cases "\<not> co_done c \<and> (\<exists>f s1. recv_frame recv s = (Inr f, s1))")
    case True
    then obtain f s1 where f: "recv_frame recv s = (Inr f, s1)" "\<not> co_done c" by blast
    obtain x c2 s2 where h: "handle_frame send persist f c s1 = (x, c2, s2)" by (metis prod_cases3)
    have "length (pending s2) < length (pending s)"
      using recv_frame_takes [OF f(1)] handle_frame_ends(1) [OF h] by simp
    from less [OF this, of c2] f h handle_frame_ends(2) [OF h] show ?thesis
      by (subst serve.simps) (auto split: option.split)
  next
    case False
    then show ?thesis by (subst serve.simps) (auto split: prod.splits sum.splits)
  qed
qed

lemma accept_loop_codes:
  "\<exists>code c'. accept_loop recv send persist c ss = Some (code, c') \<and>
     (case code of None \<Rightarrow> True | Some k \<Rightarrow> (k = 0 \<or> k = 1) \<and> (k = 0 \<longleftrightarrow> co_done c'))"
proof (induction ss arbitrary: c)
  case (Cons s ss)
  obtain x c' s' where "serve recv send persist (c\<lparr>co_boot := None, co_done := False\<rparr>) s = Some (x, c', s')"
    "x \<noteq> None \<longrightarrow> \<not> co_done c'"
    using serve_returns by blast
  with Cons.IH [of "drop_boot c'"] show ?case
    by (cases x; cases "co_done (drop_boot c')") (simp_all add: connection_def)
qed simp

end

section \<open>What a conversation does to the engine\<close>

definition loads_nothing :: "Frame list \<Rightarrow> bool" where
  "loads_nothing fs \<longleftrightarrow> list_all (\<lambda>f. frame_kind f \<noteq> MsgKind_LOAD) fs"

lemma answer_engine: "co_engine (snd (answer persist f c)) = co_engine (snd (dispatch persist f c))"
  by (simp add: answer_def split: prod.splits sum.splits)

lemma answer_boot: "co_boot (snd (answer persist f c)) = co_boot (snd (dispatch persist f c))"
  by (simp add: answer_def split: prod.splits sum.splits)

lemma drop_boot_step: "engine_step\<^sup>=\<^sup>= (co_engine c) (co_engine (drop_boot c))"
  by (auto simp: drop_boot_def intro: step_unregister_worker split: option.splits)

lemma converse_steps:
  "loads_nothing fs \<Longrightarrow> engine_step\<^sup>*\<^sup>* (co_engine c) (co_engine (snd (converse persist fs c)))"
proof (induction fs arbitrary: c)
  case Nil
  show ?case using drop_boot_step [of c] by auto
next
  case (Cons f fs)
  have "engine_step\<^sup>=\<^sup>= (co_engine c) (co_engine (snd (answer persist f c)))"
    unfolding answer_engine using Cons.prems by (intro dispatch_engine) (simp add: loads_nothing_def)
  then have "engine_step\<^sup>*\<^sup>* (co_engine c) (co_engine (snd (answer persist f c)))" by auto
  moreover have "engine_step\<^sup>*\<^sup>* (co_engine (snd (answer persist f c)))
      (co_engine (snd (converse persist fs (snd (answer persist f c)))))"
    using Cons by (simp add: loads_nothing_def)
  ultimately show ?case by (auto simp: Let_def split: prod.splits)
qed

lemma reachable_steps: "engine_step\<^sup>*\<^sup>* e e' \<Longrightarrow> engine_reachable e \<Longrightarrow> engine_reachable e'"
  by (induction rule: rtranclp_induct) (auto intro: reach_step)

text \<open>Loads included. A load that fails after its checks may leave the engine half loaded;
  a conversation without one keeps the engine among those that calls and loads can make.\<close>

fun no_half_load :: "string \<Rightarrow> Frame list \<Rightarrow> Coordinator \<Rightarrow> bool" where
  "no_half_load persist [] c \<longleftrightarrow> True"
| "no_half_load persist (f # fs) c \<longleftrightarrow> co_done c \<or>
     (case dispatch persist f c of (Inl _, c') \<Rightarrow> co_engine c' = co_engine c | (Inr _, _) \<Rightarrow> True) \<and>
     no_half_load persist fs (snd (answer persist f c))"

lemma lived_step_refl: "engine_lived e \<Longrightarrow> engine_step\<^sup>=\<^sup>= e e' \<Longrightarrow> engine_lived e'"
  by (auto intro: lived_step)

lemma lived_load_engine: "engine_lived e \<Longrightarrow> load_engine path d e = (None, e') \<Longrightarrow> engine_lived e'"
  by (auto simp: load_engine_def intro: lived_load split: sum.splits)

lemma dispatch_lived:
  assumes lived: "engine_lived (co_engine c)"
    and whole: "case dispatch persist f c of (Inl _, c') \<Rightarrow> co_engine c' = co_engine c | (Inr _, _) \<Rightarrow> True"
  shows "engine_lived (co_engine (snd (dispatch persist f c)))"
proof (cases "frame_kind f = MsgKind_LOAD")
  case True
  with lived whole show ?thesis
    by (auto simp: dispatch_def serve_load_def Let_def intro: lived_load_engine
        split: sum.splits prod.splits option.splits)
next
  case False
  from lived_step_refl [OF lived dispatch_engine [OF this]] show ?thesis .
qed

lemma converse_lived:
  "engine_lived (co_engine c) \<Longrightarrow> no_half_load persist fs c \<Longrightarrow>
     engine_lived (co_engine (snd (converse persist fs c)))"
proof (induction fs arbitrary: c)
  case Nil
  then show ?case using lived_step_refl [OF _ drop_boot_step] by simp
next
  case (Cons f fs)
  show ?case
  proof (cases "co_done c")
    case True
    with Cons.prems(1) show ?thesis by simp
  next
    case False
    then have "engine_lived (co_engine (snd (answer persist f c)))"
      unfolding answer_engine using Cons.prems by (intro dispatch_lived) simp_all
    moreover have "no_half_load persist fs (snd (answer persist f c))" using Cons.prems(2) False by simp
    ultimately have "engine_lived (co_engine (snd (converse persist fs (snd (answer persist f c)))))"
      by (rule Cons.IH)
    with False show ?thesis by (simp add: split_beta Let_def)
  qed
qed

section \<open>Who is live after a conversation\<close>

text \<open>The boots a list of frames announces.\<close>

definition announced :: "Frame \<Rightarrow> WorkerBootId option" where
  "announced f =
     (if frame_kind f = MsgKind_HELLO
      then case unpack_hello (frame_payload f) of Inl _ \<Rightarrow> None | Inr (_, b) \<Rightarrow> Some b
      else None)"

lemma serve_mutation_live:
  assumes "\<And>a. same_membership (co_engine c) (snd (run a (co_engine c)))"
  shows "is_live (eng_authority (co_engine (snd (serve_mutation req run c)))) b \<longleftrightarrow>
    is_live (eng_authority (co_engine c)) b"
  using assms
  by (auto simp: serve_mutation_def same_membership_def is_live_def split: sum.splits prod.splits) (metis snd_conv)+

lemma mutation_members:
  assumes "engine_inv e"
  shows "same_membership e (snd ((case a of (env, rec) \<Rightarrow> register_state rec env) e))"
    and "same_membership e (snd ((case l of (env, st, loc) \<Rightarrow> add_location st loc env) e))"
    and "same_membership e (snd ((case p of (env, st, pl) \<Rightarrow> remove_location st pl env) e))"
    and "same_membership e (snd ((case i of (env, inval) \<Rightarrow> invalidate inval env) e))"
    and "same_membership e (snd ((case t of (env, tomb) \<Rightarrow> tombstone tomb env) e))"
  using assms reg.keeps_membership inval.keeps_membership tomb.keeps_membership
    addloc.keeps_membership [where a = "(_, _)"] remloc.keeps_membership [where a = "(_, _)"]
  by (simp_all split: prod.splits)

lemma query_pair: "query q e = (r, e') \<Longrightarrow> e' = in_mode False e"
  using run_query_engine [of q False e] by (simp add: query_def)

lemma dispatch_live:
  assumes inv: "engine_inv (co_engine c)" and kind: "frame_kind f \<noteq> MsgKind_LOAD"
  shows "is_live (eng_authority (co_engine (snd (dispatch persist f c)))) b \<longleftrightarrow>
    announced f = Some b \<or> is_live (eng_authority (co_engine c)) b"
proof (cases "frame_kind f")
  case MsgKind_HELLO
  then show ?thesis
    by (auto simp: dispatch_def announced_def register_worker_def Let_def split: sum.splits)
next
  case MsgKind_QUERY
  then show ?thesis
    by (auto simp: dispatch_def announced_def Let_def in_mode_def split: sum.splits prod.splits dest!: query_pair)
qed (use kind inv in \<open>simp_all add: dispatch_def announced_def serve_mutation_live mutation_members split: sum.splits\<close>)

lemma answer_live:
  "engine_inv (co_engine c) \<Longrightarrow> frame_kind f \<noteq> MsgKind_LOAD \<Longrightarrow>
     is_live (eng_authority (co_engine (snd (answer persist f c)))) b \<longleftrightarrow>
       announced f = Some b \<or> is_live (eng_authority (co_engine c)) b"
  by (simp add: answer_engine dispatch_live)

lemma answer_inv:
  assumes "engine_inv (co_engine c)" and "frame_kind f \<noteq> MsgKind_LOAD"
  shows "engine_inv (co_engine (snd (answer persist f c)))"
  using dispatch_engine [OF assms(2), of c persist] step_keeps(1) assms(1) by (auto simp: answer_engine)

lemma answer_announced: "co_boot (snd (answer persist f c)) = (case announced f of None \<Rightarrow> co_boot c | b \<Rightarrow> b)"
  by (auto simp: answer_boot dispatch_boot announced_def split: sum.splits)

lemma drop_boot_live:
  "is_live (eng_authority (co_engine (drop_boot c))) b \<longleftrightarrow>
     is_live (eng_authority (co_engine c)) b \<and> co_boot c \<noteq> Some b"
  by (auto simp: drop_boot_def unregister_worker_def split: option.splits)

text \<open>The boot a connection announced last.\<close>

definition last_announced :: "Frame list \<Rightarrow> WorkerBootId option \<Rightarrow> WorkerBootId option" where
  "last_announced fs b = foldl (\<lambda>b f. case announced f of None \<Rightarrow> b | b' \<Rightarrow> b') b fs"

text \<open>While no frame terminates the coordinator, the boots live after a conversation are those live
  before it and those it announced, less the last.\<close>

definition terminates_nothing :: "Frame list \<Rightarrow> bool" where
  "terminates_nothing fs \<longleftrightarrow> list_all (\<lambda>f. frame_kind f \<noteq> MsgKind_TERMINATE) fs"

lemma converse_live:
  "engine_inv (co_engine c) \<Longrightarrow> loads_nothing fs \<Longrightarrow> terminates_nothing fs \<Longrightarrow> \<not> co_done c \<Longrightarrow>
     is_live (eng_authority (co_engine (snd (converse persist fs c)))) b \<longleftrightarrow>
       (is_live (eng_authority (co_engine c)) b \<or> Some b \<in> announced ` set fs) \<and>
       last_announced fs (co_boot c) \<noteq> Some b"
proof (induction fs arbitrary: c)
  case Nil
  then show ?case by (simp add: drop_boot_live last_announced_def)
next
  case (Cons f fs)
  let ?c = "snd (answer persist f c)"
  have f: "frame_kind f \<noteq> MsgKind_LOAD" "frame_kind f \<noteq> MsgKind_TERMINATE" "loads_nothing fs" "terminates_nothing fs"
    using Cons.prems by (simp_all add: loads_nothing_def terminates_nothing_def)
  have "\<not> co_done ?c"
    using Cons.prems(4) f(2) by (auto simp: answer_def dest!: dispatch_doneD split: prod.splits sum.splits)
  note IH = Cons.IH [OF answer_inv [OF Cons.prems(1) f(1)] f(3,4) this]
  have "snd (converse persist (f # fs) c) = snd (converse persist fs ?c)"
    using Cons.prems(4) by (simp add: Let_def split: prod.splits)
  moreover have "last_announced (f # fs) (co_boot c) = last_announced fs (co_boot ?c)"
    by (simp add: last_announced_def answer_announced)
  ultimately show ?case
    by (simp only: IH answer_live [OF Cons.prems(1) f(1)] list.set image_insert insert_iff
        eq_commute [of "Some b" "announced f"] disj_ac)
qed

text \<open>A boot the connection announced and then replaced by another stays live after it.\<close>

lemma replaced_boot_stays_live:
  assumes "engine_inv (co_engine c)" and "\<not> co_done c" and "b1 \<noteq> b2"
  shows "is_live (eng_authority (co_engine (snd (converse persist
    [\<lparr>frame_kind = MsgKind_HELLO, frame_payload = pack_hello w1 b1\<rparr>,
     \<lparr>frame_kind = MsgKind_HELLO, frame_payload = pack_hello w2 b2\<rparr>] c)))) b1"
  using assms unpack_hello_pack [where rest = "[]"]
  by (subst converse_live) (auto simp: loads_nothing_def terminates_nothing_def announced_def last_announced_def)

end
