(* ===== verification/Defaults.thy ===== *)
theory Defaults
  imports Authority Invalidation Query
begin

text \<open>
  The values a default-initialised struct has: the member initialisers of \<^verbatim>\<open>location.hpp\<close>,
  \<^verbatim>\<open>record.hpp\<close>, \<^verbatim>\<open>authority.hpp\<close> and \<^verbatim>\<open>invalidation.hpp\<close>. The programs start from them and set
  what they know.
\<close>

definition default_location :: StateLocation where
  "default_location = \<lparr>loc_placement_id = null_id, loc_replica_id = null_id, loc_node_id = null_id,
     loc_device_id = null_id, loc_domain_id = null_id, loc_domain = MemoryDomain_UNKNOWN,
     loc_backend = StorageBackend_UNKNOWN, loc_tier = StorageTier_UNKNOWN,
     loc_location_generation = unset_gen, loc_placement_generation = unset_gen,
     loc_replica_generation = unset_gen, loc_address = [], loc_byte_size = 0,
     loc_access_class = AccessClass_UNKNOWN, loc_health = Health_UNKNOWN, loc_freshness = Freshness_UNKNOWN,
     loc_provenance = Evidence_SYNTHETIC, loc_locality_metadata = [], loc_retrieval = default_estimate,
     loc_observation_generation = unset_gen, loc_provenance_generation = unset_gen,
     loc_authority_epoch = unset_gen, loc_authority_boot = null_id, loc_created_at = 0,
     loc_updated_at = 0, loc_process_handle = None, loc_process_scope = None\<rparr>"

definition default_record :: StateRecord where
  "default_record = \<lparr>rec_record_id = null_id, rec_state_id = null_id, rec_state_generation = unset_gen,
     rec_record_generation = unset_gen, rec_kind = StateKind_GENERIC_STATE, rec_namespace_id = null_id,
     rec_owner_id = null_id, rec_producer_id = null_id, rec_logical_size = 0,
     rec_content_digest = [], rec_compatibility = None, rec_provenance = None, rec_dependencies = [],
     rec_locations = [], rec_lifecycle = Lifecycle_DISCOVERED, rec_freshness = Freshness_UNKNOWN,
     rec_health = Health_UNKNOWN, rec_policy_generation = unset_gen, rec_authority_epoch = unset_gen,
     rec_authority_boot = null_id, rec_created_at = 0, rec_updated_at = 0,
     rec_supersedes_generation = unset_gen, rec_description = [], rec_semantic_digest = [],
     rec_is_historical = False\<rparr>"

definition default_envelope :: MutationEnvelope where
  "default_envelope = \<lparr>env_coordinator_epoch = unset_gen, env_worker_id = null_id, env_worker_boot = null_id,
     env_attempt_generation = unset_gen, env_dispatch_generation = unset_gen,
     env_state_generation = unset_gen, env_record_generation = unset_gen, env_owner_generation = unset_gen,
     env_producer_generation = unset_gen, env_worker_generation = unset_gen,
     env_location_generation = unset_gen, env_placement_generation = unset_gen,
     env_replica_generation = unset_gen, env_compatibility_generation = unset_gen,
     env_provenance_generation = unset_gen, env_dependency_generation = unset_gen,
     env_observation_generation = unset_gen, env_policy_generation = unset_gen\<rparr>"

definition default_invalidation :: InvalidationRecord where
  "default_invalidation = \<lparr>inv_invalidation_seq = 0, inv_invalidation_id = null_id, inv_state_id = null_id,
     inv_bound_generation = unset_gen, inv_coordinator_epoch = unset_gen, inv_worker_boot = null_id,
     inv_record_generation = unset_gen, inv_location_generation = unset_gen,
     inv_compatibility_generation = unset_gen, inv_provenance_generation = unset_gen,
     inv_dependency_generation = unset_gen, inv_policy_generation = unset_gen, inv_reason = [],
     inv_timestamp = 0, inv_evidence = Evidence_MEASURED, inv_current = True\<rparr>"

definition default_tombstone :: TombstoneRecord where
  "default_tombstone = \<lparr>tomb_tombstone_id = null_id, tomb_state_id = null_id,
     tomb_floor_generation = unset_gen, tomb_coordinator_epoch = unset_gen, tomb_worker_boot = null_id,
     tomb_reason = [], tomb_timestamp = 0, tomb_evidence = Evidence_MEASURED, tomb_current = True\<rparr>"

lemma default_location_valid: "StateLocation_valid default_location"
  by (simp add: StateLocation_valid_def default_location_def RetrievalEstimate_valid_def default_estimate_def)

lemma default_record_valid: "StateRecord_valid default_record"
  by (simp add: StateRecord_valid_def default_record_def)

lemma default_invalidation_valid: "InvalidationRecord_valid default_invalidation"
  by (simp add: InvalidationRecord_valid_def default_invalidation_def)

lemma default_tombstone_valid: "TombstoneRecord_valid default_tombstone"
  by (simp add: TombstoneRecord_valid_def default_tombstone_def)

lemma envelope_valid [simp]: "MutationEnvelope_valid env"
  by (simp add: MutationEnvelope_valid_def)

end
