(* ===== verification/Worker.thy ===== *)
theory Worker
  imports Msgs Transport Args Defaults "HOL-Library.Monad_Syntax"
begin

text \<open>
  The worker process, \<^verbatim>\<open>src/worker_main.cpp\<close>: it says hello, then turns each line of a script into a
  message, waits for the reply and prints it. \<open>command\<close> is the chain of \<^verbatim>\<open>if\<close>s over the first word of
  a line; \<open>None\<close> is the undefined behaviour of reading a word the line does not have.
\<close>

unbundle bit_operations_syntax

section \<open>Records and locations\<close>

definition worker_placement :: "StateId \<Rightarrow> u64 \<Rightarrow> PlacementId" where
  "worker_placement st g = StrongId (push_bit 24 (id_value st) OR push_bit 8 g OR 1)"

definition worker_record_id :: "StateId \<Rightarrow> StateGeneration \<Rightarrow> StateRecordId" where
  "worker_record_id st gen = StrongId (push_bit 32 (id_value st) OR gen_value gen)"

definition worker_kind :: "string \<Rightarrow> StateKind" where
  "worker_kind kind =
     (if kind = ''tensor'' then StateKind_TENSOR_STATE
      else if kind = ''artifact'' then StateKind_MODEL_ARTIFACT
      else if kind = ''kv'' then StateKind_KV_STATE
      else StateKind_GENERIC_STATE)"

definition worker_domain :: "string \<Rightarrow> MemoryDomain" where
  "worker_domain domain =
     (if domain = ''cuda'' then MemoryDomain_CUDA_DEVICE
      else if domain = ''file'' then MemoryDomain_LOCAL_FILESYSTEM
      else MemoryDomain_HOST_MEMORY)"

definition worker_backend :: "MemoryDomain \<Rightarrow> StorageBackend" where
  "worker_backend d = (if d = MemoryDomain_CUDA_DEVICE then StorageBackend_CUDA else StorageBackend_MEMORY)"

text \<open>The location both \<^verbatim>\<open>build_record\<close> and the \<^verbatim>\<open>addloc\<close> command fill in; they differ in the estimate.\<close>

definition worker_location ::
  "StateId \<Rightarrow> u64 \<Rightarrow> string \<Rightarrow> u64 \<Rightarrow> u64 \<Rightarrow> RetrievalEstimate \<Rightarrow> CoordinatorEpoch \<Rightarrow> WorkerBootId \<Rightarrow> StateLocation" where
  "worker_location st g domain node device estimate epoch boot =
     (let p = worker_placement st g; d = worker_domain domain
      in default_location\<lparr>loc_placement_id := p, loc_replica_id := StrongId (id_value p),
        loc_node_id := StrongId node,
        loc_device_id := (if device \<noteq> 0 then StrongId device else null_id),
        loc_domain := d, loc_backend := worker_backend d, loc_tier := StorageTier_HOT,
        loc_location_generation := Generation g, loc_placement_generation := Generation g,
        loc_replica_generation := Generation g,
        loc_address := ''worker://'' @ std_to_string (id_value p), loc_byte_size := 1024,
        loc_access_class := AccessClass_LOCAL, loc_health := Health_HEALTHY,
        loc_freshness := Freshness_CURRENT, loc_provenance := Evidence_MEASURED,
        loc_retrieval := estimate, loc_authority_epoch := epoch, loc_authority_boot := boot\<rparr>)"

definition build_record ::
  "StateId \<Rightarrow> StateGeneration \<Rightarrow> string \<Rightarrow> string \<Rightarrow> string \<Rightarrow> u64 \<Rightarrow> u64 \<Rightarrow> CoordinatorEpoch \<Rightarrow> WorkerBootId \<Rightarrow>
     StateRecord" where
  "build_record st gen kind digest domain node device epoch boot =
     redigest (default_record\<lparr>rec_record_id := worker_record_id st gen, rec_state_id := st,
       rec_state_generation := gen, rec_record_generation := Generation (gen_value gen),
       rec_kind := worker_kind kind, rec_namespace_id := StrongId 1, rec_owner_id := StrongId 1,
       rec_producer_id := StrongId 1, rec_logical_size := 1024, rec_content_digest := digest,
       rec_lifecycle := Lifecycle_AVAILABLE, rec_freshness := Freshness_CURRENT, rec_health := Health_HEALTHY,
       rec_policy_generation := Generation 1, rec_created_at := 1000, rec_updated_at := 1000,
       rec_description := ''worker record'',
       rec_locations := [worker_location st (gen_value gen) domain node device
         (default_estimate\<lparr>re_expected_latency_ms := f64_one, re_evidence := Evidence_MEASURED\<rparr>) epoch boot]\<rparr>)"

section \<open>A line of the script\<close>

datatype Command = Skip | SetEpoch CoordinatorEpoch | SetBoot u64 | Send MsgKind bytes

definition arg :: "string list \<Rightarrow> nat \<Rightarrow> string option" where
  "arg t i = (if i < length t then Some (t ! i) else None)"

definition arg_or :: "string list \<Rightarrow> nat \<Rightarrow> string \<Rightarrow> string" where
  "arg_or t i dflt = (if i < length t then t ! i else dflt)"

definition number_or :: "string list \<Rightarrow> nat \<Rightarrow> u64 \<Rightarrow> u64" where
  "number_or t i dflt = (if i < length t then strtoull (t ! i) else dflt)"

definition line_envelope :: "WorkerId \<Rightarrow> WorkerBootId \<Rightarrow> CoordinatorEpoch \<Rightarrow> u64 \<Rightarrow> MutationEnvelope" where
  "line_envelope wid boot epoch boot_override =
     default_envelope\<lparr>env_coordinator_epoch := epoch, env_worker_id := wid,
       env_worker_boot := (if boot_override \<noteq> 0 then StrongId boot_override else boot),
       env_attempt_generation := Generation 1, env_dispatch_generation := Generation 1\<rparr>"

definition register_message ::
  "MutationEnvelope \<Rightarrow> CoordinatorEpoch \<Rightarrow> WorkerBootId \<Rightarrow> string list \<Rightarrow> Command option" where
  "register_message e epoch boot t =
     do { a \<leftarrow> arg t 1; b \<leftarrow> arg t 2;
       let gen = Generation (strtoull b);
           rec = build_record (StrongId (strtoull a)) gen (arg_or t 3 ''generic'') (arg_or t 4 [])
             (arg_or t 5 ''mem'') (number_or t 6 1) (number_or t 7 0) epoch boot
       in Some (Send MsgKind_REGISTER_STATE (pack_register (e\<lparr>env_state_generation := gen\<rparr>) rec)) }"

definition addloc_message ::
  "MutationEnvelope \<Rightarrow> CoordinatorEpoch \<Rightarrow> WorkerBootId \<Rightarrow> string list \<Rightarrow> Command option" where
  "addloc_message e epoch boot t =
     do { a \<leftarrow> arg t 1; b \<leftarrow> arg t 2;
       let st = StrongId (strtoull a); lgen = strtoull b;
           loc = worker_location st lgen (arg_or t 3 ''mem'') (number_or t 4 1) (number_or t 5 0)
             (default_estimate\<lparr>re_evidence := Evidence_MEASURED\<rparr>) epoch boot
       in Some (Send MsgKind_ADD_LOCATION (pack_addloc (e\<lparr>env_location_generation := Generation lgen\<rparr>) st loc)) }"

definition invalidate_message :: "MutationEnvelope \<Rightarrow> string list \<Rightarrow> Command option" where
  "invalidate_message e t =
     do { a \<leftarrow> arg t 1; b \<leftarrow> arg t 2;
       let gen = Generation (strtoull b);
           i = default_invalidation\<lparr>inv_invalidation_id := StrongId 1, inv_state_id := StrongId (strtoull a),
             inv_bound_generation := gen\<rparr>
       in Some (Send MsgKind_INVALIDATE (pack_invalidate (e\<lparr>env_state_generation := gen\<rparr>) i)) }"

definition tombstone_message :: "MutationEnvelope \<Rightarrow> string list \<Rightarrow> Command option" where
  "tombstone_message e t =
     do { a \<leftarrow> arg t 1; b \<leftarrow> arg t 2;
       let gen = Generation (strtoull b);
           tomb = default_tombstone\<lparr>tomb_tombstone_id := StrongId 1, tomb_state_id := StrongId (strtoull a),
             tomb_floor_generation := gen\<rparr>
       in Some (Send MsgKind_TOMBSTONE (pack_tombstone (e\<lparr>env_state_generation := gen\<rparr>) tomb)) }"

definition query_message :: "string list \<Rightarrow> Command option" where
  "query_message t =
     do { a \<leftarrow> arg t 1;
       payload \<leftarrow> pack_query (default_query\<lparr>qd_query_id := StrongId 1, qd_state_id := Some (StrongId (strtoull a))\<rparr>);
       Some (Send MsgKind_QUERY payload) }"

definition command :: "WorkerId \<Rightarrow> WorkerBootId \<Rightarrow> CoordinatorEpoch \<Rightarrow> u64 \<Rightarrow> string list \<Rightarrow> Command option" where
  "command wid boot epoch boot_override t =
     (let cmd = t ! 0; e = line_envelope wid boot epoch boot_override in
      if cmd = ''epoch'' then do { a \<leftarrow> arg t 1; Some (SetEpoch (Generation (strtoull a))) }
      else if cmd = ''boot'' then do { a \<leftarrow> arg t 1; Some (SetBoot (strtoull a)) }
      else if cmd = ''register'' then register_message e epoch boot t
      else if cmd = ''addloc'' then addloc_message e epoch boot t
      else if cmd = ''invalidate'' then invalidate_message e t
      else if cmd = ''tombstone'' then tombstone_message e t
      else if cmd = ''query'' then query_message t
      else if cmd = ''save'' then do { a \<leftarrow> arg t 1; Some (Send MsgKind_SAVE (pack_path a)) }
      else if cmd = ''terminate'' then Some (Send MsgKind_TERMINATE [])
      else Some Skip)"

definition script_command ::
  "WorkerId \<Rightarrow> WorkerBootId \<Rightarrow> CoordinatorEpoch \<Rightarrow> u64 \<Rightarrow> string \<Rightarrow> Command option" where
  "script_command wid boot epoch boot_override line =
     (if line = [] \<or> hd line = CHR ''#'' then Some Skip
      else if split line = [] then Some Skip
      else command wid boot epoch boot_override (split line))"

section \<open>The reply\<close>

definition report :: "string \<Rightarrow> Frame \<Rightarrow> exn + string" where
  "report cmd resp =
     (case frame_kind resp of
        MsgKind_MUTATION_RESULT \<Rightarrow>
          (case unpack_mutation_result (frame_payload resp) of Inl x \<Rightarrow> Inl x
           | Inr (v, reason) \<Rightarrow>
               Inr (''CMD '' @ cmd @ '' VERDICT='' @ MutationVerdict_to_string v @ '' ('' @ reason @ '')'' @ [CHR 0x0A]))
      | MsgKind_QUERY_RESULT \<Rightarrow>
          (case unpack_query_result (frame_payload resp) of Inl x \<Rightarrow> Inl x
           | Inr qr \<Rightarrow>
               Inr (''CMD '' @ cmd @ '' OUTCOME='' @ QueryOutcome_to_string (qr_outcome qr) @ '' cnt='' @
                 decimal (length (qr_ranked_candidates qr)) @
                 (case qr_selected_generation qr of None \<Rightarrow> [] | Some g \<Rightarrow> '' SELECTED_GEN='' @ gen_to_string g) @
                 [CHR 0x0A]))
      | MsgKind_ACK \<Rightarrow> Inr (''CMD '' @ cmd @ '' OK'' @ [CHR 0x0A])
      | _ \<Rightarrow> Inr [])"

section \<open>The process\<close>

text \<open>The loop over the lines. The result is the exception that ended it, if one did, what was printed,
  and the socket; \<open>None\<close> is undefined behaviour.\<close>

fun run_script ::
  "'s recv \<Rightarrow> 's send \<Rightarrow> WorkerId \<Rightarrow> WorkerBootId \<Rightarrow> CoordinatorEpoch \<Rightarrow> u64 \<Rightarrow> string list \<Rightarrow> 's \<Rightarrow> string \<Rightarrow>
     (exn option \<times> string \<times> 's) option" where
  "run_script recv send wid boot epoch boot_override [] s out = Some (None, out, s)"
| "run_script recv send wid boot epoch boot_override (line # lines) s out =
     (case script_command wid boot epoch boot_override line of
        None \<Rightarrow> None
      | Some Skip \<Rightarrow> run_script recv send wid boot epoch boot_override lines s out
      | Some (SetEpoch g) \<Rightarrow> run_script recv send wid boot g boot_override lines s out
      | Some (SetBoot b) \<Rightarrow> run_script recv send wid boot epoch b lines s out
      | Some (Send kind payload) \<Rightarrow>
          (case send_frame send kind payload s of (Some x, s1) \<Rightarrow> Some (Some x, out, s1)
           | (None, s1) \<Rightarrow>
               (case recv_frame recv s1 of (Inl x, s2) \<Rightarrow> Some (Some x, out, s2)
                | (Inr resp, s2) \<Rightarrow>
                    (case report (split line ! 0) resp of Inl x \<Rightarrow> Some (Some x, out, s2)
                     | Inr printed \<Rightarrow>
                         if kind = MsgKind_TERMINATE then Some (None, out @ printed, s2)
                         else run_script recv send wid boot epoch boot_override lines s2 (out @ printed)))))"

definition ack_epoch :: "Frame \<Rightarrow> exn + CoordinatorEpoch" where
  "ack_epoch ack =
     (if frame_kind ack = MsgKind_HELLO_ACK then unpack_epoch (frame_payload ack) else Inr (Generation 1))"

definition worker_main ::
  "'s recv \<Rightarrow> 's send \<Rightarrow> WorkerId \<Rightarrow> WorkerBootId \<Rightarrow> string \<Rightarrow> 's \<Rightarrow> (exn option \<times> string \<times> 's) option" where
  "worker_main recv send wid boot script s =
     (case send_frame send MsgKind_HELLO (pack_hello wid boot) s of (Some x, s1) \<Rightarrow> Some (Some x, [], s1)
      | (None, s1) \<Rightarrow>
          (case recv_frame recv s1 of (Inl x, s2) \<Rightarrow> Some (Some x, [], s2)
           | (Inr ack, s2) \<Rightarrow>
               (case ack_epoch ack of Inl x \<Rightarrow> Some (Some x, [], s2)
                | Inr epoch \<Rightarrow> run_script recv send wid boot epoch 0 (getlines script) s2 [])))"

end
