(* ===== verification/Explain.thy ===== *)
theory Explain
  imports Planner
begin

text \<open>
  The \<^verbatim>\<open>explain_\<close> methods of \<^verbatim>\<open>src/engine.cpp\<close>: the text an operator reads about a query, a candidate,
  a refusal or an event. \<open>nl\<close> is the newline character.
\<close>

abbreviation nl :: string where
  "nl \<equiv> [CHR 0x0A]"

definition explain_selected :: "QueryResult \<Rightarrow> string" where
  "explain_selected r =
     (case qr_selected_record_id r of None \<Rightarrow> []
      | Some rid \<Rightarrow>
          ''Selected '' @ id_to_string rid @ '' gen ''
          @ gen_to_string (case qr_selected_generation r of None \<Rightarrow> unset_gen | Some g \<Rightarrow> g)
          @ '' at placement ''
          @ (case qr_selected_placement r of None \<Rightarrow> ''none'' | Some p \<Rightarrow> id_to_string p) @ nl
          @ ''authority boot '' @ qr_authority_boot r @ '' provenance '' @ Evidence_to_string (qr_provenance r) @ nl)"

definition explain_ranking :: "nat \<Rightarrow> CandidateRanking \<Rightarrow> string" where
  "explain_ranking i c =
     ''  rank['' @ std_to_string (of_nat i) @ ''] '' @ id_to_string (cr_record_id c) @ '' gen ''
     @ gen_to_string (cr_generation c) @ '': ''
     @ concat (List.map (\<lambda>(f, v). RankingFactor_to_string f @ ''='' @ f64_to_string v @ '' '') (cr_factors c))
     @ nl"

definition explain_eliminated :: "EliminatedCandidate \<Rightarrow> string" where
  "explain_eliminated el =
     ''  eliminated '' @ id_to_string (el_record_id el) @ '': '' @ RejectionReason_to_string (el_reason el)
     @ '' ('' @ el_note el @ '')'' @ nl"

definition explain_query :: "QueryDescriptor \<Rightarrow> QueryResult \<Rightarrow> string" where
  "explain_query q r =
     ''Query '' @ id_to_string (qd_query_id q) @ '' ('' @ gen_to_string (qd_query_generation q) @ '') -> ''
     @ QueryOutcome_to_string (qr_outcome r) @ nl
     @ qr_summary r @ nl
     @ explain_selected r
     @ concat (List.map (\<lambda>(i, c). explain_ranking i c) (enumerate 0 (qr_ranked_candidates r)))
     @ concat (List.map explain_eliminated (qr_eliminated r))"

text \<open>The notes and the factor names run in parallel; the engine's candidates have one note per factor.\<close>

definition explain_candidate :: "CandidateAssessment \<Rightarrow> string" where
  "explain_candidate c =
     ''StateGeneration '' @ gen_to_string (ca_generation c) @ '' of record '' @ id_to_string (ca_record_id c)
     @ (if ca_in_scope c then
          '' selected because it is current, compatible, and its location is usable''
          @ concat (List.map (\<lambda>(f, note). '' ['' @ RankingFactor_to_string f @ '': '' @ note @ '']'')
              (zip factor_order (ca_factor_notes c)))
        else '' rejected: '' @ RejectionReason_to_string (ca_rejection c) @ '' ('' @ ca_rejection_note c @ '')'')"

definition explain_rejection :: "RejectionReason \<Rightarrow> string \<Rightarrow> string" where
  "explain_rejection r note = ''Candidate rejected: '' @ RejectionReason_to_string r @ ''. '' @ note"

definition explain_invalidation :: "InvalidationRecord \<Rightarrow> string" where
  "explain_invalidation i =
     ''State invalidation for '' @ id_to_string (inv_state_id i) @ '' through generation ''
     @ gen_to_string (inv_bound_generation i) @ '' by boot '' @ id_to_string (inv_worker_boot i)
     @ '' at epoch '' @ gen_to_string (inv_coordinator_epoch i) @ '' reason: '' @ inv_reason i"

definition explain_tombstone :: "TombstoneRecord \<Rightarrow> string" where
  "explain_tombstone t =
     ''State tombstone '' @ id_to_string (tomb_tombstone_id t) @ '' for '' @ id_to_string (tomb_state_id t)
     @ '' floor generation '' @ gen_to_string (tomb_floor_generation t) @ '' by boot ''
     @ id_to_string (tomb_worker_boot t) @ '' reason: '' @ tomb_reason t"

definition explain_supersession :: "StateRecord \<Rightarrow> StateRecord \<Rightarrow> string" where
  "explain_supersession cur previous =
     ''State '' @ id_to_string (rec_state_id cur) @ '' generation '' @ gen_to_string (rec_state_generation cur)
     @ '' supersedes generation '' @ gen_to_string (rec_state_generation previous)
     @ '' ('' @ id_to_string (rec_record_id previous) @ '' retained as historical)''"

definition explain_recovery :: "string \<Rightarrow> string" where
  "explain_recovery note =
     ''Recovered: '' @ note @ ''. Live worker authority cleared; physical locations require revalidation.''"

definition explain_location :: "StateLocation \<Rightarrow> string" where
  "explain_location l =
     ''Location '' @ id_to_string (loc_placement_id l) @ '' node '' @ id_to_string (loc_node_id l)
     @ (if id_bool (loc_device_id l) then '' device '' @ id_to_string (loc_device_id l) else [])
     @ '' domain '' @ MemoryDomain_to_string (loc_domain l) @ '' health '' @ Health_to_string (loc_health l)
     @ '' freshness '' @ Freshness_to_string (loc_freshness l)
     @ '' provenance '' @ Evidence_to_string (loc_provenance l)"

text \<open>An assessment the planner made explains itself by its factors, one bracket each, or by the reason
  that rejected it.\<close>

lemma explain_evaluated:
  "explain_candidate (evaluate_candidate e rec q) =
     ''StateGeneration '' @ gen_to_string (rec_state_generation rec) @ '' of record '' @ id_to_string (rec_record_id rec)
     @ (case first_rejection (candidate_filters e rec q) of
          Some (r, note) \<Rightarrow> '' rejected: '' @ RejectionReason_to_string r @ '' ('' @ note @ '')''
        | None \<Rightarrow> '' selected because it is current, compatible, and its location is usable''
            @ concat (List.map (\<lambda>f. '' ['' @ RankingFactor_to_string f @ '': ''
                @ snd (factor_of rec q (the (best_location q (usable_locations rec q))) f) @ '']'') factor_order))"
  by (auto simp: evaluate_candidate_def rejected_candidate_def accepted_candidate_def explain_candidate_def
      zip_map2 zip_same_conv_map comp_def split: option.split)

end
