(* ===== verification/Cli.thy ===== *)
theory Cli
  imports Worker Disk Explain
begin

text \<open>
  The command-line program, \<^verbatim>\<open>src/cli_main.cpp\<close>: its record builders, \<^verbatim>\<open>register_with\<close>, and \<^verbatim>\<open>main\<close> as
  a function from the arguments and the disk to the exit code, the text printed and the disk after.
  \<open>None\<close> is undefined behaviour: an argument that is not there, the contents of an empty optional, or
  a rate that does not fit its integer. The elapsed time of the benchmark is a parameter.
\<close>

section \<open>Builders\<close>

definition g_boot :: WorkerBootId where
  "g_boot = StrongId 9000"

definition g_persist :: string where
  "g_persist = ''state-index.bin''"

definition parse_kind :: "string \<Rightarrow> StateKind" where
  "parse_kind s =
     (if s = ''kv'' then StateKind_KV_STATE
      else if s = ''tensor'' then StateKind_TENSOR_STATE
      else if s = ''artifact'' then StateKind_MODEL_ARTIFACT
      else if s = ''kernel'' then StateKind_COMPILED_KERNEL
      else if s = ''graph'' then StateKind_EXECUTION_GRAPH
      else if s = ''checkpoint'' then StateKind_CHECKPOINT
      else if s = ''adapter'' then StateKind_ADAPTER
      else StateKind_GENERIC_STATE)"

definition cli_domain :: "string \<Rightarrow> MemoryDomain" where
  "cli_domain domain =
     (if domain = ''cuda'' then MemoryDomain_CUDA_DEVICE
      else if domain = ''file'' then MemoryDomain_LOCAL_FILESYSTEM
      else if domain = ''sync-remote'' then MemoryDomain_SYNTHETIC_REMOTE
      else MemoryDomain_HOST_MEMORY)"

definition cli_backend :: "MemoryDomain \<Rightarrow> StorageBackend" where
  "cli_backend d =
     (if d = MemoryDomain_CUDA_DEVICE then StorageBackend_CUDA
      else if d = MemoryDomain_LOCAL_FILESYSTEM then StorageBackend_FILE else StorageBackend_MEMORY)"

definition make_loc :: "StateId \<Rightarrow> StateGeneration \<Rightarrow> string \<Rightarrow> u64 \<Rightarrow> u64 \<Rightarrow> StateLocation" where
  "make_loc st gen domain node device =
     (let p = worker_placement st (gen_value gen); d = cli_domain domain;
          remote = (d = MemoryDomain_SYNTHETIC_REMOTE);
          evidence = (if remote then Evidence_SYNTHETIC else Evidence_MEASURED)
      in default_location\<lparr>loc_placement_id := p, loc_replica_id := StrongId (id_value p),
        loc_node_id := StrongId node,
        loc_device_id := (if device \<noteq> 0 then StrongId device else null_id),
        loc_domain := d, loc_backend := cli_backend d, loc_tier := StorageTier_HOT,
        loc_location_generation := Generation (gen_value gen),
        loc_placement_generation := Generation (gen_value gen),
        loc_replica_generation := Generation (gen_value gen),
        loc_address := ''cli://'' @ std_to_string (id_value p), loc_byte_size := 1024,
        loc_access_class := (if remote then AccessClass_REMOTE else AccessClass_LOCAL),
        loc_health := Health_HEALTHY, loc_freshness := Freshness_CURRENT, loc_provenance := evidence,
        loc_retrieval := default_estimate\<lparr>re_expected_latency_ms := f64_of_nat (if remote then 50 else 1),
          re_evidence := evidence\<rparr>,
        loc_authority_epoch := Generation 1, loc_authority_boot := g_boot\<rparr>)"

definition make_rec :: "StateId \<Rightarrow> StateGeneration \<Rightarrow> string \<Rightarrow> string \<Rightarrow> u64 \<Rightarrow> u64 \<Rightarrow> StateRecord" where
  "make_rec st gen kind domain node device =
     redigest (default_record\<lparr>rec_record_id := worker_record_id st gen, rec_state_id := st,
       rec_state_generation := gen, rec_record_generation := Generation (gen_value gen),
       rec_kind := parse_kind kind, rec_namespace_id := StrongId 1, rec_owner_id := StrongId 1,
       rec_producer_id := StrongId 1, rec_logical_size := 1024,
       rec_lifecycle := Lifecycle_AVAILABLE, rec_freshness := Freshness_CURRENT, rec_health := Health_HEALTHY,
       rec_policy_generation := Generation 1, rec_created_at := 1000, rec_updated_at := 1000,
       rec_description := ''cli record'', rec_locations := [make_loc st gen domain node device]\<rparr>)"

definition env_for :: "StateIndexEngine \<Rightarrow> MutationEnvelope" where
  "env_for e =
     default_envelope\<lparr>env_coordinator_epoch := auth_epoch (eng_authority e), env_worker_boot := g_boot,
       env_attempt_generation := Generation 1, env_dispatch_generation := Generation 1\<rparr>"

section \<open>Commands\<close>

definition register_with :: "StateRecord \<Rightarrow> StateIndexEngine \<Rightarrow> string \<times> StateIndexEngine" where
  "register_with r e =
     (let e1 = (if is_live (eng_authority e) g_boot then e else register_worker (StrongId 1) g_boot e);
          (v, e2) = register_state r ((env_for e1)\<lparr>env_state_generation := rec_state_generation r\<rparr>) e1
      in (if mvd_verdict v \<noteq> MutationVerdict_ACCEPTED
          then ''  (register '' @ id_to_string (rec_state_id r) @ '' gen '' @ gen_to_string (rec_state_generation r) @
            '': '' @ MutationVerdict_to_string (mvd_verdict v) @ '' '' @ mvd_reason v @ '')'' @ [CHR 0x0A]
          else [], e2))"

definition print_state_location :: "StateLocation \<Rightarrow> string" where
  "print_state_location l =
     ''  Location='' @ id_to_string (loc_placement_id l) @ '' Domain='' @ MemoryDomain_to_string (loc_domain l) @
     '' Node='' @ id_to_string (loc_node_id l) @
     (if id_bool (loc_device_id l) then '' Device='' @ id_to_string (loc_device_id l) else []) @
     '' Health='' @ Health_to_string (loc_health l) @ '' Freshness='' @ Freshness_to_string (loc_freshness l) @
     '' Provenance='' @ Evidence_to_string (loc_provenance l) @ [CHR 0x0A]"

definition print_state_record :: "StateRecord \<Rightarrow> string" where
  "print_state_record r =
     ''StateId='' @ id_to_string (rec_state_id r) @ '' Gen='' @ gen_to_string (rec_state_generation r) @
     '' Kind='' @ StateKind_to_string (rec_kind r) @ '' Lifecycle='' @ Lifecycle_to_string (rec_lifecycle r) @
     '' Freshness='' @ Freshness_to_string (rec_freshness r) @ '' Health='' @ Health_to_string (rec_health r) @
     '' Authority='' @ id_to_string (rec_authority_boot r) @ '' Digest='' @ take 16 (rec_semantic_digest r) @ [CHR 0x0A] @
     concat (List.map print_state_location (rec_locations r))"

text \<open>A command reads the arguments and the engine loaded at the start, and returns what it prints and
  the engine after it.\<close>

definition cmd_add :: "string list \<Rightarrow> StateIndexEngine \<Rightarrow> (string \<times> StateIndexEngine) option" where
  "cmd_add argv e =
     do { a \<leftarrow> arg argv 2; b \<leftarrow> arg argv 3;
       let st = StrongId (strtoull a); gen = Generation (strtoull b);
           (note, e1) = register_with (make_rec st gen (arg_or argv 4 ''kv'') (arg_or argv 5 ''mem'')
             (number_or argv 6 1) (number_or argv 7 0)) e
       in (case get_record e1 (worker_record_id st gen) of None \<Rightarrow> None
           | Some r \<Rightarrow> Some (note @ print_state_record r, e1)) }"

definition cmd_supersede :: "string list \<Rightarrow> StateIndexEngine \<Rightarrow> (string \<times> StateIndexEngine) option" where
  "cmd_supersede argv e =
     do { a \<leftarrow> arg argv 2; b \<leftarrow> arg argv 3;
       Some (register_with (make_rec (StrongId (strtoull a)) (Generation (strtoull b)) ''kv'' ''mem'' 1 0) e) }"

definition outcome_line :: "QueryResult \<Rightarrow> string" where
  "outcome_line res =
     ''outcome='' @ QueryOutcome_to_string (qr_outcome res) @ '' candidates='' @
     decimal (length (qr_ranked_candidates res)) @ [CHR 0x0A]"

definition show_result :: "QueryResult \<Rightarrow> StateIndexEngine \<Rightarrow> string" where
  "show_result res e =
     outcome_line res @
     concat (List.map (\<lambda>x. ''  eliminated '' @ id_to_string (el_record_id x) @ '': '' @
       RejectionReason_to_string (el_reason x) @ '' ('' @ el_note x @ '')'' @ [CHR 0x0A]) (qr_eliminated res)) @
     concat (List.map (\<lambda>x. ''  candidate '' @ id_to_string (cr_record_id x) @ '' gen '' @
       gen_to_string (cr_generation x) @ '': '' @ cr_summary x @ [CHR 0x0A]) (qr_ranked_candidates res)) @
     (case qr_selected_record_id res of None \<Rightarrow> []
      | Some rid \<Rightarrow> (case get_record e rid of None \<Rightarrow> [] | Some r \<Rightarrow> print_state_record r))"

definition cmd_show :: "string list \<Rightarrow> StateIndexEngine \<Rightarrow> (string \<times> StateIndexEngine) option" where
  "cmd_show argv e =
     do { a \<leftarrow> arg argv 2;
       let (res, e1) = query (default_query\<lparr>qd_query_id := StrongId 1, qd_state_id := Some (StrongId (strtoull a))\<rparr>) e
       in Some (show_result res e1, e1) }"

definition cmd_query_kind :: "string list \<Rightarrow> StateIndexEngine \<Rightarrow> (string \<times> StateIndexEngine) option" where
  "cmd_query_kind argv e =
     do { a \<leftarrow> arg argv 2;
       let (res, e1) = query (default_query\<lparr>qd_query_id := StrongId 2, qd_kind := Some (parse_kind a)\<rparr>) e
       in Some (outcome_line res, e1) }"

definition cmd_locations :: "string list \<Rightarrow> StateIndexEngine \<Rightarrow> (string \<times> StateIndexEngine) option" where
  "cmd_locations argv e =
     do { a \<leftarrow> arg argv 2;
       let st = StrongId (strtoull a)
       in Some (case get_record e (worker_record_id st (Generation 1)) of
           None \<Rightarrow> ''state '' @ id_to_string st @ '' not found'' @ [CHR 0x0A]
         | Some r \<Rightarrow> concat (List.map (\<lambda>l. explain_location l @ [CHR 0x0A]) (rec_locations r)), e) }"

definition verdict_line :: "MutationVerdictDetail \<Rightarrow> string" where
  "verdict_line v = MutationVerdict_to_string (mvd_verdict v) @ '' '' @ mvd_reason v @ [CHR 0x0A]"

definition cmd_invalidate :: "string list \<Rightarrow> StateIndexEngine \<Rightarrow> (string \<times> StateIndexEngine) option" where
  "cmd_invalidate argv e =
     do { a \<leftarrow> arg argv 2; b \<leftarrow> arg argv 3;
       let gen = Generation (strtoull b);
           i = default_invalidation\<lparr>inv_invalidation_id := StrongId 1, inv_state_id := StrongId (strtoull a),
             inv_bound_generation := gen\<rparr>;
           (v, e1) = invalidate i ((env_for e)\<lparr>env_state_generation := gen\<rparr>) e
       in Some (verdict_line v, e1) }"

definition cmd_tombstone :: "string list \<Rightarrow> StateIndexEngine \<Rightarrow> (string \<times> StateIndexEngine) option" where
  "cmd_tombstone argv e =
     do { a \<leftarrow> arg argv 2; b \<leftarrow> arg argv 3;
       let gen = Generation (strtoull b);
           t = default_tombstone\<lparr>tomb_tombstone_id := StrongId 1, tomb_state_id := StrongId (strtoull a),
             tomb_floor_generation := gen\<rparr>;
           (v, e1) = tombstone t ((env_for e)\<lparr>env_state_generation := gen\<rparr>) e
       in Some (verdict_line v, e1) }"

definition cmd_history :: "string list \<Rightarrow> StateIndexEngine \<Rightarrow> (string \<times> StateIndexEngine) option" where
  "cmd_history argv e =
     do { a \<leftarrow> arg argv 2;
       Some (concat (List.map print_state_record (history_of e (StrongId (strtoull a)))), e) }"

definition cmd_dependencies :: "string list \<Rightarrow> StateIndexEngine \<Rightarrow> (string \<times> StateIndexEngine) option" where
  "cmd_dependencies argv e =
     do { a \<leftarrow> arg argv 2;
       Some (concat (List.map (\<lambda>d. d @ [CHR 0x0A]) (dependencies_of e (StrongId (strtoull a)))), e) }"

definition scenarios :: "string list" where
  "scenarios =
     [''same state on GPU + host'', ''same state on local + remote tier'', ''two nodes with replicas'',
      ''stale replica'', ''degraded replica'', ''incompatible candidate'',
      ''compatible-with-adaptation candidate'', ''exact candidate farther away'',
      ''compatible candidate local'', ''large object vs small object retrieval cost'',
      ''backend generation rollover'', ''node restart'', ''dependency invalidation'',
      ''compatibility generation rollover'', ''provenance generation rollover'',
      ''tombstone prevents stale resurrection'', ''historical query'',
      ''multiple equal candidates deterministic tie-break'', ''unknown freshness'', ''unknown compatibility'']"

definition synthetic_distributed :: string where
  "synthetic_distributed = concat (List.map (\<lambda>s. ''  scenario: '' @ s @ [CHR 0x0A]) scenarios)"

text \<open>The benchmark. \<open>secs\<close> is what the clock says the queries took. For \<^verbatim>\<open>ULLONG_MAX\<close> states its loop
  counter wraps before it passes the bound, so that it does not return.\<close>

definition bench_register :: "StateIndexEngine \<Rightarrow> u64 \<Rightarrow> StateIndexEngine" where
  "bench_register e i =
     snd (register_state (make_rec (StrongId i) (Generation 1) ''kv'' ''mem'' 1 0)
       ((env_for e)\<lparr>env_state_generation := Generation 1\<rparr>) e)"

definition bench_query :: "QueryResult \<times> StateIndexEngine \<Rightarrow> u64 \<Rightarrow> QueryResult \<times> StateIndexEngine" where
  "bench_query re i = query (default_query\<lparr>qd_query_id := StrongId i, qd_state_id := Some (StrongId i)\<rparr>) (snd re)"

definition bench_states :: "u64 \<Rightarrow> u64 list" where
  "bench_states n = List.map of_nat [1..<Suc (unat n)]"

definition benchmark_cmd :: "double \<Rightarrow> string \<Rightarrow> string option" where
  "benchmark_cmd secs a =
     (let n = (if a = [] then 10000 else strtoull a);
          e0 = register_worker (StrongId 1) g_boot (new_engine (Generation 1));
          e1 = foldl bench_register e0 (bench_states n);
          (last, e2) = foldl bench_query (empty_result, e1) (bench_states n);
          q = f64_of_nat (unat n)
      in if n = - 1 then None
         else do { ops \<leftarrow> f64_to_u64 (f64_div q secs);
           ns \<leftarrow> f64_to_u64 (f64_div (f64_mul secs (f64_of_nat (10 ^ 9))) q);
           Some (''records='' @ std_to_string n @ '' candidate_count=1 threads=1'' @
             '' ops/s='' @ std_to_string ops @ '' ns/op='' @ std_to_string ns @
             '' last_outcome='' @ QueryOutcome_to_string (qr_outcome last) @ [CHR 0x0A]) })"

section \<open>\<^verbatim>\<open>main\<close>\<close>

definition usage_line :: string where
  "usage_line = ''usage: state-index <add|show|query|query-kind|locations|supersede|invalidate|tombstone|'' @
     ''history|dependencies|explain|simulate|save|recover|benchmark> [args]'' @ [CHR 0x0A]"

definition epilogue :: "string \<Rightarrow> StateIndexEngine \<Rightarrow> string" where
  "epilogue out e = out @ ''accounting: '' @ acc_summary (eng_accounting e) @ [CHR 0x0A]"

text \<open>The engine of a command: loaded from the default file; whatever the load throws is dropped.\<close>

definition cli_engine :: "Disk \<Rightarrow> StateIndexEngine" where
  "cli_engine d = snd (load_engine g_persist d (new_engine (Generation 1)))"

text \<open>The commands that only use the engine.\<close>

definition engine_command ::
  "string \<Rightarrow> (string list \<Rightarrow> StateIndexEngine \<Rightarrow> (string \<times> StateIndexEngine) option) option" where
  "engine_command cmd =
     (if cmd = ''add'' then Some cmd_add
      else if cmd = ''show'' \<or> cmd = ''query'' \<or> cmd = ''explain'' then Some cmd_show
      else if cmd = ''query-kind'' then Some cmd_query_kind
      else if cmd = ''locations'' then Some cmd_locations
      else if cmd = ''supersede'' then Some cmd_supersede
      else if cmd = ''invalidate'' then Some cmd_invalidate
      else if cmd = ''tombstone'' then Some cmd_tombstone
      else if cmd = ''history'' then Some cmd_history
      else if cmd = ''dependencies'' then Some cmd_dependencies
      else if cmd = ''simulate'' then Some (\<lambda>argv e. Some (synthetic_distributed, e))
      else None)"

text \<open>An exception that leaves \<^verbatim>\<open>main\<close> is \<open>Inl\<close>; only \<^verbatim>\<open>save\<close> and \<^verbatim>\<open>recover\<close> throw.\<close>

definition cli_main :: "double \<Rightarrow> string list \<Rightarrow> Disk \<Rightarrow> ((exn + int \<times> string) \<times> Disk) option" where
  "cli_main secs argv d =
     (if length argv < 2 then Some (Inr (2, usage_line), d)
      else let cmd = argv ! 1; e = cli_engine d; path = arg_or argv 2 g_persist in
        case engine_command cmd of
          Some run \<Rightarrow> (case run argv e of None \<Rightarrow> None
            | Some (out, e1) \<Rightarrow> Some (Inr (0, epilogue out e1), d))
        | None \<Rightarrow>
            if cmd = ''save'' then
              (case save_engine path e d of (Some x, d1) \<Rightarrow> Some (Inl x, d1)
               | (None, d1) \<Rightarrow> Some (Inr (0, epilogue (''saved to '' @ path @ [CHR 0x0A]) e), d1))
            else if cmd = ''recover'' then
              (case load_engine path d e of (Some x, e1) \<Rightarrow> Some (Inl x, d)
               | (None, e1) \<Rightarrow> Some (Inr (0, epilogue (''recovered '' @ path @
                   '' with revalidation required for process-local locations'' @ [CHR 0x0A]) e1), d))
            else if cmd = ''benchmark'' then
              map_option (\<lambda>out. (Inr (0, out), d)) (benchmark_cmd secs (arg_or argv 2 []))
            else Some (Inr (2, ''unknown command: '' @ cmd @ [CHR 0x0A]), d))"

end
