(* ===== verification/Programs.thy ===== *)
theory Programs
  imports Sessions Cli
begin

text \<open>
  What the worker and the command line make of the library: their records are well formed, their
  identifiers are unique within bounds, a worker's line reaches the coordinator's engine as the call
  it stands for, and what the commands of the command line can and cannot do.
\<close>

section \<open>The records the programs build\<close>

lemma default_estimate_valid [simp]:
  "RetrievalEstimate_valid (default_estimate\<lparr>re_evidence := Evidence_MEASURED\<rparr>)"
  "RetrievalEstimate_valid (default_estimate\<lparr>re_expected_latency_ms := l, re_evidence := Evidence_MEASURED\<rparr>)"
  "RetrievalEstimate_valid (default_estimate\<lparr>re_expected_latency_ms := l, re_evidence := Evidence_SYNTHETIC\<rparr>)"
  by (simp_all add: RetrievalEstimate_valid_def default_estimate_def)

lemma short_address: "length (prefix @ std_to_string v) < 2 ^ 64" if "length prefix < 100"
  using that length_std_to_string [of v] by simp

lemma worker_location_valid:
  "RetrievalEstimate_valid estimate \<Longrightarrow> StateLocation_valid (worker_location st g domain node device estimate epoch boot)"
  using short_address [of "''worker://''"]
  by (simp add: StateLocation_valid_def worker_location_def default_location_def worker_domain_def
      worker_backend_def Let_def)

lemma build_record_valid:
  "length digest < 2 ^ 64 \<Longrightarrow> StateRecord_valid (build_record st gen kind digest domain node device epoch boot)"
  by (simp add: StateRecord_valid_def build_record_def redigest_def default_record_def worker_kind_def
      worker_location_valid compute_semantic_digest_def length_sha256_hex kMaxLocationsPerRecord_def
      kMaxDependenciesPerRecord_def)

lemma make_rec_valid: "StateRecord_valid (make_rec st gen kind domain node device)"
proof -
  have "StateLocation_valid (make_loc st gen domain node device)"
    using short_address [of "''cli://''"]
    by (simp add: StateLocation_valid_def make_loc_def default_location_def cli_domain_def cli_backend_def Let_def)
  then show ?thesis
    by (simp add: StateRecord_valid_def make_rec_def redigest_def default_record_def parse_kind_def
        compute_semantic_digest_def length_sha256_hex kMaxLocationsPerRecord_def kMaxDependenciesPerRecord_def)
qed

section \<open>Their identifiers\<close>

lemma small_bit:
  fixes x :: u64
  assumes "x < 2 ^ n" and "n < 64" and "bit x i"
  shows "i < n"
proof (rule ccontr)
  assume "\<not> i < n"
  have "(0 :: u64) < 2 ^ n" using assms(2) by (simp add: word_gt_0 exp_eq_zero_iff)
  then have "uint ((2 :: u64) ^ n) = 2 ^ n" by (rule uint_2p)
  then have "uint x < 2 ^ n" using assms(1) by (simp add: word_less_def)
  also have "\<dots> \<le> 2 ^ i" using \<open>\<not> i < n\<close> by simp
  finally have "uint x div 2 ^ i = 0" by simp
  moreover have "bit (uint x) i" using assms(3) bit_imp_le_length [OF assms(3)] by (simp add: bit_uint_iff)
  ultimately show False by (simp add: bit_iff_odd)
qed

lemma shifted_or_eq:
  fixes a b x y :: u64
  assumes "a < 2 ^ m" "b < 2 ^ m" "x < 2 ^ n" "y < 2 ^ n" "m + n = 64" "0 < m" "0 < n"
  shows "push_bit n a OR x = push_bit n b OR y \<longleftrightarrow> a = b \<and> x = y"
proof
  assume "push_bit n a OR x = push_bit n b OR y"
  then have same: "bit (push_bit n a OR x) i = bit (push_bit n b OR y) i" for i by simp
  have low: "bit x i \<Longrightarrow> i < n" "bit y i \<Longrightarrow> i < n" and high: "bit a i \<Longrightarrow> i < m" "bit b i \<Longrightarrow> i < m" for i
    using small_bit [of x n i] small_bit [of y n i] small_bit [of a m i] small_bit [of b m i] assms by auto
  have "bit x i = bit y i" for i
  proof (cases "i < n")
    case True
    with same [of i] show ?thesis by (simp add: bit_or_iff bit_push_bit_iff)
  next
    case False
    with low show ?thesis by blast
  qed
  moreover have "bit a i = bit b i" for i
    using same [of "n + i"] low [of "n + i"] high [of i] assms(5) by (auto simp: bit_or_iff bit_push_bit_iff)
  ultimately show "a = b \<and> x = y" by (auto intro: bit_eqI)
qed simp

lemma worker_record_id_inject:
  assumes "id_value st < 2 ^ 32" "id_value st' < 2 ^ 32" "gen_value g < 2 ^ 32" "gen_value g' < 2 ^ 32"
  shows "worker_record_id st g = worker_record_id st' g' \<longleftrightarrow> st = st' \<and> g = g'"
  using shifted_or_eq [of "id_value st" 32 "id_value st'" "gen_value g" 32 "gen_value g'"] assms
  by (cases st; cases st'; cases g; cases g') (simp add: worker_record_id_def)

lemma high_bits_clear:
  fixes x :: u64
  assumes "\<And>i. n \<le> i \<Longrightarrow> \<not> bit x i" and "n < 64"
  shows "x < 2 ^ n"
proof -
  have "bit x i \<Longrightarrow> i < n" for i using assms(1) [of i] by (meson not_le)
  then have "take_bit n x = x" by (intro bit_eqI) (auto simp: bit_take_bit_iff)
  then have "uint x = take_bit n (uint x)" by (metis unsigned_take_bit_eq)
  also have "\<dots> < 2 ^ n" by simp
  finally have "uint x < 2 ^ n" .
  moreover have "(0 :: u64) < 2 ^ n" using assms(2) by (simp add: word_gt_0 exp_eq_zero_iff)
  then have "uint ((2 :: u64) ^ n) = 2 ^ n" by (rule uint_2p)
  ultimately show ?thesis by (simp add: word_less_def)
qed

lemma worker_placement_inject:
  assumes "id_value st < 2 ^ 40" "id_value st' < 2 ^ 40" "g < 2 ^ 16" "g' < 2 ^ 16"
  shows "worker_placement st g = worker_placement st' g' \<longleftrightarrow> st = st' \<and> g = g'"
proof -
  have low: "push_bit 8 x OR 1 < (2 :: u64) ^ 24" if "x < 2 ^ 16" for x
  proof (rule high_bits_clear)
    fix i :: nat
    assume "24 \<le> i"
    then show "\<not> bit (push_bit 8 x OR (1 :: u64)) i"
      using small_bit [OF that, of "i - 8"] by (auto simp: bit_or_iff bit_push_bit_iff bit_1_iff)
  qed simp
  have small: "x < 2 ^ 16 \<Longrightarrow> x < (2 :: u64) ^ 56" for x by (simp add: word_less_def)
  have "push_bit 24 (id_value st) OR (push_bit 8 g OR 1) = push_bit 24 (id_value st') OR (push_bit 8 g' OR 1) \<longleftrightarrow>
      id_value st = id_value st' \<and> push_bit 8 g OR 1 = push_bit 8 g' OR 1"
    using shifted_or_eq [of "id_value st" 40 "id_value st'" "push_bit 8 g OR 1" 24 "push_bit 8 g' OR 1"] low assms by simp
  moreover have "push_bit 8 g OR 1 = push_bit 8 g' OR 1 \<longleftrightarrow> g = g'"
    using shifted_or_eq [of g 56 g' 1 8 1] small assms(3,4) by simp
  ultimately show ?thesis
    by (cases st; cases st') (simp add: worker_placement_def or.assoc)
qed

text \<open>A generation of 33 bits runs into the identity: generation \<open>2 ^ 32\<close> of state 1 is given the record
  of its generation 0, and the placement of \<open>2 ^ 16\<close> that of generation 0.\<close>

lemma worker_ids_collide:
  "worker_record_id (StrongId 1) (Generation (2 ^ 32)) = worker_record_id (StrongId 1) (Generation 0)"
  "worker_placement (StrongId 1) (2 ^ 16) = worker_placement (StrongId 1) 0"
  by (simp_all add: worker_record_id_def worker_placement_def)

section \<open>From a line of the script to the engine\<close>

definition request :: "MsgKind \<Rightarrow> bytes \<Rightarrow> Frame" where
  "request kind payload = \<lparr>frame_kind = kind, frame_payload = payload\<rparr>"

text \<open>What a mutation does to the coordinator when it is called in place.\<close>

definition local_call :: "(StateIndexEngine \<Rightarrow> MutationVerdictDetail \<times> StateIndexEngine) \<Rightarrow> Coordinator \<Rightarrow>
    (exn + Reply) \<times> Coordinator" where
  "local_call run c = (Inr (verdict_reply (fst (run (co_engine c)))), c\<lparr>co_engine := snd (run (co_engine c))\<rparr>)"

lemma dispatch_packed:
  "StateRecord_valid rec \<Longrightarrow> dispatch persist (request MsgKind_REGISTER_STATE (pack_register env rec @ rest)) c =
     local_call (register_state rec env) c"
  "StateLocation_valid l \<Longrightarrow> dispatch persist (request MsgKind_ADD_LOCATION (pack_addloc env st l @ rest)) c =
     local_call (add_location st l env) c"
  "dispatch persist (request MsgKind_REMOVE_LOCATION (pack_rmloc env st p @ rest)) c =
     local_call (remove_location st p env) c"
  "InvalidationRecord_valid i \<Longrightarrow> dispatch persist (request MsgKind_INVALIDATE (pack_invalidate env i @ rest)) c =
     local_call (invalidate i env) c"
  "TombstoneRecord_valid t \<Longrightarrow> dispatch persist (request MsgKind_TOMBSTONE (pack_tombstone env t @ rest)) c =
     local_call (tombstone t env) c"
  by (simp_all add: dispatch_def request_def serve_mutation_def local_call_def unpack_register_pack unpack_addloc_pack
      unpack_rmloc_pack unpack_invalidate_pack unpack_tombstone_pack split: prod.splits)

lemma register_line:
  assumes "2 < length t" and "t ! 0 = ''register''" and "length (arg_or t 4 []) < 2 ^ 64"
    and "st = StrongId (strtoull (t ! 1))" and "gen = Generation (strtoull (t ! 2))"
  shows "\<exists>payload. command wid boot epoch ov t = Some (Send MsgKind_REGISTER_STATE payload) \<and>
    dispatch persist (request MsgKind_REGISTER_STATE payload) c =
      local_call (register_state
        (build_record st gen (arg_or t 3 ''generic'') (arg_or t 4 []) (arg_or t 5 ''mem'') (number_or t 6 1)
          (number_or t 7 0) epoch boot)
        ((line_envelope wid boot epoch ov)\<lparr>env_state_generation := gen\<rparr>)) c"
  using assms dispatch_packed(1) [OF build_record_valid [OF assms(3)], where rest = "[]"]
  by (simp add: command_def register_message_def arg_def Let_def)

lemma addloc_line:
  assumes "2 < length t" and "t ! 0 = ''addloc''"
    and "st = StrongId (strtoull (t ! 1))" and "g = strtoull (t ! 2)"
  shows "\<exists>payload. command wid boot epoch ov t = Some (Send MsgKind_ADD_LOCATION payload) \<and>
    dispatch persist (request MsgKind_ADD_LOCATION payload) c =
      local_call (add_location st
        (worker_location st g (arg_or t 3 ''mem'') (number_or t 4 1) (number_or t 5 0)
          (default_estimate\<lparr>re_evidence := Evidence_MEASURED\<rparr>) epoch boot)
        ((line_envelope wid boot epoch ov)\<lparr>env_location_generation := Generation g\<rparr>)) c"
  using assms dispatch_packed(2) [OF worker_location_valid, where rest = "[]"]
  by (simp add: command_def addloc_message_def arg_def Let_def)

lemma line_records_valid:
  "InvalidationRecord_valid (default_invalidation\<lparr>inv_invalidation_id := i, inv_state_id := st, inv_bound_generation := g\<rparr>)"
  "TombstoneRecord_valid (default_tombstone\<lparr>tomb_tombstone_id := i', tomb_state_id := st, tomb_floor_generation := g\<rparr>)"
  by (simp_all add: InvalidationRecord_valid_def TombstoneRecord_valid_def default_invalidation_def default_tombstone_def)

lemma invalidate_line:
  assumes "2 < length t" and "t ! 0 = ''invalidate''"
    and "st = StrongId (strtoull (t ! 1))" and "gen = Generation (strtoull (t ! 2))"
  shows "\<exists>payload. command wid boot epoch ov t = Some (Send MsgKind_INVALIDATE payload) \<and>
    dispatch persist (request MsgKind_INVALIDATE payload) c =
      local_call (invalidate
        (default_invalidation\<lparr>inv_invalidation_id := StrongId 1, inv_state_id := st, inv_bound_generation := gen\<rparr>)
        ((line_envelope wid boot epoch ov)\<lparr>env_state_generation := gen\<rparr>)) c"
  using assms dispatch_packed(4) [OF line_records_valid(1), where rest = "[]"]
  by (simp add: command_def invalidate_message_def arg_def Let_def)

lemma tombstone_line:
  assumes "2 < length t" and "t ! 0 = ''tombstone''"
    and "st = StrongId (strtoull (t ! 1))" and "gen = Generation (strtoull (t ! 2))"
  shows "\<exists>payload. command wid boot epoch ov t = Some (Send MsgKind_TOMBSTONE payload) \<and>
    dispatch persist (request MsgKind_TOMBSTONE payload) c =
      local_call (tombstone
        (default_tombstone\<lparr>tomb_tombstone_id := StrongId 1, tomb_state_id := st, tomb_floor_generation := gen\<rparr>)
        ((line_envelope wid boot epoch ov)\<lparr>env_state_generation := gen\<rparr>)) c"
  using assms dispatch_packed(5) [OF line_records_valid(2), where rest = "[]"]
  by (simp add: command_def tombstone_message_def arg_def Let_def)

section \<open>Loading leaves no worker live\<close>

text \<open>A property of the engine that a loader keeps, whether it succeeds or not.\<close>

definition loader_keeps :: "(StateIndexEngine \<Rightarrow> bool) \<Rightarrow> 'a loader \<Rightarrow> bool" where
  "loader_keeps P l \<longleftrightarrow> (\<forall>r e. P e \<longrightarrow> P (snd (l r e)))"

lemma keeps_reading: "loader_keeps P (reading p)"
  by (simp add: loader_keeps_def reading_def)

lemma keeps_failing: "loader_keeps P (failing msg)"
  by (simp add: loader_keeps_def failing_def)

lemma keeps_updating: "(\<And>e. P e \<Longrightarrow> P (f e)) \<Longrightarrow> loader_keeps P (updating f)"
  by (simp add: loader_keeps_def updating_def)

lemma keeps_bind:
  assumes "loader_keeps P l" and "\<And>a. loader_keeps P (f a)"
  shows "loader_keeps P (bindl l f)"
  unfolding loader_keeps_def
proof (intro allI impI)
  fix r e
  assume "P e"
  with assms(1) have "P (snd (l r e))" by (simp add: loader_keeps_def)
  with assms(2) show "P (snd (bindl l f r e))"
    by (cases "l r e"; cases "fst (l r e)") (auto simp: bindl_def loader_keeps_def split: sum.splits)
qed

lemma keeps_if: "loader_keeps P l \<Longrightarrow> loader_keeps P m \<Longrightarrow> loader_keeps P (if b then l else m)"
  by simp

lemmas keeps_intros = keeps_reading keeps_failing keeps_updating keeps_bind keeps_if

definition nobody_live :: "StateIndexEngine \<Rightarrow> bool" where
  "nobody_live e \<longleftrightarrow> (\<forall>b. \<not> is_live (eng_authority e) b)"

lemma keeps_records: "loader_keeps nobody_live (load_records n ids gens)"
  by (induction n arbitrary: ids gens)
    (auto simp: verify_semantic_digest_def nobody_live_def put_record_def intro!: keeps_intros)

lemma keeps_invalidations: "loader_keeps nobody_live (load_invalidations n)"
  by (induction n) (auto simp: nobody_live_def intro!: keeps_intros)

lemma keeps_tombstones: "loader_keeps nobody_live (load_tombstones n)"
  by (induction n) (auto simp: nobody_live_def intro!: keeps_intros)

lemma keeps_payload: "loader_keeps nobody_live load_payload"
  unfolding load_payload_def
  by (intro keeps_bind keeps_if keeps_reading keeps_failing keeps_records keeps_invalidations keeps_tombstones
      keeps_updating)
    (simp_all add: nobody_live_def load_reset_def rebuild_history_def load_finish_def recompute_current_def
      Let_def is_live_def auth_set_epoch_def clear_live_workers_def)

lemma load_engine_nobody_live: "nobody_live e \<Longrightarrow> nobody_live (snd (load_engine path d e))"
  using keeps_payload
  by (auto simp: load_engine_def load_file_def loader_keeps_def split: sum.splits prod.splits)
    (metis snd_conv)+

lemma cli_nobody_live: "\<not> is_live (eng_authority (cli_engine d)) b"
proof -
  have "nobody_live (new_engine (Generation 1))"
    by (simp add: nobody_live_def new_engine_def new_authority_def is_live_def)
  from load_engine_nobody_live [OF this] show ?thesis by (simp add: cli_engine_def nobody_live_def)
qed

section \<open>What the command line can do\<close>

text \<open>Its envelopes name a boot that nobody registered on the engine it loaded, so that invalidations
  and tombstones are refused.\<close>

lemma cli_guard:
  "guard_authority ((env_for (cli_engine d))\<lparr>env_state_generation := g\<rparr>) (cli_engine d) =
     Some (verdict_detail MutationVerdict_REJECTED_STALE_BOOT ''worker boot is not live'')"
  using cli_nobody_live [of d g_boot] by (simp add: guard_authority_def env_for_def default_envelope_def)

lemma cli_refusals:
  assumes "3 < length argv"
  shows "cmd_invalidate argv (cli_engine d) =
      Some (''REJECTED_STALE_BOOT worker boot is not live'' @ [CHR 0x0A], cli_engine d)"
    and "cmd_tombstone argv (cli_engine d) =
      Some (''REJECTED_STALE_BOOT worker boot is not live'' @ [CHR 0x0A], cli_engine d)"
  using assms
  by (simp_all add: cmd_invalidate_def cmd_tombstone_def arg_def Let_def invalidate_def tombstone_def cli_guard
      verdict_line_def)

text \<open>Only \<^verbatim>\<open>save\<close> writes to the disk, and what it saves is what was loaded: no command leaves a
  record behind.\<close>

lemma cli_disk:
  assumes "cli_main secs argv d = Some (r, d')"
  shows "d' = d \<or> (1 < length argv \<and> argv ! 1 = ''save'' \<and>
    d' = snd (save_engine (arg_or argv 2 g_persist) (cli_engine d) d))"
  using assms
  by (auto simp: cli_main_def Let_def engine_command_def split: if_splits option.splits prod.splits)

text \<open>Adding a record that the engine refuses, and does not have either, takes the contents of an empty
  optional.\<close>

definition cli_joined :: "StateIndexEngine \<Rightarrow> StateIndexEngine" where
  "cli_joined e = (if is_live (eng_authority e) g_boot then e else register_worker (StrongId 1) g_boot e)"

lemma cli_add_refused:
  assumes args: "argv ! 2 = a" "argv ! 3 = b" "3 < length argv"
    and rec: "rec = make_rec (StrongId (strtoull a)) (Generation (strtoull b)) (arg_or argv 4 ''kv'')
      (arg_or argv 5 ''mem'') (number_or argv 6 1) (number_or argv 7 0)"
    and refused: "mvd_verdict (fst (register_state rec
      ((env_for (cli_joined e))\<lparr>env_state_generation := rec_state_generation rec\<rparr>) (cli_joined e))) \<noteq>
        MutationVerdict_ACCEPTED"
    and new: "get_record e (rec_record_id rec) = None"
  shows "cmd_add argv e = None"
proof -
  have "same_but_accounting (cli_joined e) (snd (register_with rec e))"
    using reg.rejected [OF refused]
    by (simp add: register_with_def cli_joined_def [symmetric] Let_def split_beta)
  then have "get_record (snd (register_with rec e)) = get_record (cli_joined e)"
    by (intro ext) (simp add: get_record_def same_but_accounting_fields)
  moreover have "get_record (cli_joined e) = get_record e"
    by (intro ext) (simp add: cli_joined_def register_worker_def get_record_def)
  moreover have "rec_record_id rec = worker_record_id (StrongId (strtoull a)) (Generation (strtoull b))"
    by (simp add: rec make_rec_def redigest_def)
  ultimately show ?thesis using args new by (simp add: cmd_add_def arg_def rec [symmetric] split_beta)
qed

text \<open>Generation 0 is such a request: the registry never accepts it.\<close>

lemma cli_add_generation_zero:
  assumes "3 < length argv" and "strtoull (argv ! 3) = 0"
    and "get_record e (worker_record_id (StrongId (strtoull (argv ! 2))) (Generation 0)) = None"
  shows "cmd_add argv e = None"
proof (rule cli_add_refused [OF refl refl assms(1) refl])
  let ?rec = "make_rec (StrongId (strtoull (argv ! 2))) (Generation (strtoull (argv ! 3))) (arg_or argv 4 ''kv'')
    (arg_or argv 5 ''mem'') (number_or argv 6 1) (number_or argv 7 0)"
  have g: "rec_state_generation ?rec = Generation 0" and id: "rec_record_id ?rec =
      worker_record_id (StrongId (strtoull (argv ! 2))) (Generation 0)"
    using assms(2) by (simp_all add: make_rec_def redigest_def)
  then have "\<not> may_register ?rec env e'" for env e'
    using may_register_above_floor(2) [of ?rec env e'] by (auto simp: is_set_def)
  then show "mvd_verdict (fst (register_state ?rec
      ((env_for (cli_joined e))\<lparr>env_state_generation := rec_state_generation ?rec\<rparr>) (cli_joined e))) \<noteq>
      MutationVerdict_ACCEPTED"
    using register_state_rejected by blast
  show "get_record e (rec_record_id ?rec) = None" using assms(3) by (simp only: id)
qed

end
