(* ===== verification/PlannerFacts.thy ===== *)
theory PlannerFacts
  imports Planner EngineInv "HOL-Library.Multiset" "HOL-Library.Product_Lexorder" "HOL-Library.List_Lexorder"
begin

text \<open>
  What makes the planner correct: the filter chain accepts exactly the admissible records; the
  candidates read off the indexes are those a scan of all records would find; the comparison of
  candidates is a strict weak order when no factor is a NaN, so that the ranking is determined; and
  the factor of a cost falls as the cost grows. The locale \<open>strict_weak_order\<close> is the requirement
  \<^verbatim>\<open>std::sort\<close> puts on a comparison.
\<close>

section \<open>Sorting by a comparison\<close>

lemma mset_insert_by: "mset (insert_by lt x ys) = add_mset x (mset ys)"
  by (induction ys) auto

lemma mset_sort_by [simp]: "mset (sort_by lt xs) = mset xs"
  by (induction xs) (simp_all add: sort_by_def mset_insert_by)

lemma set_sort_by [simp]: "set (sort_by lt xs) = set xs"
  by (metis mset_sort_by set_mset_mset)

lemma length_sort_by [simp]: "length (sort_by lt xs) = length xs"
  by (metis mset_sort_by size_mset)

lemma set_insert_by [simp]: "set (insert_by lt x ys) = insert x (set ys)"
  by (induction ys) auto

locale strict_weak_order =
  fixes lt :: "'a \<Rightarrow> 'a \<Rightarrow> bool" and A :: "'a set"
  assumes asym: "x \<in> A \<Longrightarrow> y \<in> A \<Longrightarrow> lt x y \<Longrightarrow> \<not> lt y x"
    and cotrans: "x \<in> A \<Longrightarrow> y \<in> A \<Longrightarrow> z \<in> A \<Longrightarrow> lt x z \<Longrightarrow> lt x y \<or> lt y z"
begin

lemma trans_lt: "x \<in> A \<Longrightarrow> y \<in> A \<Longrightarrow> z \<in> A \<Longrightarrow> lt x y \<Longrightarrow> lt y z \<Longrightarrow> lt x z"
  by (metis asym cotrans)

lemma sorted_insert_by:
  "x \<in> A \<Longrightarrow> set ys \<subseteq> A \<Longrightarrow> sorted_wrt (\<lambda>a b. \<not> lt b a) ys \<Longrightarrow> sorted_wrt (\<lambda>a b. \<not> lt b a) (insert_by lt x ys)"
proof (induction ys)
  case (Cons y ys)
  show ?case
  proof (cases "lt y x")
    case True
    with Cons show ?thesis by (auto dest: asym)
  next
    case False
    have "\<not> lt z x" if "z \<in> set ys" for z
      using Cons.prems that False cotrans [of z y x] by auto
    with False Cons.prems show ?thesis by auto
  qed
qed simp

lemma sorted_sort_by: "set xs \<subseteq> A \<Longrightarrow> sorted_wrt (\<lambda>a b. \<not> lt b a) (sort_by lt xs)"
proof (induction xs)
  case (Cons x xs)
  then have "sorted_wrt (\<lambda>a b. \<not> lt b a) (insert_by lt x (sort_by lt xs))"
    by (intro sorted_insert_by) auto
  then show ?case by (simp add: sort_by_def)
qed (simp add: sort_by_def)

text \<open>Where distinct elements are comparable there is one sorted arrangement, whatever the algorithm.\<close>

lemma sorted_arrangement_unique:
  assumes "set xs \<subseteq> A" "sorted_wrt lt xs" "sorted_wrt lt ys" "set xs = set ys"
  shows "xs = ys"
  using assms
proof (induction xs arbitrary: ys)
  case (Cons x xs)
  then obtain y zs where ys: "ys = y # zs" by (cases ys) auto
  have irr: "\<not> lt z z" if "z \<in> A" for z using that asym by blast
  have xy: "x = y"
  proof (rule ccontr)
    assume "x \<noteq> y"
    then have "y \<in> set xs" "x \<in> set zs" using Cons.prems ys by auto
    then show False using Cons.prems ys asym [of x y] by auto
  qed
  have "x \<notin> set xs" "y \<notin> set zs" using Cons.prems ys xy irr by auto
  then have "set xs = set zs" using Cons.prems(4) ys xy by auto
  with Cons.IH [of zs] Cons.prems ys xy show ?case by simp
qed simp

lemma sort_by_strict:
  assumes "set xs \<subseteq> A" "distinct xs" "\<And>x y. x \<in> set xs \<Longrightarrow> y \<in> set xs \<Longrightarrow> x \<noteq> y \<Longrightarrow> lt x y \<or> lt y x"
  shows "sorted_wrt lt (sort_by lt xs)"
proof -
  have d: "distinct (sort_by lt xs)" by (metis assms(2) mset_eq_imp_distinct_iff mset_sort_by)
  have "sorted_wrt lt ys" if "sorted_wrt (\<lambda>a b. \<not> lt b a) ys" "distinct ys" "set ys \<subseteq> set xs" for ys
    using that by (induction ys) (use assms(3) in auto)
  from this [OF sorted_sort_by [OF assms(1)] d] show ?thesis by simp
qed

end

section \<open>Filters\<close>

lemma first_rejection_None: "first_rejection fs = None \<longleftrightarrow> (\<forall>f\<in>set fs. f = None)"
  by (induction fs rule: first_rejection.induct) auto

lemma first_rejection_Some: "first_rejection fs = Some r \<Longrightarrow> Some r \<in> set fs"
  by (induction fs rule: first_rejection.induct) auto

lemma reject_if_None [simp]: "reject_if b r n = None \<longleftrightarrow> \<not> b"
  by (simp add: reject_if_def)

lemma admits_iff [simp]: "admits xs x \<longleftrightarrow> xs = [] \<or> x \<in> set xs"
  by (simp add: admits_def)

definition same_identity_as_asked :: "StateRecord \<Rightarrow> QueryDescriptor \<Rightarrow> bool" where
  "same_identity_as_asked rec q \<longleftrightarrow>
     (\<forall>k. qd_kind q = Some k \<longrightarrow> rec_kind rec = k) \<and>
     (\<forall>n. qd_namespace_id q = Some n \<longrightarrow> rec_namespace_id rec = n) \<and>
     (\<forall>i. qd_owner_id q = Some i \<longrightarrow> rec_owner_id rec = i) \<and>
     (\<forall>p. qd_producer_id q = Some p \<longrightarrow> rec_producer_id rec = p) \<and>
     (\<forall>s. qd_state_id q = Some s \<and> \<not> qd_wildcard_state_id q \<longrightarrow> rec_state_id rec = s) \<and>
     (qd_content_digest q \<noteq> [] \<longrightarrow> rec_content_digest rec = qd_content_digest q)"

definition standing :: "StateIndexEngine \<Rightarrow> StateRecord \<Rightarrow> bool" where
  "standing e rec \<longleftrightarrow>
     \<not> is_tombstoned e (rec_state_id rec) (rec_state_generation rec) \<and>
     rec_lifecycle rec \<noteq> Lifecycle_INVALIDATED \<and> rec_lifecycle rec \<noteq> Lifecycle_TOMBSTONED \<and>
     dep_satisfied e rec"

definition generation_asked :: "StateIndexEngine \<Rightarrow> StateRecord \<Rightarrow> QueryDescriptor \<Rightarrow> bool" where
  "generation_asked e rec q \<longleftrightarrow>
     (eng_historical_mode e \<or> qd_include_invalidated q \<or> \<not> retired_lifecycle (rec_lifecycle rec)) \<and>
     (qd_generation_rule q = GenerationRule_CURRENT \<longrightarrow> eng_historical_mode e \<or> is_current_record e rec) \<and>
     (\<forall>m. qd_generation_rule q = GenerationRule_MINIMUM \<and> qd_minimum_generation q = Some m \<longrightarrow>
        m \<le> rec_state_generation rec) \<and>
     (\<forall>x. qd_generation_rule q = GenerationRule_EXACT \<and> qd_exact_generation q = Some x \<longrightarrow>
        rec_state_generation rec = x) \<and>
     (\<forall>a. qd_generation_rule q = GenerationRule_AS_OF \<and> qd_as_of_generation q = Some a \<longrightarrow>
        rec_state_generation rec \<le> a)"

definition evidence_asked :: "StateIndexEngine \<Rightarrow> StateRecord \<Rightarrow> QueryDescriptor \<Rightarrow> bool" where
  "evidence_asked e rec q \<longleftrightarrow>
     (qd_compatibility q \<noteq> CompatibilityRequirement_NONE \<longrightarrow>
        (\<exists>c. rec_compatibility rec = Some c \<and> comp_outcome c \<noteq> CompatibilityOutcome_UNKNOWN \<and>
           satisfies c (qd_compatibility q))) \<and>
     (\<forall>req\<in>set (qd_dependency_requirements q).
        if dr_target_state req \<in> dep_target_state ` set (rec_dependencies rec)
        then \<exists>t. find_state e (dr_target_state req) = Some t \<and> dr_minimum_generation req \<le> rec_state_generation t
        else \<not> dr_required req)"

definition place_asked :: "StateRecord \<Rightarrow> QueryDescriptor \<Rightarrow> bool" where
  "place_asked rec q \<longleftrightarrow> (let ls = usable_locations rec q in
     (qd_required_health q = Health_UNKNOWN \<or> qd_required_health q \<in> loc_health ` set ls) \<and>
     (qd_required_freshness q = Freshness_UNKNOWN \<or>
        \<not> f64_less (freshness_score (rec_freshness rec)) (freshness_score (qd_required_freshness q))) \<and>
     (qd_min_replica_count q = 0 \<or> qd_min_replica_count q \<le> of_nat (length ls)) \<and>
     (\<exists>best. best_location q ls = Some best \<and>
        (f64_less (num 0) (qd_max_retrieval_cost q) \<longrightarrow>
           \<not> f64_less (qd_max_retrieval_cost q) (re_local_access_cost (loc_retrieval best)))))"

definition admissible :: "StateIndexEngine \<Rightarrow> StateRecord \<Rightarrow> QueryDescriptor \<Rightarrow> bool" where
  "admissible e rec q \<longleftrightarrow> same_identity_as_asked rec q \<and> standing e rec \<and> generation_asked e rec q \<and>
     evidence_asked e rec q \<and> place_asked rec q"

lemma identity_filters_None: "(\<forall>f\<in>set (identity_filters rec q). f = None) \<longleftrightarrow> same_identity_as_asked rec q"
  by (auto simp: identity_filters_def same_identity_as_asked_def differs_def split: option.splits)

lemma generation_filter_None:
  "generation_filter e rec q = None \<longleftrightarrow>
     (qd_generation_rule q = GenerationRule_CURRENT \<longrightarrow> eng_historical_mode e \<or> is_current_record e rec) \<and>
     (\<forall>m. qd_generation_rule q = GenerationRule_MINIMUM \<and> qd_minimum_generation q = Some m \<longrightarrow>
        m \<le> rec_state_generation rec) \<and>
     (\<forall>x. qd_generation_rule q = GenerationRule_EXACT \<and> qd_exact_generation q = Some x \<longrightarrow>
        rec_state_generation rec = x) \<and>
     (\<forall>a. qd_generation_rule q = GenerationRule_AS_OF \<and> qd_as_of_generation q = Some a \<longrightarrow>
        rec_state_generation rec \<le> a)"
  by (cases "qd_generation_rule q") (auto simp: generation_filter_def Let_def not_less split: option.split)

lemma compatibility_filter_None:
  "compatibility_filter rec q = None \<longleftrightarrow> (qd_compatibility q \<noteq> CompatibilityRequirement_NONE \<longrightarrow>
     (\<exists>c. rec_compatibility rec = Some c \<and> comp_outcome c \<noteq> CompatibilityOutcome_UNKNOWN \<and>
        satisfies c (qd_compatibility q)))"
  by (auto simp: compatibility_filter_def split: option.split)

lemma has_target: "list_ex (\<lambda>dep. dep_target_state dep = t) ds \<longleftrightarrow> t \<in> dep_target_state ` set ds"
  by (auto simp: list_ex_iff)

lemma requirement_filter_None:
  "requirement_filter e rec req = None \<longleftrightarrow>
     (if dr_target_state req \<in> dep_target_state ` set (rec_dependencies rec)
      then \<exists>t. find_state e (dr_target_state req) = Some t \<and> dr_minimum_generation req \<le> rec_state_generation t
      else \<not> dr_required req)"
  by (simp add: requirement_filter_def Let_def has_target not_less split: option.split)

lemma best_location_fold:
  "foldl (\<lambda>best l. case best of None \<Rightarrow> Some l
      | Some b \<Rightarrow> if f64_less (rank_of q b) (rank_of q l) then Some l else Some b) (Some b) ls = Some m \<Longrightarrow>
   m \<in> insert b (set ls)"
  by (induction ls arbitrary: b) (auto split: if_splits)

lemma best_location_mem: "best_location q ls = Some m \<Longrightarrow> m \<in> set ls"
  by (cases ls) (auto simp: best_location_def dest: best_location_fold)

lemma best_location_fold_Some:
  "\<exists>m. foldl (\<lambda>best l. case best of None \<Rightarrow> Some l
      | Some b \<Rightarrow> if f64_less (rank_of q b) (rank_of q l) then Some l else Some b) (Some b) ls = Some m"
  by (induction ls arbitrary: b) auto

lemma best_location_Some: "ls \<noteq> [] \<Longrightarrow> \<exists>m. best_location q ls = Some m"
  by (cases ls) (simp_all add: best_location_def best_location_fold_Some)

lemma best_location_Nil [simp]: "best_location q [] = None"
  by (simp add: best_location_def)

lemma has_health: "list_ex (\<lambda>l. loc_health l = h) ls \<longleftrightarrow> h \<in> loc_health ` set ls"
  by (auto simp: list_ex_iff)

lemma place_filters_None:
  "(\<forall>f\<in>set (location_filters (usable_locations rec q) q @ final_filters rec q (usable_locations rec q)). f = None)
     \<longleftrightarrow> place_asked rec q"
proof (cases "usable_locations rec q = []")
  case False
  then obtain b where "best_location q (usable_locations rec q) = Some b" using best_location_Some by blast
  with False show ?thesis
    by (simp add: location_filters_def final_filters_def place_asked_def Let_def has_health word_gt_0 not_less)
qed (simp add: location_filters_def place_asked_def)

lemma lifecycle_filters_None:
  "(\<forall>f\<in>set (lifecycle_filters e rec q). f = None) \<longleftrightarrow>
     \<not> is_tombstoned e (rec_state_id rec) (rec_state_generation rec) \<and>
     rec_lifecycle rec \<noteq> Lifecycle_INVALIDATED \<and> rec_lifecycle rec \<noteq> Lifecycle_TOMBSTONED \<and>
     (eng_historical_mode e \<or> qd_include_invalidated q \<or> \<not> retired_lifecycle (rec_lifecycle rec))"
  by (simp add: lifecycle_filters_def)

lemma requirement_filters_None:
  "(\<forall>f\<in>set (List.map (requirement_filter e rec) reqs). f = None) \<longleftrightarrow>
     (\<forall>req\<in>set reqs. requirement_filter e rec req = None)"
  by simp

lemma singleton_filters_None: "(\<forall>f\<in>set [x]. f = None) \<longleftrightarrow> x = None" "(\<forall>f\<in>set [x, y]. f = None) \<longleftrightarrow> x = None \<and> y = None"
  by simp_all

lemma standing_filter_None: "standing_filter e rec = None \<longleftrightarrow> dep_satisfied e rec"
  by (simp add: standing_filter_def)

lemma candidate_filters_None:
  "first_rejection (candidate_filters e rec q) = None \<longleftrightarrow> admissible e rec q"
  unfolding first_rejection_None candidate_filters_def admissible_def standing_def generation_asked_def
    evidence_asked_def identity_filters_None [symmetric] place_filters_None [symmetric]
    generation_filter_None [symmetric] compatibility_filter_None [symmetric] requirement_filter_None [symmetric]
  by (simp only: set_append ball_Un lifecycle_filters_None singleton_filters_None standing_filter_None
      requirement_filters_None) blast

lemma evaluate_in_scope: "ca_in_scope (evaluate_candidate e rec q) \<longleftrightarrow> admissible e rec q"
  unfolding candidate_filters_None [symmetric]
  by (simp add: evaluate_candidate_def rejected_candidate_def accepted_candidate_def split: option.split)

lemma evaluate_ids [simp]:
  "ca_record_id (evaluate_candidate e rec q) = rec_record_id rec"
  "ca_generation (evaluate_candidate e rec q) = rec_state_generation rec"
  by (simp_all add: evaluate_candidate_def rejected_candidate_def accepted_candidate_def split: option.split)

lemma evaluate_admissible:
  assumes "admissible e rec q"
  obtains best where "best_location q (usable_locations rec q) = Some best" "best \<in> set (rec_locations rec)"
    "usable best" "evaluate_candidate e rec q = accepted_candidate rec q best"
proof -
  from assms obtain b where b: "best_location q (usable_locations rec q) = Some b"
    by (auto simp: admissible_def place_asked_def Let_def)
  then have "b \<in> set (usable_locations rec q)" by (rule best_location_mem)
  then have "b \<in> set (rec_locations rec)" "usable b" by (auto simp: usable_locations_def Let_def)
  moreover have "evaluate_candidate e rec q = accepted_candidate rec q b"
    using assms b by (simp add: evaluate_candidate_def candidate_filters_None [symmetric])
  ultimately show ?thesis using that b by blast
qed

section \<open>Candidates\<close>

text \<open>The identifiers a scan of every record would find.\<close>

definition scan_ids :: "StateIndexEngine \<Rightarrow> QueryDescriptor \<Rightarrow> StateRecordId set" where
  "scan_ids e q = {rid. \<exists>r. get_record e rid = Some r \<and>
     (case qd_state_id q of Some st \<Rightarrow> rec_state_id r = st
      | None \<Rightarrow> (case qd_kind q of Some k \<Rightarrow> rec_kind r = k | None \<Rightarrow> True))}"

lemma key_state_iff: "Key_state st \<in> set (record_keys r) \<longleftrightarrow> rec_state_id r = st"
  by (auto simp: record_keys_def location_keys_def split: option.splits if_splits)

lemma key_kind_iff: "Key_kind k \<in> set (record_keys r) \<longleftrightarrow> rec_kind r = k"
  by (auto simp: record_keys_def location_keys_def split: option.splits if_splits)

lemma index_lookup_ids:
  assumes "queryable e"
  shows "set (by_state (eng_indexes e) st) = {rid. \<exists>r. get_record e rid = Some r \<and> rec_state_id r = st}"
    and "set (by_kind (eng_indexes e) k) = {rid. \<exists>r. get_record e rid = Some r \<and> rec_kind r = k}"
    and "distinct (by_state (eng_indexes e) st)" and "distinct (by_kind (eng_indexes e) k)"
proof -
  from assms have inv: "index_inv e" by (simp add: queryable_def)
  have "posted (eng_indexes e) (Key_state st) = ids_under e (Key_state st)"
    "posted (eng_indexes e) (Key_kind k) = ids_under e (Key_kind k)"
    using inv by (simp_all add: index_inv_def del: posted.simps)
  then show "set (by_state (eng_indexes e) st) = {rid. \<exists>r. get_record e rid = Some r \<and> rec_state_id r = st}"
    "set (by_kind (eng_indexes e) k) = {rid. \<exists>r. get_record e rid = Some r \<and> rec_kind r = k}"
    by (simp_all add: by_state_def by_kind_def ids_under_def key_state_iff key_kind_iff)
  show "distinct (by_state (eng_indexes e) st)" "distinct (by_kind (eng_indexes e) k)"
    using inv lookups_sorted [of "eng_indexes e"] by (simp_all add: index_inv_def by_state_def by_kind_def)
qed

lemma record_ids:
  assumes "queryable e"
  shows "set (List.map fst (eng_records e)) = {rid. \<exists>r. get_record e rid = Some r}"
    and "distinct (List.map fst (eng_records e))"
proof -
  show "distinct (List.map fst (eng_records e))"
    using assms by (simp add: queryable_def um_ok_def)
  show "set (List.map fst (eng_records e)) = {rid. \<exists>r. get_record e rid = Some r}"
    unfolding get_record_def using dom_map_of_conv_image_fst [of "eng_records e"] by (simp add: dom_def)
qed

lemma candidate_ids:
  assumes "queryable e"
  shows "set (initial_candidate_ids e q) = scan_ids e q" and "distinct (initial_candidate_ids e q)"
    and "sorted (initial_candidate_ids e q)"
  using index_lookup_ids [OF assms] record_ids [OF assms]
  by (auto simp: initial_candidate_ids_def scan_ids_def split: option.splits)

lemma candidate_ids_scan: "queryable e \<Longrightarrow> initial_candidate_ids e q = sorted_list_of_set (scan_ids e q)"
  by (metis candidate_ids sorted_list_of_set.idem_if_sorted_distinct)

lemma assessments_map:
  assumes "queryable e"
  shows "assessments e q = List.map (\<lambda>rid. evaluate_candidate e (the (get_record e rid)) q) (initial_candidate_ids e q)"
proof -
  have "\<forall>rid\<in>set (initial_candidate_ids e q). get_record e rid \<noteq> None"
    unfolding candidate_ids(1) [OF assms] by (auto simp: scan_ids_def)
  then have "List.map_filter (\<lambda>rid. map_option (\<lambda>rec. evaluate_candidate e rec q) (get_record e rid)) ids =
      List.map (\<lambda>rid. evaluate_candidate e (the (get_record e rid)) q) ids"
    if "set ids \<subseteq> set (initial_candidate_ids e q)" for ids
    using that by (induction ids) (auto simp: List.map_filter_simps)
  then show ?thesis by (simp add: assessments_def)
qed

lemma assessed_ids:
  assumes "queryable e"
  shows "List.map ca_record_id (assessments e q) = initial_candidate_ids e q"
proof -
  have "rec_record_id (the (get_record e rid)) = rid" if "rid \<in> set (initial_candidate_ids e q)" for rid
    using that assms unfolding candidate_ids(1) [OF assms]
    by (auto simp: scan_ids_def queryable_def)
  then show ?thesis by (simp add: assessments_map [OF assms] comp_def map_idI)
qed

lemma assessment_mem:
  assumes "c \<in> set (assessments e q)"
  obtains rid rec where "get_record e rid = Some rec" "c = evaluate_candidate e rec q"
  using assms by (auto simp: assessments_def List.map_filter_def)

section \<open>The order of the ranking\<close>

text \<open>A candidate none of whose factors is a NaN; the factors of a record are such as soon as the
  estimates of its locations are.\<close>

definition ordinary :: "CandidateAssessment \<Rightarrow> bool" where
  "ordinary c \<longleftrightarrow> length (ca_factors c) = length factor_order \<and> (\<forall>x\<in>set (ca_factors c). \<not> f64_is_nan x)"

definition candidate_key :: "CandidateAssessment \<Rightarrow> int list \<times> int \<times> StateRecordId" where
  "candidate_key c = (List.map (\<lambda>x. - f64_key x) (ca_factors c), - uint (gen_value (ca_generation c)), ca_record_id c)"

lemma factors_differ_keys:
  assumes "length xs = length ys" "\<forall>x\<in>set xs. \<not> f64_is_nan x" "\<forall>y\<in>set ys. \<not> f64_is_nan y"
  shows "(case factors_differ xs ys of None \<Rightarrow> List.map f64_key xs = List.map f64_key ys
     | Some (x, y) \<Rightarrow> List.map (\<lambda>x. - f64_key x) xs < List.map (\<lambda>x. - f64_key x) ys \<longleftrightarrow> f64_less y x) \<and>
     (factors_differ xs ys \<noteq> None \<longrightarrow> List.map f64_key xs \<noteq> List.map f64_key ys)"
  using assms
  by (induction xs ys rule: list_induct2) (auto simp: f64_eq_def f64_less_def split: option.split)

lemma map_key_minus: "List.map (\<lambda>x. - f64_key x) xs = List.map (\<lambda>x. - f64_key x) ys \<longleftrightarrow>
    List.map f64_key xs = List.map f64_key ys"
proof -
  have "List.map (\<lambda>x. - f64_key x) zs = List.map uminus (List.map f64_key zs)" for zs by simp
  then show ?thesis by (simp only: inj_map_eq_map [OF inj_uminus])
qed

lemma less_triple:
  "(x, y, z) < (x', y', z') \<longleftrightarrow> x < x' \<or> x = x' \<and> (y < y' \<or> y = y' \<and> z < z')"
  for x x' :: "'a::linorder" and y y' :: "'b::linorder" and z z' :: "'c::linorder"
  by (auto simp: less_le)

lemma candidate_less_key:
  assumes "ordinary a" "ordinary b"
  shows "candidate_less a b \<longleftrightarrow> candidate_key a < candidate_key b"
proof -
  have g: "(g :: StateGeneration) > h \<longleftrightarrow> - uint (gen_value g) < - uint (gen_value h)"
    "- uint (gen_value g) = - uint (gen_value h) \<longleftrightarrow> g = h" for g h
    by (simp_all only: neg_less_iff_less neg_equal_iff_equal word_uint_eq_iff [symmetric]
        word_less_def [symmetric] less_Generation_def) (auto intro: Generation.expand)
  have keys: "case factors_differ (ca_factors a) (ca_factors b) of
        None \<Rightarrow> List.map f64_key (ca_factors a) = List.map f64_key (ca_factors b)
      | Some (x, y) \<Rightarrow> List.map (\<lambda>x. - f64_key x) (ca_factors a) < List.map (\<lambda>x. - f64_key x) (ca_factors b)
          \<longleftrightarrow> f64_less y x"
    "factors_differ (ca_factors a) (ca_factors b) \<noteq> None \<longrightarrow>
      List.map f64_key (ca_factors a) \<noteq> List.map f64_key (ca_factors b)"
    using factors_differ_keys [of "ca_factors a" "ca_factors b"] assms by (simp_all add: ordinary_def)
  show ?thesis
  proof (cases "factors_differ (ca_factors a) (ca_factors b)")
    case None
    with keys(1) have "List.map (\<lambda>x. - f64_key x) (ca_factors a) = List.map (\<lambda>x. - f64_key x) (ca_factors b)"
      by (simp add: map_key_minus)
    with None show ?thesis
      unfolding candidate_less_def candidate_key_def less_triple g by (auto simp: g(1))
  next
    case (Some xy)
    with keys have "List.map (\<lambda>x. - f64_key x) (ca_factors a) \<noteq> List.map (\<lambda>x. - f64_key x) (ca_factors b)"
      by (simp add: map_key_minus)
    with Some keys(1) show ?thesis
      unfolding candidate_less_def candidate_key_def less_triple by (cases xy) simp
  qed
qed

text \<open>The comparison spelled out: the first factors that differ decide, the greater first; then the
  greater generation, then the smaller id.\<close>

lemma factors_differ_first:
  "length xs = length ys \<Longrightarrow>
     (case factors_differ xs ys of None \<Rightarrow> \<forall>j<length xs. f64_eq (xs ! j) (ys ! j)
      | Some (x, y) \<Rightarrow> \<exists>i<length xs. (\<forall>j<i. f64_eq (xs ! j) (ys ! j)) \<and> \<not> f64_eq (xs ! i) (ys ! i) \<and> x = xs ! i \<and> y = ys ! i)"
proof (induction xs ys rule: list_induct2)
  case (Cons x xs y ys)
  show ?case
  proof (cases "f64_eq x y \<and> factors_differ xs ys \<noteq> None")
    case True
    then obtain i where i: "factors_differ xs ys = Some (xs ! i, ys ! i)" "i < length xs"
      "\<forall>j<i. f64_eq (xs ! j) (ys ! j)" "\<not> f64_eq (xs ! i) (ys ! i)"
      using Cons.IH by auto
    with True have "\<forall>j<Suc i. f64_eq ((x # xs) ! j) ((y # ys) ! j)" by (auto simp: less_Suc_eq_0_disj)
    with True i show ?thesis by (auto intro!: exI [of _ "Suc i"])
  next
    case False
    with Cons.IH show ?thesis
      by (cases "factors_differ xs ys") (auto simp: less_Suc_eq_0_disj)
  qed
qed simp

lemma f64_less_neq: "f64_less y x \<Longrightarrow> \<not> f64_eq x y"
  by (auto simp: f64_less_def f64_eq_def)

lemma candidate_less_iff:
  assumes "length (ca_factors a) = n" "length (ca_factors b) = n"
  shows "candidate_less a b \<longleftrightarrow>
    (\<exists>i<n. (\<forall>j<i. f64_eq (ca_factors a ! j) (ca_factors b ! j)) \<and> f64_less (ca_factors b ! i) (ca_factors a ! i)) \<or>
    (\<forall>j<n. f64_eq (ca_factors a ! j) (ca_factors b ! j)) \<and>
      (ca_generation b < ca_generation a \<or> ca_generation a = ca_generation b \<and> ca_record_id a < ca_record_id b)"
proof (cases "factors_differ (ca_factors a) (ca_factors b)")
  case None
  with factors_differ_first [of "ca_factors a" "ca_factors b"] assms
  have "\<forall>j<n. f64_eq (ca_factors a ! j) (ca_factors b ! j)" by simp
  with None show ?thesis by (auto simp: candidate_less_def dest: f64_less_neq)
next
  case (Some xy)
  with factors_differ_first [of "ca_factors a" "ca_factors b"] assms
  obtain i where i: "i < n" "\<forall>j<i. f64_eq (ca_factors a ! j) (ca_factors b ! j)"
    "\<not> f64_eq (ca_factors a ! i) (ca_factors b ! i)" "xy = (ca_factors a ! i, ca_factors b ! i)"
    by (cases xy) auto
  have "k = i" if "\<forall>j<k. f64_eq (ca_factors a ! j) (ca_factors b ! j)"
      "f64_less (ca_factors b ! k) (ca_factors a ! k)" for k
    using that i(2,3) f64_less_neq by (metis linorder_neqE_nat)
  with i have "(\<exists>k<n. (\<forall>j<k. f64_eq (ca_factors a ! j) (ca_factors b ! j)) \<and> f64_less (ca_factors b ! k) (ca_factors a ! k))
      \<longleftrightarrow> f64_less (ca_factors b ! i) (ca_factors a ! i)" by blast
  moreover have "\<not> (\<forall>j<n. f64_eq (ca_factors a ! j) (ca_factors b ! j))" using i(1,3) by blast
  moreover have "candidate_less a b \<longleftrightarrow> f64_less (ca_factors b ! i) (ca_factors a ! i)"
    by (simp add: candidate_less_def Some i(4))
  ultimately show ?thesis by blast
qed

interpretation candidate: strict_weak_order candidate_less "{c. ordinary c}"
  by unfold_locales (auto simp: candidate_less_key)

lemma candidate_comparable:
  assumes "ordinary a" "ordinary b" "ca_record_id a \<noteq> ca_record_id b"
  shows "candidate_less a b \<or> candidate_less b a"
proof -
  have "candidate_key a \<noteq> candidate_key b" using assms(3) by (auto simp: candidate_key_def)
  then show ?thesis using assms(1,2) by (simp add: candidate_less_key neq_iff)
qed

section \<open>Factors are numbers\<close>

lemma inv_factor_not_nan:
  assumes "\<not> f64_is_nan x"
  shows "\<not> f64_is_nan (inv_factor x)"
proof -
  have "\<not> f64_is_nan (f64_add x f64_one)" using assms by (intro f64_add_not_nan) auto
  then show ?thesis
    by (auto simp: inv_factor_def f64_div_def f64_inf_def inf_mag_def Let_def)
qed

lemma locality_sum_nonneg:
  "\<not> f64_is_nan s \<Longrightarrow> \<not> f64_sign s \<Longrightarrow>
     \<not> f64_is_nan (locality_sum d ps s) \<and> \<not> f64_sign (locality_sum d ps s)"
  by (induction d ps s rule: locality_sum.induct) (auto simp: f64_add_nonneg)

lemma scores_not_nan [simp]:
  "\<not> f64_is_nan (freshness_score f)" "\<not> f64_is_nan (health_score h)" "\<not> f64_is_nan (compat_score c)"
  "\<not> f64_is_nan (locality_score q l)"
  using locality_sum_nonneg [of "num 0" "loc_domain l" "qd_locality_preference q"]
    f64_add_nonneg [of "locality_sum (loc_domain l) (qd_locality_preference q) (num 0)" "num 10"]
  by (auto simp: freshness_score_def health_score_def compat_score_def locality_score_def Let_def
      split: Freshness.split Health.split CompatibilityOutcome.split)

definition ordinary_estimate :: "RetrievalEstimate \<Rightarrow> bool" where
  "ordinary_estimate est \<longleftrightarrow> (\<forall>x\<in>{re_expected_latency_ms est, re_transfer_bytes est,
     re_expected_bandwidth_mbps est, re_restore_cost est, re_recompute_cost est, re_adaptation_cost est}.
     \<not> f64_is_nan x)"

definition ordinary_record :: "StateRecord \<Rightarrow> bool" where
  "ordinary_record rec \<longleftrightarrow> (\<forall>l\<in>set (rec_locations rec). ordinary_estimate (loc_retrieval l))"

lemma factor_not_nan:
  "ordinary_estimate (loc_retrieval best) \<Longrightarrow> \<not> f64_is_nan (fst (factor_of rec q best f))"
  by (cases f) (auto simp: factor_of_def Let_def ordinary_estimate_def inv_factor_not_nan split: option.split)

lemma ordinary_evaluate:
  assumes "ordinary_record rec" "admissible e rec q"
  shows "ordinary (evaluate_candidate e rec q)"
proof -
  obtain b where "b \<in> set (rec_locations rec)" "evaluate_candidate e rec q = accepted_candidate rec q b"
    using evaluate_admissible [OF assms(2)] by blast
  with assms(1) show ?thesis
    by (auto simp: ordinary_def accepted_candidate_def ordinary_record_def factor_not_nan)
qed

section \<open>A greater cost is a smaller factor\<close>

lemma add_one_fields:
  assumes "\<not> f64_is_nan x" "\<not> f64_sign x"
  shows "\<not> f64_sign (f64_add x f64_one)"
    and "f64_mag (f64_add x f64_one) =
      (if f64_is_inf x then inf_mag else round_mag (mag_units (f64_mag x) + one_units) 1)"
proof -
  have "f64_units x + f64_units f64_one = int (mag_units (f64_mag x) + one_units)"
    using assms by (simp add: f64_units_def mag_units_one [simplified])
  moreover have "0 < one_units" "inf_mag \<noteq> 1023 * 2 ^ 52" by (simp_all add: one_units_def inf_mag_def)
  ultimately show "\<not> f64_sign (f64_add x f64_one)"
    "f64_mag (f64_add x f64_one) = (if f64_is_inf x then inf_mag else round_mag (mag_units (f64_mag x) + one_units) 1)"
    using assms by (auto simp: f64_add_def Let_def f64_is_inf_def nat_int_add mag_units_one [simplified])
qed

theorem inv_factor_antitone:
  assumes x: "\<not> f64_is_nan x" "\<not> f64_sign x" and y: "\<not> f64_is_nan y" "\<not> f64_sign y"
    and le: "f64_mag x \<le> f64_mag y"
  shows "f64_mag (inv_factor y) \<le> f64_mag (inv_factor x)" and "\<not> f64_sign (inv_factor x)"
proof -
  define a b where "a = f64_add x f64_one" and "b = f64_add y f64_one"
  have bounds: "f64_mag x \<le> inf_mag" "f64_mag y \<le> inf_mag" using x y by (auto simp: f64_is_nan_def)
  have "mag_units (f64_mag x) \<le> mag_units (f64_mag y)" using le bounds by (simp add: mag_units_le_iff)
  then have ab: "f64_mag a \<le> f64_mag b"
    using add_one_fields(2) [OF x] add_one_fields(2) [OF y] le bounds round_mag_bound
    by (auto simp: a_def b_def f64_is_inf_def intro!: round_mag_mono)
  have pos: "0 < f64_mag a"
  proof -
    have "round_mag one_units 1 \<le> round_mag (mag_units (f64_mag x) + one_units) 1" by (intro round_mag_mono) auto
    then show ?thesis using add_one_fields(2) [OF x] one_round by (simp add: a_def inf_mag_def)
  qed
  have inv: "f64_mag (f64_div f64_one c) = (if f64_mag c = inf_mag then 0 else round_mag (one_units * one_units) (mag_units (f64_mag c)))
      \<and> \<not> f64_sign (f64_div f64_one c)"
    if "\<not> f64_sign c" "f64_mag c \<le> inf_mag" "0 < f64_mag c" for c
    using that by (auto simp: f64_div_def Let_def f64_is_inf_def f64_is_nan_def f64_units_def inf_mag_def mag_units_one [simplified])
  have mags: "f64_mag a \<le> inf_mag" "f64_mag b \<le> inf_mag"
    using add_one_fields(2) [OF x] add_one_fields(2) [OF y] round_mag_bound by (auto simp: a_def b_def)
  note ia = inv [of a] and ib = inv [of b]
  have "\<not> f64_sign a" "\<not> f64_sign b" using add_one_fields(1) x y by (auto simp: a_def b_def)
  with ia ib mags pos ab show "f64_mag (inv_factor y) \<le> f64_mag (inv_factor x)" "\<not> f64_sign (inv_factor x)"
    unfolding inv_factor_def a_def [symmetric] b_def [symmetric]
    by (auto intro!: round_mag_mono mult_le_mono simp: mag_units_le_iff)
qed

end
