(* ===== verification/QueryFacts.thy ===== *)
theory QueryFacts
  imports PlannerFacts EngineSteps
begin

text \<open>
  What a query answers: its ranking lists exactly the admissible records, in the order of the
  factors; every other candidate is eliminated with a reason; the selection is the head of the
  ranking; and the outcome is a function of the selection, or, without one, of the reasons given.
\<close>

section \<open>Fields of the result\<close>

lemma in_mode_deps [simp]: "dep_satisfied (in_mode h e) rec = dep_satisfied e rec"
proof -
  have "deps_satisfied (in_mode h e) ds = deps_satisfied e ds" for ds
    by (induction ds) (auto split: option.split)
  then show ?thesis by (simp add: dep_satisfied_def)
qed

lemma in_mode_ids [simp]:
  "initial_candidate_ids (in_mode h e) q = initial_candidate_ids e q" "scan_ids (in_mode h e) q = scan_ids e q"
  by (simp_all add: initial_candidate_ids_def scan_ids_def split: option.split)

lemma fill_frame [simp]:
  "qr_ranked_candidates (fill_selected e r) = qr_ranked_candidates r"
  "qr_eliminated (fill_selected e r) = qr_eliminated r"
  "qr_outcome (fill_selected e r) = qr_outcome r"
  "qr_selected_record_id (fill_selected e r) = qr_selected_record_id r"
  "qr_selected_generation (fill_selected e r) = qr_selected_generation r"
  "qr_selected_placement (fill_selected e r) = qr_selected_placement r"
  "qr_selected_state_id (fill_selected e r) = qr_selected_state_id r"
  by (simp_all add: fill_selected_def fill_provenance_def fill_placement_def split: option.split)

lemma decide_frame [simp]:
  "qr_ranked_candidates (decide e q ids cs r) = qr_ranked_candidates r"
  "qr_eliminated (decide e q ids cs r) = qr_eliminated r"
  by (simp_all add: decide_def select_def split: list.split option.split)

lemma decide_selected:
  "qr_selected_record_id (decide e q ids cs empty_result\<lparr>qr_query_id := i, qr_query_generation := g, qr_ranked_candidates := rs,
     qr_eliminated := es\<rparr>) = (case cs of [] \<Rightarrow> None | c # _ \<Rightarrow> Some (ca_record_id c))"
  by (simp add: decide_def select_def empty_result_def split: list.split option.split)

lemma run_query_lists:
  "qr_ranked_candidates (fst (run_query q h e)) = List.map ranking_of (ranked_assessments (in_mode h e) q)"
  "qr_eliminated (fst (run_query q h e)) = List.map elimination_of (rejected_assessments (in_mode h e) q)"
  by (simp_all add: run_query_def Let_def in_mode_def)

lemma run_query_selection:
  "qr_selected_record_id (fst (run_query q h e)) = (case ranked_assessments (in_mode h e) q of [] \<Rightarrow> None | c # _ \<Rightarrow> Some (ca_record_id c))"
  "qr_selected_generation (fst (run_query q h e)) = (case ranked_assessments (in_mode h e) q of [] \<Rightarrow> None | c # _ \<Rightarrow> Some (ca_generation c))"
  "qr_selected_placement (fst (run_query q h e)) = (case ranked_assessments (in_mode h e) q of [] \<Rightarrow> None | c # _ \<Rightarrow> ca_best_placement c)"
  by (simp_all add: run_query_def Let_def in_mode_def decide_def select_def empty_result_def split: list.split option.split)

section \<open>Who is ranked\<close>

lemma ranked_mem:
  "set (ranked_assessments e q) = {c \<in> set (assessments e q). ca_in_scope c}"
  by (auto simp: ranked_assessments_def)

lemma assessments_set:
  assumes "queryable e"
  shows "set (assessments e q) = {evaluate_candidate e rec q | rid rec. rid \<in> scan_ids e q \<and> get_record e rid = Some rec}"
  unfolding assessments_map [OF assms] set_map candidate_ids(1) [OF assms]
  by (force simp: scan_ids_def)

lemma ranked_set:
  assumes "queryable e"
  shows "set (ranked_assessments e q) =
    {evaluate_candidate e rec q | rid rec. rid \<in> scan_ids e q \<and> get_record e rid = Some rec \<and> admissible e rec q}"
  unfolding ranked_mem assessments_set [OF assms] using evaluate_in_scope by blast

lemma at_most_one:
  assumes "distinct (List.map f xs)" and "\<And>x. x \<in> set xs \<Longrightarrow> f x = v"
  shows "length xs \<le> 1"
proof (cases xs)
  case (Cons x ys)
  then show ?thesis using assms by (cases ys) auto
qed simp

lemma ranked_set_mode:
  assumes "queryable e"
  shows "set (ranked_assessments (in_mode h e) q) = {evaluate_candidate (in_mode h e) rec q | rid rec.
    rid \<in> scan_ids e q \<and> get_record e rid = Some rec \<and> admissible (in_mode h e) rec q}"
  using ranked_set [OF queryable_in_mode [OF assms], of h q] by (simp only: in_mode_views in_mode_ids)

lemma ranked_member:
  assumes "queryable e" and "get_record e rid = Some rec" and "rid \<in> scan_ids e q" and "admissible (in_mode h e) rec q"
  shows "evaluate_candidate (in_mode h e) rec q \<in> set (ranked_assessments (in_mode h e) q)"
  unfolding ranked_set_mode [OF assms(1)] using assms(2-4) by blast

lemma ranked_rejected_ids:
  assumes "queryable e"
  shows "distinct (List.map ca_record_id (ranked_assessments e q @ rejected_assessments e q))"
    and "ca_record_id ` set (ranked_assessments e q @ rejected_assessments e q) = scan_ids e q"
proof -
  have d: "distinct (List.map ca_record_id (assessments e q))"
    unfolding assessed_ids [OF assms] by (rule candidate_ids(2) [OF assms])
  have m: "mset (ranked_assessments e q @ rejected_assessments e q) = mset (assessments e q)"
    by (simp add: ranked_assessments_def rejected_assessments_def)
  then have "mset (List.map ca_record_id (ranked_assessments e q @ rejected_assessments e q))
      = mset (List.map ca_record_id (assessments e q))"
    by (simp only: mset_map)
  with d show "distinct (List.map ca_record_id (ranked_assessments e q @ rejected_assessments e q))"
    by (metis mset_eq_imp_distinct_iff)
  have "set (ranked_assessments e q @ rejected_assessments e q) = set (assessments e q)"
    using m by (metis set_mset_mset)
  then show "ca_record_id ` set (ranked_assessments e q @ rejected_assessments e q) = scan_ids e q"
    using assessed_ids [OF assms, of q] candidate_ids(1) [OF assms, of q] by (metis set_map)
qed

lemma ranked_sorted:
  assumes inv: "queryable e" and ord: "\<And>rid rec. get_record e rid = Some rec \<Longrightarrow> ordinary_record rec"
  shows "sorted_wrt candidate_less (ranked_assessments e q)"
  unfolding ranked_assessments_def
proof (rule candidate.sort_by_strict)
  let ?xs = "filter ca_in_scope (assessments e q)"
  have all: "ordinary c" if c: "c \<in> set ?xs" for c
  proof -
    from c obtain rid rec where "get_record e rid = Some rec" "c = evaluate_candidate e rec q" "ca_in_scope c"
      by (auto elim: assessment_mem)
    then show ?thesis by (auto simp: evaluate_in_scope intro: ordinary_evaluate ord)
  qed
  then show "set ?xs \<subseteq> {c. ordinary c}" by blast
  have d: "distinct (List.map ca_record_id (assessments e q))"
    unfolding assessed_ids [OF inv] by (rule candidate_ids(2) [OF inv])
  then have d': "distinct (List.map ca_record_id ?xs)" by (rule distinct_map_filter)
  then show "distinct ?xs" by (simp add: distinct_map)
  fix x y
  assume xy: "x \<in> set ?xs" "y \<in> set ?xs" "x \<noteq> y"
  with d' have "ca_record_id x \<noteq> ca_record_id y" by (auto simp: distinct_map dest: inj_onD)
  with all xy show "candidate_less x y \<or> candidate_less y x" by (intro candidate_comparable) auto
qed

text \<open>What the result shows of an assessment, and how many factors it has.\<close>

lemma ranked_factors:
  assumes "queryable e" and "c \<in> set (ranked_assessments (in_mode h e) q)"
  shows "length (ca_factors c) = length factor_order"
proof -
  obtain rec where "admissible (in_mode h e) rec q" "c = evaluate_candidate (in_mode h e) rec q"
    using assms(2) unfolding ranked_set_mode [OF assms(1)] by blast
  then show ?thesis by (auto simp: accepted_candidate_def elim!: evaluate_admissible)
qed

lemma ranking_entries:
  "list_all2 (\<lambda>r c. cr_record_id r = ca_record_id c \<and> cr_generation r = ca_generation c \<and>
      cr_best_placement r = ca_best_placement c \<and> cr_factors r = zip factor_order (ca_factors c))
    (qr_ranked_candidates (fst (run_query q h e))) (ranked_assessments (in_mode h e) q)"
  by (simp add: run_query_lists list_all2_map1 ranking_of_def list.rel_refl)

section \<open>Who is selected\<close>

lemma selected_record:
  assumes inv: "queryable e" and sel: "qr_selected_record_id (fst (run_query q h e)) = Some rid"
  obtains rec best where "get_record e rid = Some rec" "rid \<in> scan_ids e q" "admissible (in_mode h e) rec q"
    "best \<in> set (rec_locations rec)" "usable best"
    "qr_selected_generation (fst (run_query q h e)) = Some (rec_state_generation rec)"
    "qr_selected_placement (fst (run_query q h e)) = Some (loc_placement_id best)"
    "hd (ranked_assessments (in_mode h e) q) = accepted_candidate rec q best"
proof -
  from sel obtain c cs where cs: "ranked_assessments (in_mode h e) q = c # cs" and id: "ca_record_id c = rid"
    by (auto simp: run_query_selection split: list.splits)
  then have "c \<in> set (ranked_assessments (in_mode h e) q)" by simp
  then obtain rid' rec where rec: "rid' \<in> scan_ids e q" "get_record e rid' = Some rec"
      "admissible (in_mode h e) rec q" "c = evaluate_candidate (in_mode h e) rec q"
    unfolding ranked_set [OF queryable_in_mode [OF inv]] by auto
  moreover have "rid' = rid"
    using rec id inv by (auto simp: queryable_def)
  moreover obtain best where "best \<in> set (rec_locations rec)" "usable best"
      "evaluate_candidate (in_mode h e) rec q = accepted_candidate rec q best"
    using evaluate_admissible [OF rec(3)] by blast
  ultimately show ?thesis
    using that [of rec best] cs by (simp add: run_query_selection accepted_candidate_def)
qed

section \<open>The outcome\<close>

lemma run_query_outcome:
  "qr_outcome (fst (run_query q h e)) =
     (case ranked_assessments (in_mode h e) q of
        [] \<Rightarrow> empty_outcome (initial_candidate_ids e q) (qr_eliminated (fst (run_query q h e)))
      | [c] \<Rightarrow> (case get_record e (ca_record_id c) of None \<Rightarrow> QueryOutcome_UNKNOWN
          | Some rec \<Rightarrow> if exact_match rec q then QueryOutcome_FOUND_EXACT else QueryOutcome_FOUND_COMPATIBLE)
      | _ \<Rightarrow> QueryOutcome_FOUND_MULTIPLE)"
proof -
  have i: "initial_candidate_ids (e\<lparr>eng_historical_mode := h\<rparr>) q = initial_candidate_ids e q"
    "get_record (e\<lparr>eng_historical_mode := h\<rparr>) = get_record e"
    using in_mode_ids(1) [of h e q] in_mode_views(1) [of h e] by (simp_all add: in_mode_def)
  show ?thesis
    by (simp add: run_query_def Let_def in_mode_def i decide_def select_def empty_result_def
        split: list.split option.split)
qed

lemma empty_outcome_not_found:
  "empty_outcome ids es \<noteq> QueryOutcome_FOUND_EXACT" "empty_outcome ids es \<noteq> QueryOutcome_FOUND_COMPATIBLE"
  "empty_outcome ids es \<noteq> QueryOutcome_FOUND_MULTIPLE"
  by (simp_all add: empty_outcome_def)

lemma class_of_iff:
  "class_of r = Invalid \<longleftrightarrow> r \<in> {RejectionReason_INVALIDATED, RejectionReason_TOMBSTONED}"
  "class_of r = Stale \<longleftrightarrow> r \<in> {RejectionReason_STALE_GENERATION, RejectionReason_NOT_CURRENT,
     RejectionReason_FRESHNESS_BELOW_REQUIREMENT}"
  "class_of r = Incompatible \<longleftrightarrow> r \<in> {RejectionReason_COMPATIBILITY_MISMATCH, RejectionReason_DEPENDENCY_MISMATCH,
     RejectionReason_MISSING_REQUIRED_DEPENDENCY}"
  "class_of r = Insufficient \<longleftrightarrow> r = RejectionReason_INSUFFICIENT_EVIDENCE"
  by (cases r; simp add: class_of_def)+

lemma saw_iff: "saw c es \<longleftrightarrow> (\<exists>r\<in>el_reason ` set es. class_of r = c)"
  by (simp add: saw_def list_ex_iff)

text \<open>The outcome of an empty ranking as a function of the set of reasons seen.\<close>

lemma empty_outcome_reasons:
  fixes R I S C U
  assumes "ids = [] \<longleftrightarrow> es = []"
  defines "R \<equiv> el_reason ` set es"
    and "I \<equiv> {RejectionReason_INVALIDATED, RejectionReason_TOMBSTONED}"
    and "S \<equiv> {RejectionReason_STALE_GENERATION, RejectionReason_NOT_CURRENT, RejectionReason_FRESHNESS_BELOW_REQUIREMENT}"
    and "C \<equiv> {RejectionReason_COMPATIBILITY_MISMATCH, RejectionReason_DEPENDENCY_MISMATCH,
      RejectionReason_MISSING_REQUIRED_DEPENDENCY}"
    and "U \<equiv> {RejectionReason_INSUFFICIENT_EVIDENCE}"
  shows "empty_outcome ids es =
    (if R = {} then QueryOutcome_NOT_FOUND
     else if R \<subseteq> I then QueryOutcome_INVALIDATED_ONLY
     else if R \<inter> C \<noteq> {} \<and> R \<inter> (I \<union> S \<union> U) = {} then QueryOutcome_INCOMPATIBLE_ONLY
     else if R \<inter> S \<noteq> {} \<and> R \<subseteq> I \<union> S \<union> C then QueryOutcome_STALE_ONLY
     else if R \<subseteq> I \<union> S \<union> C then QueryOutcome_NOT_FOUND else QueryOutcome_INSUFFICIENT_EVIDENCE)"
proof -
  have cl: "class_of r = Invalid \<longleftrightarrow> r \<in> I" "class_of r = Stale \<longleftrightarrow> r \<in> S" "class_of r = Incompatible \<longleftrightarrow> r \<in> C"
    "class_of r = Insufficient \<longleftrightarrow> r \<in> U" for r
    by (simp_all add: class_of_iff I_def S_def C_def U_def)
  then have other: "class_of r = Other \<longleftrightarrow> r \<notin> I \<union> S \<union> C \<union> U" for r
    by (metis Un_iff rejection_class.distinct rejection_class.exhaust)
  have "es = [] \<longleftrightarrow> R = {}" by (simp add: R_def)
  moreover have "R \<subseteq> I \<longleftrightarrow> \<not> saw Stale es \<and> \<not> saw Incompatible es \<and> \<not> saw Insufficient es \<and> \<not> saw Other es"
    "R \<inter> C \<noteq> {} \<longleftrightarrow> saw Incompatible es" "R \<inter> S \<noteq> {} \<longleftrightarrow> saw Stale es"
    "R \<inter> (I \<union> S \<union> U) = {} \<longleftrightarrow> \<not> saw Stale es \<and> \<not> saw Insufficient es \<and> \<not> saw Invalid es"
    "R \<subseteq> I \<union> S \<union> C \<longleftrightarrow> \<not> saw Insufficient es \<and> \<not> saw Other es"
    "R \<noteq> {} \<longleftrightarrow> saw Invalid es \<or> saw Stale es \<or> saw Incompatible es \<or> saw Insufficient es \<or> saw Other es"
    unfolding saw_iff R_def [symmetric] cl other
    by (auto simp: I_def S_def C_def U_def)
  ultimately show ?thesis
    unfolding empty_outcome_def using assms(1) by auto
qed

lemma no_candidate_iff:
  assumes "queryable e" and "ranked_assessments (in_mode h e) q = []"
  shows "initial_candidate_ids e q = [] \<longleftrightarrow> qr_eliminated (fst (run_query q h e)) = []"
proof -
  have inv: "queryable (in_mode h e)" by (rule queryable_in_mode [OF assms(1)])
  have "ca_record_id ` set (rejected_assessments (in_mode h e) q) = scan_ids e q"
    using ranked_rejected_ids(2) [OF inv, of q] assms(2) by simp
  moreover have "set (initial_candidate_ids e q) = scan_ids e q" by (rule candidate_ids(1) [OF assms(1)])
  ultimately show ?thesis by (auto simp: run_query_lists)
qed

end
