(* ===== verification/Sockets.thy ===== *)
theory Sockets
  imports Sessions Worker
begin

text \<open>
  The half of \<^verbatim>\<open>include/stateindex/tcp.hpp\<close> that opens and closes sockets, for POSIX systems, and the
  \<^verbatim>\<open>main\<close> functions of the coordinator and the worker around it. The operating system is a parameter:
  a record of its calls over a state of its own. The locale \<open>socket_simulation\<close> transfers what a
  process does on one socket to what it does on another that behaves alike.
\<close>

section \<open>The calls of the operating system\<close>

text \<open>\<^verbatim>\<open>socket\<close>, \<^verbatim>\<open>setsockopt(SO_REUSEADDR)\<close>, \<^verbatim>\<open>bind\<close>, \<^verbatim>\<open>listen\<close>, \<^verbatim>\<open>accept\<close>, \<^verbatim>\<open>inet_pton\<close>, \<^verbatim>\<open>connect\<close>, \<^verbatim>\<open>close\<close>,
  \<^verbatim>\<open>recv\<close> and \<^verbatim>\<open>send\<close>, with the result they return. Addresses and ports are in host order, on both
  sides of \<^verbatim>\<open>htonl\<close> and \<^verbatim>\<open>htons\<close>.\<close>

record 'w os =
  os_socket :: "'w \<Rightarrow> int \<times> 'w"
  os_reuse :: "int \<Rightarrow> 'w \<Rightarrow> 'w"
  os_bind :: "int \<Rightarrow> u32 \<Rightarrow> u16 \<Rightarrow> 'w \<Rightarrow> int \<times> 'w"
  os_listen :: "int \<Rightarrow> int \<Rightarrow> 'w \<Rightarrow> int \<times> 'w"
  os_accept :: "int \<Rightarrow> 'w \<Rightarrow> int \<times> 'w"
  os_inet_pton :: "string \<Rightarrow> u32 option"
  os_connect :: "int \<Rightarrow> u32 \<Rightarrow> u16 \<Rightarrow> 'w \<Rightarrow> int \<times> 'w"
  os_close :: "int \<Rightarrow> 'w \<Rightarrow> 'w"
  os_recv :: "int \<Rightarrow> 'w recv"
  os_send :: "int \<Rightarrow> 'w send"

definition INADDR_LOOPBACK :: u32 where
  "INADDR_LOOPBACK = 0x7F000001"

section \<open>Servers and clients\<close>

text \<open>\<^verbatim>\<open>close_()\<close> and \<^verbatim>\<open>tcp_close\<close>.\<close>

definition tcp_close :: "'w os \<Rightarrow> int \<Rightarrow> 'w \<Rightarrow> 'w" where
  "tcp_close os h w = (if 0 \<le> h then os_close os h w else w)"

text \<open>The constructor of \<^verbatim>\<open>TcpServer\<close>: the server's handle, or the exception it throws.\<close>

definition server_open :: "'w os \<Rightarrow> int \<Rightarrow> 'w \<Rightarrow> (exn + int) \<times> 'w" where
  "server_open os port w =
     (case os_socket os w of (h, w1) \<Rightarrow>
        if h < 0 then (Inl (runtime_error ''socket failed''), w1)
        else case os_bind os h INADDR_LOOPBACK (word_of_int port) (os_reuse os h w1) of (b, w2) \<Rightarrow>
          if b \<noteq> 0 then (Inl (runtime_error ''bind failed (port in use?)''), tcp_close os h w2)
          else case os_listen os h 8 w2 of (l, w3) \<Rightarrow>
            if l \<noteq> 0 then (Inl (runtime_error ''listen failed''), tcp_close os h w3) else (Inr h, w3))"

definition server_accept :: "'w os \<Rightarrow> int \<Rightarrow> 'w \<Rightarrow> (exn + int) \<times> 'w" where
  "server_accept os srv w =
     (case os_accept os srv w of (c, w') \<Rightarrow>
        if c < 0 then (Inl (runtime_error ''accept failed''), w') else (Inr c, w'))"

definition tcp_connect :: "'w os \<Rightarrow> string \<Rightarrow> int \<Rightarrow> 'w \<Rightarrow> (exn + int) \<times> 'w" where
  "tcp_connect os host port w =
     (case os_socket os w of (h, w1) \<Rightarrow>
        if h < 0 then (Inl (runtime_error ''connect socket failed''), w1)
        else case os_inet_pton os (c_str host) of
          None \<Rightarrow> (Inl (runtime_error ''invalid host address''), w1)
        | Some addr \<Rightarrow>
            case os_connect os h addr (word_of_int port) w1 of (r, w2) \<Rightarrow>
              if r \<noteq> 0 then (Inl (runtime_error ''connect failed''), os_close os h w2) else (Inr h, w2))"

section \<open>The processes\<close>

text \<open>\<^verbatim>\<open>std::atoi\<close>; \<open>None\<close> where the value is no \<^verbatim>\<open>int\<close>, which is undefined behaviour.\<close>

definition atoi :: "string \<Rightarrow> int option" where
  "atoi str =
     (let cs = dropWhile is_space (c_str str);
          (minus, ds) = (case cs of [] \<Rightarrow> (False, [])
            | c # r \<Rightarrow> if c = CHR ''-'' then (True, r) else if c = CHR ''+'' then (False, r) else (False, cs));
          n = int (undecimal 0 (takeWhile is_digit ds));
          v = (if minus then - n else n)
      in if - (2 ^ 31) \<le> v \<and> v < 2 ^ 31 then Some v else None)"

text \<open>The coordinator's \<^verbatim>\<open>while (true)\<close> over \<^verbatim>\<open>server.accept()\<close>, with the destructor of the server on every
  way out. An exception out of a connection skips its \<^verbatim>\<open>tcp_close\<close>.\<close>

partial_function (option) accept_connections ::
  "'w os \<Rightarrow> int \<Rightarrow> string \<Rightarrow> Coordinator \<Rightarrow> 'w \<Rightarrow> (int \<times> Coordinator \<times> 'w) option" where
  "accept_connections os srv persist c w =
     (case server_accept os srv w of
        (Inl _, w1) \<Rightarrow> Some (1, c, tcp_close os srv w1)
      | (Inr h, w1) \<Rightarrow>
          (case connection (os_recv os h) (os_send os h) persist c w1 of
             None \<Rightarrow> None
           | Some (Some _, c', w2) \<Rightarrow> Some (1, c', tcp_close os srv w2)
           | Some (None, c', w2) \<Rightarrow>
               if co_done c' then Some (0, c', tcp_close os srv (tcp_close os h w2))
               else accept_connections os srv persist c' (tcp_close os h w2)))"

text \<open>\<^verbatim>\<open>main\<close> of the coordinator: the exit code, the disk, and the state of the operating system.\<close>

definition coordinator_process :: "'w os \<Rightarrow> string list \<Rightarrow> Disk \<Rightarrow> 'w \<Rightarrow> (int \<times> Disk \<times> 'w) option" where
  "coordinator_process os argv d w =
     (if length argv < 2 then Some (2, d, w)
      else case atoi (argv ! 1) of None \<Rightarrow> None
      | Some port \<Rightarrow>
          let persist = arg_or argv 2 [];
              c = \<lparr>co_engine = startup_engine persist d, co_disk = d, co_boot = None, co_done = False\<rparr>
          in case server_open os port w of
               (Inl _, w1) \<Rightarrow> Some (1, d, w1)
             | (Inr srv, w1) \<Rightarrow>
                 (case accept_connections os srv persist c w1 of None \<Rightarrow> None
                  | Some (code, c', w2) \<Rightarrow> Some (code, co_disk c', w2)))"

text \<open>\<^verbatim>\<open>main\<close> of the worker: the exit code and what it prints on \<^verbatim>\<open>stdout\<close>. \<open>script_of\<close> is the text of the
  file at a path, empty where the stream does not open. An exception skips \<^verbatim>\<open>tcp_close\<close>.\<close>

definition worker_process ::
  "'w os \<Rightarrow> (string \<Rightarrow> string) \<Rightarrow> string list \<Rightarrow> 'w \<Rightarrow> (int \<times> string \<times> 'w) option" where
  "worker_process os script_of argv w =
     (if length argv < 6 then Some (2, [], w)
      else case atoi (argv ! 2) of None \<Rightarrow> None
      | Some port \<Rightarrow>
          (case tcp_connect os (argv ! 1) port w of
             (Inl _, w1) \<Rightarrow> Some (1, [], w1)
           | (Inr h, w1) \<Rightarrow>
               (case worker_main (os_recv os h) (os_send os h) (StrongId (strtoull (argv ! 3)))
                   (StrongId (strtoull (argv ! 4))) (script_of (argv ! 5)) w1 of
                  None \<Rightarrow> None
                | Some (Some _, out, w2) \<Rightarrow> Some (1, out, w2)
                | Some (None, out, w2) \<Rightarrow> Some (0, out, tcp_close os h w2))))"

section \<open>Processes on sockets that behave alike\<close>

lemma alikeE: "rel_prod (=) R p q \<Longrightarrow> p = (x, s) \<Longrightarrow> \<exists>t. q = (x, t) \<and> R s t"
  by (cases q) auto

locale socket_simulation =
  fixes recv :: "'s recv" and send :: "'s send" and recv' :: "'t recv" and send' :: "'t send"
    and R :: "'s \<Rightarrow> 't \<Rightarrow> bool"
  assumes recv_alike: "R s t \<Longrightarrow> rel_prod (=) R (recv n s) (recv' n t)"
    and send_alike: "R s t \<Longrightarrow> rel_prod (=) R (send data s) (send' data t)"
begin

lemma recv_loop_alike: "R s t \<Longrightarrow> rel_prod (=) R (recv_loop recv len got s) (recv_loop recv' len got t)"
proof (induction "len - length got" arbitrary: got s t rule: less_induct)
  case less
  obtain r s' where r: "recv (len - length got) s = (r, s')" by force
  with recv_alike [OF less.prems, of "len - length got"] obtain t' where t': "recv' (len - length got) t = (r, t')" "R s' t'"
    by (cases "recv' (len - length got) t") auto
  show ?case
  proof (cases "length got < len \<and> (\<exists>bs. r = Received bs \<and> bs \<noteq> [])")
    case True
    then obtain bs where bs: "r = Received bs" "bs \<noteq> []" "length got < len" by blast
    then have "len - length (got @ bs) < len - length got" by (cases bs) auto
    from less.hyps [OF this t'(2)] r t'(1) bs show ?thesis
      by (simp add: recv_loop.simps [of recv len got s] recv_loop.simps [of recv' len got t])
  next
    case False
    with r t' less.prems show ?thesis
      by (auto simp: recv_loop.simps [of recv len got s] recv_loop.simps [of recv' len got t]
          split: recv_result.split)
  qed
qed

lemma recv_exact_alike: "R s t \<Longrightarrow> rel_prod (=) R (recv_exact recv len s) (recv_exact recv' len t)"
  unfolding recv_exact_def by (rule recv_loop_alike)

lemma recv_frame_alike:
  assumes "R s t"
  shows "rel_prod (=) R (recv_frame recv s) (recv_frame recv' t)"
proof -
  obtain x s1 where s1: "recv_exact recv kProtocolHeaderSize s = (x, s1)" by force
  with alikeE [OF recv_exact_alike [OF assms]] obtain t1
    where t1: "recv_exact recv' kProtocolHeaderSize t = (x, t1)" "R s1 t1" by blast
  have body: "rel_prod (=) R
      (case recv_exact recv len s1 of (Inl x, s2) \<Rightarrow> (Inl x, s2)
       | (Inr body, s2) \<Rightarrow> (checked_frame (header @ body), s2))
      (case recv_exact recv' len t1 of (Inl x, s2) \<Rightarrow> (Inl x, s2)
       | (Inr body, s2) \<Rightarrow> (checked_frame (header @ body), s2))" for len header
    using recv_exact_alike [OF t1(2), of len] by (auto split: prod.splits sum.splits)
  show ?thesis
    using body t1(2) by (simp add: recv_frame_def s1 t1(1) split: sum.split)
qed

lemma send_all_alike: "R s t \<Longrightarrow> rel_prod (=) R (send_all send data s) (send_all send' data t)"
proof (induction "length data" arbitrary: data s t rule: less_induct)
  case less
  obtain r s' where r: "send data s = (r, s')" by force
  with alikeE [OF send_alike [OF less.prems]] obtain t' where t': "send' data t = (r, t')" "R s' t'" by blast
  show ?case
  proof (cases "data \<noteq> [] \<and> (\<exists>n. r = Some n \<and> n \<noteq> 0)")
    case True
    then obtain n where n: "r = Some n" "n \<noteq> 0" "data \<noteq> []" by blast
    then have "length (drop n data) < length data" by simp
    from less.hyps [OF this t'(2)] r t'(1) n show ?thesis
      by (simp add: send_all.simps [of send data s] send_all.simps [of send' data t])
  next
    case False
    with r t' less.prems show ?thesis
      by (auto simp: send_all.simps [of send data s] send_all.simps [of send' data t] split: option.split)
  qed
qed

lemma send_frame_alike: "R s t \<Longrightarrow> rel_prod (=) R (send_frame send k payload s) (send_frame send' k payload t)"
  unfolding send_frame_def by (rule send_all_alike)

lemma handle_frame_alike:
  assumes "R s t"
  shows "rel_prod (=) (rel_prod (=) R) (handle_frame send persist f c s) (handle_frame send' persist f c t)"
proof -
  have reply: "rel_prod (=) R (send_reply send r s) (send_reply send' r t)" if "R s t" for r s t
    unfolding send_reply_def using that by (rule send_frame_alike)
  obtain r c' where d: "dispatch persist f c = (r, c')" by force
  show ?thesis
  proof (cases r)
    case (Inl x)
    with reply [OF assms, of "error_reply x"] show ?thesis by (auto simp: handle_frame_def d split: prod.splits)
  next
    case (Inr y)
    obtain x s1 where s1: "send_reply send y s = (x, s1)" by force
    with alikeE [OF reply [OF assms]] obtain t1 where t1: "send_reply send' y t = (x, t1)" "R s1 t1" by blast
    show ?thesis
    proof (cases x)
      case (Some z)
      with t1 reply [OF t1(2), of "error_reply z"] show ?thesis
        by (auto simp: handle_frame_def d Inr s1 split: prod.splits)
    qed (use t1 in \<open>simp add: handle_frame_def d Inr s1\<close>)
  qed
qed

lemma serve_alike:
  assumes "serve recv send persist c s = Some y" and "R s t"
  shows "\<exists>y'. serve recv' send' persist c t = Some y' \<and> rel_prod (=) (rel_prod (=) R) y y'"
proof -
  define Q where "Q p c s y \<longleftrightarrow>
    (\<forall>t. R s t \<longrightarrow> (\<exists>y'. serve recv' send' p c t = Some y' \<and> rel_prod (=) (rel_prod (=) R) y y'))" for p c s y
  have "recv = recv \<and> send = send \<longrightarrow> Q persist c s y"
  proof (rule serve.raw_induct [where P = "\<lambda>r0 s0 p c s y. r0 = recv \<and> s0 = send \<longrightarrow> Q p c s y", OF _ assms(1)],
      intro impI)
    fix f r0 s0 p c s y
    assume IH: "\<And>r0 s0 p c s y. f r0 s0 p c s = Some y \<Longrightarrow> r0 = recv \<and> s0 = send \<longrightarrow> Q p c s y"
      and body: "(if co_done c then Some (None, c, s)
        else case recv_frame r0 s of (Inl _, s') \<Rightarrow> Some (None, drop_boot c, s')
          | (Inr fr, s') \<Rightarrow>
              (case handle_frame s0 p fr c s' of (Some x, c', s'') \<Rightarrow> Some (Some x, c', s'')
               | (None, c', s'') \<Rightarrow> f r0 s0 p c' s'')) = Some y"
      and eq: "r0 = recv \<and> s0 = send"
    show "Q p c s y"
      unfolding Q_def
    proof (intro allI impI)
      fix t assume "R s t"
      obtain r s1 where s1: "recv_frame recv s = (r, s1)" by force
      with alikeE [OF recv_frame_alike [OF \<open>R s t\<close>]] obtain t1
        where t1: "recv_frame recv' t = (r, t1)" "R s1 t1" by blast
      show "\<exists>y'. serve recv' send' p c t = Some y' \<and> rel_prod (=) (rel_prod (=) R) y y'"
      proof (cases "co_done c \<or> isl r")
        case True
        with body eq s1 t1 \<open>R s t\<close> show ?thesis
          by (subst serve.simps) (auto split: sum.splits)
      next
        case False
        then obtain fr where fr: "r = Inr fr" "\<not> co_done c" by (cases r) auto
        obtain x c' s2 where s2: "handle_frame send p fr c s1 = (x, c', s2)" by (metis prod_cases3)
        with handle_frame_alike [OF t1(2), of p fr c] obtain t2
          where t2: "handle_frame send' p fr c t1 = (x, c', t2)" "R s2 t2"
          by (cases "handle_frame send' p fr c t1") auto
        show ?thesis
        proof (cases x)
          case None
          with body eq s1 fr s2 have "f r0 s0 p c' s2 = Some y" by simp
          from IH [OF this] eq t2(2) have "\<exists>y'. serve recv' send' p c' t2 = Some y' \<and> rel_prod (=) (rel_prod (=) R) y y'"
            by (simp add: Q_def)
          with t1(1) fr t2(1) None show ?thesis by (subst serve.simps) simp
        next
          case (Some z)
          with body eq s1 fr s2 t1(1) t2 show ?thesis by (subst serve.simps) auto
        qed
      qed
    qed
  qed
  with assms(2) show ?thesis by (simp add: Q_def)
qed

lemma connection_alike:
  assumes "connection recv send persist c s = Some y" and "R s t"
  shows "\<exists>y'. connection recv' send' persist c t = Some y' \<and> rel_prod (=) (rel_prod (=) R) y y'"
proof -
  let ?c = "c\<lparr>co_boot := None, co_done := False\<rparr>"
  obtain x c' s' where s': "serve recv send persist ?c s = Some (x, c', s')"
    using assms(1) by (auto simp: connection_def split: option.splits)
  from serve_alike [OF s' assms(2)] obtain t'
    where "serve recv' send' persist ?c t = Some (x, c', t')" "R s' t'" by auto
  with s' assms(1) show ?thesis by (auto simp: connection_def split: option.splits)
qed

lemma simulation_conversep: "socket_simulation recv' send' recv send R\<inverse>\<inverse>"
proof
  fix s t n data
  assume "R\<inverse>\<inverse> t s"
  then have "R s t" by simp
  from recv_alike [OF this] show "rel_prod (=) R\<inverse>\<inverse> (recv' n t) (recv n s)" by (auto simp: rel_prod_sel)
  from send_alike [OF \<open>R s t\<close>] show "rel_prod (=) R\<inverse>\<inverse> (send' data t) (send data s)" by (auto simp: rel_prod_sel)
qed

lemma run_script_alike:
  "R s t \<Longrightarrow> rel_option (rel_prod (=) (rel_prod (=) R)) (run_script recv send wid boot epoch b lines s out)
     (run_script recv' send' wid boot epoch b lines t out)"
proof (induction lines arbitrary: epoch b s t out)
  case (Cons line lines)
  show ?case
  proof (cases "script_command wid boot epoch b line")
    case (Some cmd)
    then show ?thesis
    proof (cases cmd)
      case (Send k payload)
      obtain x s1 where s1: "send_frame send k payload s = (x, s1)" by force
      with alikeE [OF send_frame_alike [OF Cons.prems]] obtain t1
        where t1: "send_frame send' k payload t = (x, t1)" "R s1 t1" by blast
      obtain y s2 where s2: "recv_frame recv s1 = (y, s2)" by force
      with alikeE [OF recv_frame_alike [OF t1(2)]] obtain t2
        where t2: "recv_frame recv' t1 = (y, t2)" "R s2 t2" by blast
      show ?thesis
        using Some Send s1 t1 s2 t2 Cons.IH [OF t2(2)] by (auto split: option.split sum.split)
    qed (use Some Cons in auto)
  qed simp
qed simp

lemma worker_main_alike:
  assumes "R s t"
  shows "rel_option (rel_prod (=) (rel_prod (=) R)) (worker_main recv send wid boot script s)
     (worker_main recv' send' wid boot script t)"
proof -
  obtain x s1 where s1: "send_frame send MsgKind_HELLO (pack_hello wid boot) s = (x, s1)" by force
  with alikeE [OF send_frame_alike [OF assms]] obtain t1
    where t1: "send_frame send' MsgKind_HELLO (pack_hello wid boot) t = (x, t1)" "R s1 t1" by blast
  obtain y s2 where s2: "recv_frame recv s1 = (y, s2)" by force
  with alikeE [OF recv_frame_alike [OF t1(2)]] obtain t2
    where t2: "recv_frame recv' t1 = (y, t2)" "R s2 t2" by blast
  show ?thesis
    using s1 t1 s2 t2 run_script_alike [OF t2(2)] by (auto simp: worker_main_def split: option.split sum.split)
qed

end

end
