(* ===== verification/Processes.thy ===== *)
theory Processes
  imports Sockets
begin

text \<open>
  The processes as the operating system sees them. The locale \<open>socket_api\<close> is what POSIX promises of
  descriptors, \<open>network\<close> adds the connections that arrive and the socket behind each descriptor; both
  are interpreted by a machine with a table of descriptors. The coordinator's \<^verbatim>\<open>main\<close> is then the loop
  over connections of the theory \<open>Coordinator\<close>, run on the connections that \<^verbatim>\<open>accept\<close> returns until it
  fails or has no more, and both programs are shown to close what they open, or where they do not.
\<close>

section \<open>Descriptors\<close>

locale socket_api =
  fixes os :: "'w os" and fds :: "'w \<Rightarrow> int set"
  assumes socket_fds: "os_socket os w = (h, w') \<Longrightarrow>
      if h < 0 then fds w' = fds w else h \<notin> fds w \<and> fds w' = insert h (fds w)"
    and accept_fds: "os_accept os srv w = (h, w') \<Longrightarrow>
      if h < 0 then fds w' = fds w else h \<notin> fds w \<and> fds w' = insert h (fds w)"
    and close_fds: "fds (os_close os h w) = fds w - {h}"
    and reuse_fds: "fds (os_reuse os h w) = fds w"
    and bind_fds: "fds (snd (os_bind os h addr p w)) = fds w"
    and listen_fds: "fds (snd (os_listen os h n w)) = fds w"
    and connect_fds: "fds (snd (os_connect os h addr p w)) = fds w"
    and recv_fds: "fds (snd (os_recv os h k w)) = fds w"
    and send_fds: "fds (snd (os_send os h data w)) = fds w"
begin

text \<open>What a process does on a descriptor opens and closes none.\<close>

lemma self_simulation:
  "socket_simulation (os_recv os h) (os_send os h) (os_recv os h) (os_send os h) (\<lambda>w w'. w' = w \<and> fds w = F)"
  by unfold_locales (auto simp: rel_prod_sel recv_fds send_fds)

lemma connection_fds: "connection (os_recv os h) (os_send os h) persist c w = Some (x, c', w') \<Longrightarrow> fds w' = fds w"
  using socket_simulation.connection_alike [OF self_simulation [of h "fds w"], of persist c w _ w] by auto

lemma worker_main_fds:
  "worker_main (os_recv os h) (os_send os h) wid boot script w = Some (x, out, w') \<Longrightarrow> fds w' = fds w"
  using socket_simulation.worker_main_alike [OF self_simulation [of h "fds w"], of w w wid boot script] by auto

lemma call_fds:
  "os_bind os h addr p w = (r, w') \<Longrightarrow> fds w' = fds w"
  "os_listen os h n w = (r, w') \<Longrightarrow> fds w' = fds w"
  "os_connect os h addr p w = (r, w') \<Longrightarrow> fds w' = fds w"
  using bind_fds [of h addr p w] listen_fds [of h n w] connect_fds [of h addr p w] by auto

lemma tcp_close_fds: "0 \<le> h \<Longrightarrow> fds (tcp_close os h w) = fds w - {h}"
  by (simp add: tcp_close_def close_fds)

lemma server_open_fds:
  "server_open os port w = (r, w') \<Longrightarrow>
     (case r of Inl _ \<Rightarrow> fds w' = fds w | Inr srv \<Rightarrow> 0 \<le> srv \<and> srv \<notin> fds w \<and> fds w' = insert srv (fds w))"
  using socket_fds [of w]
  by (auto simp: server_open_def tcp_close_fds reuse_fds not_less dest!: call_fds split: prod.splits if_splits)

lemma server_accept_fds:
  "server_accept os srv w = (r, w') \<Longrightarrow>
     (case r of Inl _ \<Rightarrow> fds w' = fds w | Inr h \<Rightarrow> 0 \<le> h \<and> h \<notin> fds w \<and> fds w' = insert h (fds w))"
  using accept_fds [of srv w] by (auto simp: server_accept_def split: prod.splits if_splits)

text \<open>The host address is parsed after the socket has been opened; where it is no address the socket
  stays open.\<close>

lemma tcp_connect_fds:
  "tcp_connect os host port w = (r, w') \<Longrightarrow>
     (case r of Inr h \<Rightarrow> 0 \<le> h \<and> h \<notin> fds w \<and> fds w' = insert h (fds w)
      | Inl x \<Rightarrow> if x = runtime_error ''invalid host address''
          then \<exists>h. 0 \<le> h \<and> h \<notin> fds w \<and> fds w' = insert h (fds w) else fds w' = fds w)"
  using socket_fds [of w]
  by (auto simp: tcp_connect_def close_fds not_less dest!: call_fds split: prod.splits if_splits option.splits)

end

text \<open>The loop over connections: at its end everything is closed but, after an exception, the connection
  the exception came out of.\<close>

definition closed_but_one :: "int set \<Rightarrow> int set \<Rightarrow> bool" where
  "closed_but_one F F' \<longleftrightarrow> F' = F \<or> (\<exists>h. h \<notin> F \<and> F' = insert h F)"

context socket_api
begin

lemma accept_connections_fds:
  assumes "accept_connections os srv persist c w = Some y" and "0 \<le> srv" and "srv \<in> fds w"
  shows "case y of (code, c', w') \<Rightarrow> (code = 0 \<and> fds w' = fds w - {srv}) \<or>
    (code = 1 \<and> closed_but_one (fds w - {srv}) (fds w'))"
proof -
  define Q where "Q w y \<longleftrightarrow> (srv \<in> fds w \<longrightarrow> (case y of (code, c', w') \<Rightarrow> (code = 0 \<and> fds w' = fds w - {srv}) \<or>
    (code = 1 \<and> closed_but_one (fds w - {srv}) (fds w'))))" for w and y :: "int \<times> Coordinator \<times> 'w"
  have "os = os \<and> srv = srv \<longrightarrow> Q w y"
  proof (rule accept_connections.raw_induct [where P = "\<lambda>os0 srv0 p c w y. os0 = os \<and> srv0 = srv \<longrightarrow> Q w y",
        OF _ assms(1)], intro impI)
    fix f os0 srv0 p c w y
    assume IH: "\<And>os0 srv0 p c w y. f os0 srv0 p c w = Some y \<Longrightarrow> os0 = os \<and> srv0 = srv \<longrightarrow> Q w y"
      and body: "(case server_accept os0 srv0 w of (Inl _, w1) \<Rightarrow> Some (1, c, tcp_close os0 srv0 w1)
        | (Inr h, w1) \<Rightarrow>
            (case connection (os_recv os0 h) (os_send os0 h) p c w1 of None \<Rightarrow> None
             | Some (Some _, c', w2) \<Rightarrow> Some (1, c', tcp_close os0 srv0 w2)
             | Some (None, c', w2) \<Rightarrow>
                 if co_done c' then Some (0, c', tcp_close os0 srv0 (tcp_close os0 h w2))
                 else f os0 srv0 p c' (tcp_close os0 h w2))) = Some y"
      and eq: "os0 = os \<and> srv0 = srv"
    obtain r w1 where a: "server_accept os srv w = (r, w1)" by force
    show "Q w y"
    proof (cases r)
      case (Inl x)
      with a body eq server_accept_fds [OF a] assms(2) show ?thesis
        by (auto simp: Q_def closed_but_one_def tcp_close_fds)
    next
      case (Inr h)
      with server_accept_fds [OF a] have h: "0 \<le> h" "h \<notin> fds w" "fds w1 = insert h (fds w)" by auto
      from a body eq Inr obtain x c' w2 where c: "connection (os_recv os h) (os_send os h) p c w1 = Some (x, c', w2)"
        by (auto split: option.splits)
      from connection_fds [OF this] h have w2: "fds w2 = insert h (fds w)" by simp
      show ?thesis
      proof (cases "x = None \<and> \<not> co_done c'")
        case True
        with a body eq Inr c have "f os0 srv0 p c' (tcp_close os h w2) = Some y" by simp
        from IH [OF this] eq have "Q (tcp_close os h w2) y" by simp
        with h w2 show ?thesis by (simp add: Q_def tcp_close_fds)
      next
        case False
        with a body eq Inr c h w2 assms(2) show ?thesis
          by (auto simp: Q_def closed_but_one_def tcp_close_fds split: option.splits if_splits)
      qed
    qed
  qed
  with assms(3) show ?thesis by (simp add: Q_def)
qed

lemma coordinator_process_fds:
  assumes "coordinator_process os argv d w = Some (code, d', w')"
  shows "(code = 0 \<and> fds w' = fds w) \<or> (code \<in> {1, 2} \<and> closed_but_one (fds w) (fds w'))"
proof (cases "\<exists>port srv w1. atoi (argv ! 1) = Some port \<and> server_open os port w = (Inr srv, w1) \<and> 2 \<le> length argv")
  case True
  then obtain port srv w1 where o: "atoi (argv ! 1) = Some port" "server_open os port w = (Inr srv, w1)" "2 \<le> length argv"
    by blast
  from server_open_fds [OF o(2)] have srv: "0 \<le> srv" "srv \<notin> fds w" "fds w1 = insert srv (fds w)" by simp_all
  from o assms obtain persist c c' where "accept_connections os srv persist c w1 = Some (code, c', w')"
    by (auto simp: coordinator_process_def Let_def split: option.splits prod.splits)
  from accept_connections_fds [OF this srv(1)] srv show ?thesis by auto
next
  case False
  moreover have "fds w1 = fds w" if "server_open os port w = (Inl x, w1)" for port x w1
    using server_open_fds [OF that] by simp
  moreover have "closed_but_one (fds w) (fds w)" by (simp add: closed_but_one_def)
  ultimately show ?thesis
    using assms by (auto simp: coordinator_process_def Let_def not_less [symmetric]
        split: if_splits option.splits prod.splits sum.splits)
qed

lemma worker_process_fds:
  assumes "worker_process os script_of argv w = Some (code, out, w')"
  shows "(code = 0 \<and> fds w' = fds w) \<or> (code \<in> {1, 2} \<and> closed_but_one (fds w) (fds w'))"
proof (cases "\<exists>port h w1. atoi (argv ! 2) = Some port \<and> tcp_connect os (argv ! 1) port w = (Inr h, w1) \<and> 6 \<le> length argv")
  case True
  then obtain port h w1 where o: "atoi (argv ! 2) = Some port" "tcp_connect os (argv ! 1) port w = (Inr h, w1)"
    "6 \<le> length argv" by blast
  from tcp_connect_fds [OF o(2)] have h: "0 \<le> h" "h \<notin> fds w" "fds w1 = insert h (fds w)" by simp_all
  from o assms obtain x w2 where x: "worker_main (os_recv os h) (os_send os h) (StrongId (strtoull (argv ! 3)))
      (StrongId (strtoull (argv ! 4))) (script_of (argv ! 5)) w1 = Some (x, out, w2)"
    "code = (if x = None then 0 else 1)" "w' = (if x = None then tcp_close os h w2 else w2)"
    by (auto simp: worker_process_def split: option.splits)
  from worker_main_fds [OF x(1)] h x(2,3) show ?thesis
    by (cases x) (auto simp: closed_but_one_def tcp_close_fds)
next
  case False
  moreover have "closed_but_one (fds w) (fds w1)" if "tcp_connect os host port w = (Inl x, w1)" for host port x w1
    using tcp_connect_fds [OF that] by (auto simp: closed_but_one_def split: if_splits)
  moreover have "closed_but_one (fds w) (fds w)" by (simp add: closed_but_one_def)
  ultimately show ?thesis
    using assms by (auto simp: worker_process_def not_less [symmetric]
        split: if_splits option.splits prod.splits sum.splits)
qed

end

section \<open>Connections\<close>

context socket_simulation
begin

lemma connection_option:
  assumes "R s t"
  shows "rel_option (rel_prod (=) (rel_prod (=) R)) (connection recv send persist c s) (connection recv' send' persist c t)"
proof (cases "connection recv send persist c s")
  case None
  have "connection recv' send' persist c t = None"
  proof (rule ccontr)
    assume "connection recv' send' persist c t \<noteq> None"
    then obtain y where "connection recv' send' persist c t = Some y" by blast
    from socket_simulation.connection_alike [OF simulation_conversep this] assms None show False by force
  qed
  with None show ?thesis by simp
next
  case (Some y)
  from connection_alike [OF Some assms] Some show ?thesis by auto
qed

end

locale network = socket_api os fds for os :: "'w os" and fds :: "'w \<Rightarrow> int set" +
  fixes queue :: "'w \<Rightarrow> 's list" and sock :: "'w \<Rightarrow> int \<Rightarrow> 's" and recv :: "'s recv" and send :: "'s send"
  assumes accept_next: "queue w = s # ss \<Longrightarrow> os_accept os srv w = (h, w') \<Longrightarrow>
      0 \<le> h \<Longrightarrow> sock w' h = s \<and> queue w' = ss"
    and recv_sock: "h \<in> fds w \<Longrightarrow> os_recv os h n w = (r, w') \<Longrightarrow>
      recv n (sock w h) = (r, sock w' h) \<and> queue w' = queue w"
    and send_sock: "h \<in> fds w \<Longrightarrow> os_send os h data w = (k, w') \<Longrightarrow>
      send data (sock w h) = (k, sock w' h) \<and> queue w' = queue w"
    and socket_queue: "queue (snd (os_socket os w)) = queue w"
    and reuse_queue: "queue (os_reuse os h w) = queue w"
    and bind_queue: "queue (snd (os_bind os h addr p w)) = queue w"
    and listen_queue: "queue (snd (os_listen os h backlog w)) = queue w"
    and close_queue: "queue (os_close os h w) = queue w"
begin

lemma socket_behind:
  "socket_simulation (os_recv os h) (os_send os h) recv send (\<lambda>w s. s = sock w h \<and> h \<in> fds w \<and> queue w = Q)"
proof
  fix w s n data
  assume R: "s = sock w h \<and> h \<in> fds w \<and> queue w = Q"
  obtain r w' where r: "os_recv os h n w = (r, w')" by force
  with R recv_sock [of h w n r w'] recv_fds [of h n w]
  show "rel_prod (=) (\<lambda>w s. s = sock w h \<and> h \<in> fds w \<and> queue w = Q) (os_recv os h n w) (recv n s)" by simp
  obtain k w'' where k: "os_send os h data w = (k, w'')" by force
  with R send_sock [of h w data k w''] send_fds [of h data w]
  show "rel_prod (=) (\<lambda>w s. s = sock w h \<and> h \<in> fds w \<and> queue w = Q) (os_send os h data w) (send data s)" by simp
qed

lemma server_open_queue: "server_open os port w = (r, w') \<Longrightarrow> queue w' = queue w"
  using socket_queue [of w] bind_queue listen_queue
  by (auto simp: server_open_def tcp_close_def close_queue reuse_queue split: prod.splits if_splits)
    (metis reuse_queue snd_conv)+

text \<open>The process serves connections of the queue, as many as \<^verbatim>\<open>accept\<close> returns. Then it has ended with
  the code of the abstract loop, or it is at \<^verbatim>\<open>accept\<close> again, with every connection closed: because none is
  left, or because \<^verbatim>\<open>accept\<close> fails.\<close>

lemma accept_connections_refines:
  "\<exists>ss rest. queue w = ss @ rest \<and>
     (case accept_loop recv send persist c ss of
        None \<Rightarrow> accept_connections os srv persist c w = None
      | Some (Some code, c') \<Rightarrow> \<exists>w'. accept_connections os srv persist c w = Some (code, c', w')
      | Some (None, c') \<Rightarrow> \<exists>w'. accept_connections os srv persist c w = accept_connections os srv persist c' w' \<and>
          queue w' = rest \<and> fds w' = fds w \<and> (rest = [] \<or> fst (os_accept os srv w') < 0))"
proof (induction "queue w" arbitrary: c w)
  case Nil
  then show ?case by auto
next
  case (Cons s ss)
  obtain h w1 where a: "os_accept os srv w = (h, w1)" by force
  show ?case
  proof (cases "h < 0")
    case True
    with a have "fst (os_accept os srv w) < 0" by simp
    then have none: "case accept_loop recv send persist c [] of
        None \<Rightarrow> accept_connections os srv persist c w = None
      | Some (Some code, c') \<Rightarrow> \<exists>w'. accept_connections os srv persist c w = Some (code, c', w')
      | Some (None, c') \<Rightarrow> \<exists>w'. accept_connections os srv persist c w = accept_connections os srv persist c' w' \<and>
          queue w' = queue w \<and> fds w' = fds w \<and> (queue w = [] \<or> fst (os_accept os srv w') < 0)"
      by auto
    show ?thesis
    proof (intro exI conjI)
      show "queue w = [] @ queue w" by simp
    qed (rule none)
  next
    case False
    with accept_next [OF Cons.hyps(2) [symmetric] a] accept_fds [OF a]
    have h: "0 \<le> h" "sock w1 h = s" "queue w1 = ss" "h \<in> fds w1" "h \<notin> fds w" "fds w1 = insert h (fds w)" by simp_all
    from a h(1) have acc: "server_accept os srv w = (Inr h, w1)" by (simp add: server_accept_def)
    have rel: "rel_option (rel_prod (=) (rel_prod (=) (\<lambda>w s. s = sock w h \<and> h \<in> fds w \<and> queue w = ss)))
        (connection (os_recv os h) (os_send os h) persist c w1) (connection recv send persist c s)"
      by (rule socket_simulation.connection_option [OF socket_behind]) (simp add: h)
    have one: "queue w = [s] @ ss" by (simp add: Cons.hyps(2) [symmetric])
    show ?thesis
    proof (cases "connection recv send persist c s")
      case None
      with rel have "connection (os_recv os h) (os_send os h) persist c w1 = None" by simp
      then have stuck: "accept_connections os srv persist c w = None"
        using acc by (subst accept_connections.simps) simp
      show ?thesis
      proof (intro exI conjI)
        show "queue w = [s] @ ss" by (rule one)
      qed (simp add: None stuck)
    next
      case (Some y)
      obtain x c' s' where y: "y = (x, c', s')" by (cases y) auto
      from rel Some y obtain w2 where w2: "connection (os_recv os h) (os_send os h) persist c w1 = Some (x, c', w2)"
        "queue w2 = ss" by (auto simp: option_rel_Some2)
      let ?w = "tcp_close os h w2"
      have q: "queue ?w = ss" using w2(2) by (simp add: tcp_close_def close_queue)
      have fds: "fds ?w = fds w" using connection_fds [OF w2(1)] h by (simp add: tcp_close_fds)
      show ?thesis
      proof (cases "x = None \<and> \<not> co_done c'")
        case True
        have step: "accept_connections os srv persist c w = accept_connections os srv persist c' ?w"
          using True acc w2(1) by (subst accept_connections.simps) simp
        from Cons.hyps(1) [OF q [symmetric], of c'] obtain ss' rest where IH: "ss = ss' @ rest"
          "case accept_loop recv send persist c' ss' of
              None \<Rightarrow> accept_connections os srv persist c' ?w = None
            | Some (Some code, c'') \<Rightarrow> \<exists>w'. accept_connections os srv persist c' ?w = Some (code, c'', w')
            | Some (None, c'') \<Rightarrow> \<exists>w'. accept_connections os srv persist c' ?w = accept_connections os srv persist c'' w' \<and>
                queue w' = rest \<and> fds w' = fds ?w \<and> (rest = [] \<or> fst (os_accept os srv w') < 0)"
          unfolding q by blast
        have same: "accept_loop recv send persist c (s # ss') = accept_loop recv send persist c' ss'"
          using True Some y by simp
        show ?thesis
        proof (intro exI conjI)
          show "queue w = (s # ss') @ rest" by (simp add: one IH(1))
        qed (unfold same step, rule IH(2) [unfolded fds])
      next
        case False
        then have ends: "\<exists>w'. accept_connections os srv persist c w = Some (if x = None then 0 else 1, c', w')"
          using acc w2(1) by (subst accept_connections.simps) (auto split: option.split)
        show ?thesis
        proof (intro exI conjI)
          show "queue w = [s] @ ss" by (rule one)
        qed (use False Some y ends in \<open>auto split: option.split if_splits\<close>)
      qed
    qed
  qed
qed

lemma accept_fails:
  assumes "fst (os_accept os srv w) < 0" and "0 \<le> srv" and "srv \<in> fds w"
  shows "\<exists>w'. accept_connections os srv persist c w = Some (1, c, w') \<and> fds w' = fds w - {srv}"
proof -
  obtain h w1 where a: "os_accept os srv w = (h, w1)" by force
  with assms accept_fds [OF a] show ?thesis
    by (subst accept_connections.simps) (simp add: server_accept_def tcp_close_fds)
qed

text \<open>Once the server is open: the process is the coordinator on the connections \<^verbatim>\<open>accept\<close> returns. It has
  ended with them, or waits for a further one.\<close>

lemma coordinator_process_outcome:
  assumes stream: "ending_stream recv send pending"
    and argv: "2 \<le> length argv" "atoi (argv ! 1) = Some port" and opened: "server_open os port w = (Inr srv, w1)"
  shows "\<exists>ss rest code c. queue w = ss @ rest \<and>
    coordinator_main recv send (arg_or argv 2 []) d ss = Some (code, c) \<and>
    (case code of
       Some k \<Rightarrow> \<exists>w'. coordinator_process os argv d w = Some (k, co_disk c, w') \<and> (k = 0 \<longleftrightarrow> co_done c) \<and>
         (if k = 0 then fds w' = fds w else k = 1 \<and> closed_but_one (fds w) (fds w'))
     | None \<Rightarrow> \<exists>w'. queue w' = rest \<and> fds w' = insert srv (fds w) \<and>
         coordinator_process os argv d w = map_option (\<lambda>(k, c', w''). (k, co_disk c', w''))
           (accept_connections os srv (arg_or argv 2 []) c w') \<and>
         (rest = [] \<or> fst (os_accept os srv w') < 0) \<and>
         (if fst (os_accept os srv w') < 0
          then \<exists>w''. coordinator_process os argv d w = Some (1, co_disk c, w'') \<and> fds w'' = fds w else True))"
proof -
  let ?p = "arg_or argv 2 []"
  let ?c = "\<lparr>co_engine = startup_engine ?p d, co_disk = d, co_boot = None, co_done = False\<rparr>"
  have srv: "0 \<le> srv" "srv \<notin> fds w" "fds w1 = insert srv (fds w)" "queue w1 = queue w"
    using server_open_fds [OF opened] server_open_queue [OF opened] by simp_all
  have proc: "coordinator_process os argv d w =
      map_option (\<lambda>(k, c', w''). (k, co_disk c', w'')) (accept_connections os srv ?p ?c w1)"
    using argv opened by (auto simp: coordinator_process_def Let_def not_less [symmetric] split: option.split)
  from accept_connections_refines [where w = w1 and persist = ?p and c = ?c and srv = srv] obtain ss rest where q: "queue w = ss @ rest"
    and out: "case accept_loop recv send ?p ?c ss of
        None \<Rightarrow> accept_connections os srv ?p ?c w1 = None
      | Some (Some code, c') \<Rightarrow> \<exists>w'. accept_connections os srv ?p ?c w1 = Some (code, c', w')
      | Some (None, c') \<Rightarrow> \<exists>w'. accept_connections os srv ?p ?c w1 = accept_connections os srv ?p c' w' \<and>
          queue w' = rest \<and> fds w' = fds w1 \<and> (rest = [] \<or> fst (os_accept os srv w') < 0)"
    unfolding srv(4) by blast
  from ending_stream.accept_loop_codes [OF stream, where persist = ?p and c = ?c and ss = ss]
  obtain code c where c: "accept_loop recv send ?p ?c ss = Some (code, c)"
    "case code of None \<Rightarrow> True | Some k \<Rightarrow> (k = 0 \<or> k = 1) \<and> (k = 0 \<longleftrightarrow> co_done c)" by blast
  show ?thesis
  proof (intro exI conjI, rule q)
    show "coordinator_main recv send ?p d ss = Some (code, c)" by (simp add: coordinator_main_def c(1))
  next
    show "case code of
       Some k \<Rightarrow> \<exists>w'. coordinator_process os argv d w = Some (k, co_disk c, w') \<and> (k = 0 \<longleftrightarrow> co_done c) \<and>
         (if k = 0 then fds w' = fds w else k = 1 \<and> closed_but_one (fds w) (fds w'))
     | None \<Rightarrow> \<exists>w'. queue w' = rest \<and> fds w' = insert srv (fds w) \<and>
         coordinator_process os argv d w = map_option (\<lambda>(k, c', w''). (k, co_disk c', w''))
           (accept_connections os srv ?p c w') \<and>
         (rest = [] \<or> fst (os_accept os srv w') < 0) \<and>
         (if fst (os_accept os srv w') < 0
          then \<exists>w''. coordinator_process os argv d w = Some (1, co_disk c, w'') \<and> fds w'' = fds w else True)"
    proof (cases code)
      case None
      with out c(1) obtain w' where w': "accept_connections os srv ?p ?c w1 = accept_connections os srv ?p c w'"
        "queue w' = rest" "fds w' = insert srv (fds w)" "rest = [] \<or> fst (os_accept os srv w') < 0"
        by (auto simp: srv(3))
      from accept_fails [where srv = srv and w = w' and persist = ?p and c = c] w'(3) srv(1,2) have
        "fst (os_accept os srv w') < 0 \<Longrightarrow> \<exists>w''. accept_connections os srv ?p c w' = Some (1, c, w'') \<and> fds w'' = fds w"
        by simp
      then have "if fst (os_accept os srv w') < 0
          then \<exists>w''. coordinator_process os argv d w = Some (1, co_disk c, w'') \<and> fds w'' = fds w else True"
        by (auto simp: proc w'(1))
      with w' have waits: "queue w' = rest \<and> fds w' = insert srv (fds w) \<and>
         coordinator_process os argv d w = map_option (\<lambda>(k, c', w''). (k, co_disk c', w''))
           (accept_connections os srv ?p c w') \<and> (rest = [] \<or> fst (os_accept os srv w') < 0) \<and>
         (if fst (os_accept os srv w') < 0
          then \<exists>w''. coordinator_process os argv d w = Some (1, co_disk c, w'') \<and> fds w'' = fds w else True)"
        by (simp add: proc)
      show ?thesis unfolding None option.case by (rule exI, rule waits)
    next
      case (Some k)
      with out c(1) obtain w' where w': "accept_connections os srv ?p ?c w1 = Some (k, c, w')" by auto
      then have "coordinator_process os argv d w = Some (k, co_disk c, w')" by (simp add: proc)
      moreover from coordinator_process_fds [OF this] c(2) Some
      have "(k = 0 \<longleftrightarrow> co_done c) \<and> (if k = 0 then fds w' = fds w else k = 1 \<and> closed_but_one (fds w) (fds w'))"
        by auto
      ultimately show ?thesis using Some by simp
    qed
  qed
qed

end

section \<open>A machine\<close>

text \<open>A table of descriptors with the socket behind each, the ports in use, and the connections still to
  arrive; a client that connects takes the next of them as well.\<close>

record machine =
  mach_fds :: "int list"
  mach_sock :: "int \<Rightarrow> socket"
  mach_queue :: "socket list"
  mach_ports :: "u16 list"

definition fresh_fd :: "int list \<Rightarrow> int" where
  "fresh_fd hs = foldr max hs 2 + 1"

lemma fresh_fd: "fresh_fd hs \<notin> set hs" "0 \<le> fresh_fd hs"
proof -
  have "h \<le> foldr max hs 2" if "h \<in> set hs" for h using that by (induction hs) auto
  then show "fresh_fd hs \<notin> set hs" by (force simp: fresh_fd_def)
  have "2 \<le> foldr max hs 2" by (induction hs) auto
  then show "0 \<le> fresh_fd hs" by (simp add: fresh_fd_def)
qed

definition no_socket :: socket where
  "no_socket = \<lparr>sock_in = [], sock_room = [], sock_out = []\<rparr>"

definition open_fd :: "socket \<Rightarrow> machine \<Rightarrow> int \<times> machine" where
  "open_fd s w = (let h = fresh_fd (mach_fds w)
     in (h, w\<lparr>mach_fds := h # mach_fds w, mach_sock := (mach_sock w)(h := s)\<rparr>))"

definition on_sock :: "(socket \<Rightarrow> 'a \<times> socket) \<Rightarrow> int \<Rightarrow> machine \<Rightarrow> 'a \<times> machine" where
  "on_sock f h w = (case f (mach_sock w h) of (x, s) \<Rightarrow> (x, w\<lparr>mach_sock := (mach_sock w)(h := s)\<rparr>))"

definition machine_os :: "machine os" where
  "machine_os = \<lparr>os_socket = open_fd no_socket, os_reuse = (\<lambda>h w. w),
     os_bind = (\<lambda>h addr p w. if p \<in> set (mach_ports w) then (-1, w) else (0, w\<lparr>mach_ports := p # mach_ports w\<rparr>)),
     os_listen = (\<lambda>h n w. (0, w)),
     os_accept = (\<lambda>srv w. case mach_queue w of [] \<Rightarrow> (-1, w) | s # ss \<Rightarrow> open_fd s (w\<lparr>mach_queue := ss\<rparr>)),
     os_inet_pton = (\<lambda>host. if host = ''127.0.0.1'' then Some INADDR_LOOPBACK else None),
     os_connect = (\<lambda>h addr p w. case mach_queue w of [] \<Rightarrow> (-1, w)
       | s # ss \<Rightarrow> (0, w\<lparr>mach_queue := ss, mach_sock := (mach_sock w)(h := s)\<rparr>)),
     os_close = (\<lambda>h w. w\<lparr>mach_fds := removeAll h (mach_fds w)\<rparr>),
     os_recv = (\<lambda>h n. on_sock (recv_runs n) h), os_send = (\<lambda>h data. on_sock (send_runs data) h)\<rparr>"

lemma open_fd_fields [simp]:
  "fst (open_fd s w) = fresh_fd (mach_fds w)"
  "mach_fds (snd (open_fd s w)) = fresh_fd (mach_fds w) # mach_fds w"
  "mach_queue (snd (open_fd s w)) = mach_queue w"
  "mach_sock (snd (open_fd s (w\<lparr>mach_queue := ss\<rparr>))) (fresh_fd (mach_fds w)) = s"
  by (simp_all add: open_fd_def Let_def)

lemma on_sock_fields [simp]:
  "mach_fds (snd (on_sock f h w)) = mach_fds w" "mach_queue (snd (on_sock f h w)) = mach_queue w"
  "mach_sock (snd (on_sock f h w)) h = snd (f (mach_sock w h))" "fst (on_sock f h w) = fst (f (mach_sock w h))"
  by (simp_all add: on_sock_def split: prod.split)

interpretation machine: network machine_os "\<lambda>w. set (mach_fds w)" mach_queue mach_sock recv_runs send_runs
  by unfold_locales
    (auto simp: machine_os_def fresh_fd not_less [THEN iffD2, OF fresh_fd(2)] prod_eq_iff
      dest!: arg_cong [where f = fst] arg_cong [where f = snd] split: list.splits if_splits)

end
