(* ===== verification/Samples.thy ===== *)
theory Samples
  imports Programs QueryFacts Processes Lifetimes
begin

text \<open>
  A concrete worker, envelope, location and record, and the engines a short run reaches: a
  worker joins and publishes generation 5 of state 1 as record 10. They show that the
  hypotheses of the theorems on engines can be met.
\<close>

definition sample_location :: StateLocation where
  "sample_location = \<lparr>loc_placement_id = StrongId 20, loc_replica_id = StrongId 21, loc_node_id = StrongId 22,
     loc_device_id = StrongId 0, loc_domain_id = StrongId 23, loc_domain = MemoryDomain_HOST_MEMORY,
     loc_backend = StorageBackend_of 0, loc_tier = StorageTier_of 0,
     loc_location_generation = Generation 1, loc_placement_generation = Generation 1,
     loc_replica_generation = Generation 1, loc_address = ''host:0'', loc_byte_size = 4096,
     loc_access_class = AccessClass_LOCAL, loc_health = Health_HEALTHY, loc_freshness = Freshness_CURRENT,
     loc_provenance = Evidence_UNKNOWN, loc_locality_metadata = '''', loc_retrieval = default_estimate,
     loc_observation_generation = Generation 0, loc_provenance_generation = Generation 0,
     loc_authority_epoch = Generation 1, loc_authority_boot = StrongId 7, loc_created_at = 0,
     loc_updated_at = 0, loc_process_handle = None, loc_process_scope = None\<rparr>"

definition sample_record :: StateRecord where
  "sample_record = \<lparr>rec_record_id = StrongId 10, rec_state_id = StrongId 1, rec_state_generation = Generation 5,
     rec_record_generation = Generation 1, rec_kind = StateKind_of 1, rec_namespace_id = StrongId 2,
     rec_owner_id = StrongId 3, rec_producer_id = StrongId 4, rec_logical_size = 4096,
     rec_content_digest = ''ab'', rec_compatibility = None, rec_provenance = None, rec_dependencies = [],
     rec_locations = [sample_location], rec_lifecycle = Lifecycle_AVAILABLE, rec_freshness = Freshness_CURRENT,
     rec_health = Health_HEALTHY, rec_policy_generation = Generation 0, rec_authority_epoch = Generation 0,
     rec_authority_boot = StrongId 0, rec_created_at = 0, rec_updated_at = 0,
     rec_supersedes_generation = Generation 0, rec_description = ''sample'', rec_semantic_digest = '''',
     rec_is_historical = False\<rparr>"

definition sample_env :: MutationEnvelope where
  "sample_env = \<lparr>env_coordinator_epoch = Generation 1, env_worker_id = StrongId 3, env_worker_boot = StrongId 7,
     env_attempt_generation = Generation 1, env_dispatch_generation = Generation 1,
     env_state_generation = Generation 5, env_record_generation = Generation 1, env_owner_generation = Generation 0,
     env_producer_generation = Generation 0, env_worker_generation = Generation 0,
     env_location_generation = Generation 1, env_placement_generation = Generation 0,
     env_replica_generation = Generation 0, env_compatibility_generation = Generation 0,
     env_provenance_generation = Generation 0, env_dependency_generation = Generation 0,
     env_observation_generation = Generation 0, env_policy_generation = Generation 0\<rparr>"

definition sample_invalidation :: InvalidationRecord where
  "sample_invalidation = \<lparr>inv_invalidation_seq = 0, inv_invalidation_id = StrongId 30, inv_state_id = StrongId 1,
     inv_bound_generation = Generation 5, inv_coordinator_epoch = Generation 1, inv_worker_boot = StrongId 7,
     inv_record_generation = Generation 0, inv_location_generation = Generation 0,
     inv_compatibility_generation = Generation 0, inv_provenance_generation = Generation 0,
     inv_dependency_generation = Generation 0, inv_policy_generation = Generation 0, inv_reason = ''stale'',
     inv_timestamp = 0, inv_evidence = Evidence_UNKNOWN, inv_current = True\<rparr>"

definition sample_tombstone :: TombstoneRecord where
  "sample_tombstone = \<lparr>tomb_tombstone_id = StrongId 40, tomb_state_id = StrongId 1,
     tomb_floor_generation = Generation 6, tomb_coordinator_epoch = Generation 1, tomb_worker_boot = StrongId 7,
     tomb_reason = ''retired'', tomb_timestamp = 0, tomb_evidence = Evidence_UNKNOWN, tomb_current = True\<rparr>"

definition sample_joined :: StateIndexEngine where
  "sample_joined = register_worker (StrongId 3) (StrongId 7) (new_engine (Generation 1))"

definition sample_published :: StateIndexEngine where
  "sample_published = snd (register_state sample_record sample_env sample_joined)"

abbreviation sample_stamped :: StateRecord where
  "sample_stamped \<equiv> stamp sample_env sample_record"

lemma sample_joined_reachable: "engine_reachable sample_joined"
  unfolding sample_joined_def by (rule reach_step [OF reach_new step_register_worker])

lemma sample_published_reachable: "engine_reachable sample_published"
  unfolding sample_published_def by (rule reach_step [OF sample_joined_reachable step_register_state])

lemma sample_joined_inv: "engine_inv sample_joined" "service_inv {} sample_joined"
  using reachable_inv [OF sample_joined_reachable] by (simp_all add: engine_inv_service)

lemma sample_published_inv:
  "engine_inv sample_published" "service_inv {} sample_published" "serving sample_published"
  using reachable_inv [OF sample_published_reachable] by (simp_all add: engine_inv_service engine_inv_serving)

lemma sample_joined_fields:
  "eng_records sample_joined = []" "eng_current sample_joined = []" "eng_tombstones sample_joined = []"
  "eng_invalidations sample_joined = []" "auth_epoch (eng_authority sample_joined) = Generation 1"
  "is_live (eng_authority sample_joined) b \<longleftrightarrow> b = StrongId 7"
  "current_authority (eng_authority sample_joined) st = None"
  "tombstone_floor (eng_authority sample_joined) st = None"
  by (simp_all add: sample_joined_def register_worker_def new_engine_def new_authority_def is_live_def
      auth_register_worker_def current_authority_def tombstone_floor_def id_value_def split: StrongId.split)

lemma sample_may_register: "may_register sample_record sample_env sample_joined"
  by (simp add: may_register_def accepted_iff sample_joined_fields sample_env_def below_floor_def fenced_by_def
      get_record_def is_tombstoned_def sample_record_def is_set_def)

lemma sample_published_eq:
  "sample_published = count_record sample_stamped (make_current sample_stamped (add_new sample_stamped sample_joined))"
proof -
  have "find_state sample_joined (rec_state_id sample_stamped) = None"
    by (simp add: find_state_def sample_joined_fields)
  with register_state_accepted [OF sample_joined_inv(2) sample_may_register] show ?thesis
    by (simp add: sample_published_def publish_def)
qed

lemmas sample_counted = same_but_accounting_fields [OF same_but_accounting_count_record]

lemma sample_published_fields:
  "eng_records sample_published = [(StrongId 10, sample_stamped)]"
  "eng_current sample_published = [(StrongId 1, StrongId 10)]"
  "eng_tombstones sample_published = []" "eng_invalidations sample_published = []"
  "auth_epoch (eng_authority sample_published) = Generation 1"
  "is_live (eng_authority sample_published) b \<longleftrightarrow> b = StrongId 7"
proof -
  have live: "is_live (set_current_authority st g b' a) b = is_live a b" for st g b' a
    by (simp add: is_live_def)
  show "eng_records sample_published = [(StrongId 10, sample_stamped)]"
    "eng_current sample_published = [(StrongId 1, StrongId 10)]"
    "eng_tombstones sample_published = []" "eng_invalidations sample_published = []"
    "auth_epoch (eng_authority sample_published) = Generation 1"
    "is_live (eng_authority sample_published) b \<longleftrightarrow> b = StrongId 7"
    unfolding sample_published_eq sample_counted
    by (simp_all add: sample_joined_fields live sample_record_def [THEN arg_cong [where f = rec_record_id]]
        sample_record_def [THEN arg_cong [where f = rec_state_id]])
qed

lemma sample_owner: "location_owner (eng_indexes sample_published) (loc_placement_id sample_location) = Some (StrongId 10)"
  unfolding sample_published_eq
  by (simp add: location_owner_def same_but_accounting_fields(6) [OF same_but_accounting_count_record] idx_insert_owner
      sample_record_def)

lemma sample_find: "find_state sample_published (StrongId 1) = Some sample_stamped"
  by (simp add: find_state_def get_record_def sample_published_fields)

lemma sample_guard: "guard_authority sample_env sample_published = None"
  by (simp add: guard_authority_def sample_published_fields sample_env_def)

lemma sample_stamped_fields [simp]:
  "rec_record_id sample_record = StrongId 10" "rec_state_id sample_record = StrongId 1"
  "rec_state_generation sample_record = Generation 5" "rec_lifecycle sample_record = Lifecycle_AVAILABLE"
  "rec_locations sample_record = [sample_location]" "rec_dependencies sample_record = []"
  by (simp_all add: sample_record_def)

lemma sample_may_invalidate: "may_invalidate sample_invalidation sample_env sample_published"
  by (simp add: may_invalidate_def sample_guard sample_find sample_invalidation_def)

lemma sample_may_tombstone: "may_tombstone sample_tombstone sample_env sample_published"
  by (simp add: may_tombstone_def sample_guard sample_published_fields)

section \<open>The sample data are well formed\<close>

lemma sample_location_valid: "StateLocation_valid sample_location"
  by (simp add: StateLocation_valid_def sample_location_def RetrievalEstimate_valid_def default_estimate_def
      StorageBackend.ok_cast StorageTier.ok_cast)

lemma stamp_record_valid:
  assumes "StateRecord_valid r"
  shows "StateRecord_valid (stamp env r)"
  using assms by (simp add: StateRecord_valid_def stamp_def redigest_def compute_semantic_digest_def length_sha256_hex)

lemma sample_record_valid: "StateRecord_valid sample_record"
  using sample_location_valid
  by (simp add: StateRecord_valid_def sample_record_def StateKind.ok_cast kMaxLocationsPerRecord_def
      kMaxDependenciesPerRecord_def)

lemma sample_loadable: "loadable sample_stamped"
proof -
  have "persisted_record sample_stamped = sample_stamped"
  proof -
    have "List.map persisted_location (rec_locations sample_stamped) = rec_locations sample_stamped"
      by (simp add: persisted_location_def sample_location_def)
    moreover have "rec_is_historical sample_stamped = False" by simp
    ultimately show ?thesis by (simp add: persisted_record_def)
  qed
  then show ?thesis by (simp add: loadable_def stamp_record_valid sample_record_valid)
qed

lemma sample_saveable: "saveable sample_published"
  using sample_loadable
  by (simp add: saveable_def get_record_def sample_published_fields canonical_records_def um_ok_def
      kMaxRecordCount_def)

section \<open>A restart\<close>

lemma sample_published_lived: "engine_lived sample_published"
  by (rule reachable_lived [OF sample_published_reachable])

lemma sample_reloaded:
  "\<exists>e'. load_file (save_file sample_published) sample_joined = (None, e') \<and> engine_lived e' \<and>
     (\<forall>rid. (\<exists>r. get_record e' rid = Some r \<and> rec_state_id r = StrongId 1) \<longleftrightarrow> rid = StrongId 10)"
proof -
  obtain e' where e': "load_file (save_file sample_published) sample_joined = (None, e')"
      "e' = load_finish (loaded_before_finish sample_published sample_joined)"
    using load_saved [OF sample_saveable] by blast
  have lived: "engine_lived e'"
    using lived_load [OF reachable_lived [OF sample_joined_reachable]] e'(1) by blast
  have "(\<exists>r. get_record e' rid = Some r \<and> rec_state_id r = StrongId 1) \<longleftrightarrow> rid = StrongId 10" for rid
    using get_record_loaded [OF sample_saveable, of sample_joined rid] unfolding e'(2)
    by (auto simp: get_record_def sample_published_fields)
  with e'(1) lived show ?thesis by blast
qed

section \<open>A tombstone and a successor\<close>

text \<open>The state is tombstoned through generation 6 and published again with generation 7.\<close>

definition sample_entombed :: StateIndexEngine where
  "sample_entombed = snd (tombstone sample_tombstone sample_env sample_published)"

definition sample_successor :: StateRecord where
  "sample_successor = sample_record\<lparr>rec_record_id := StrongId 11, rec_state_generation := Generation 7\<rparr>"

lemma sample_entombed_inv: "engine_inv sample_entombed"
  unfolding sample_entombed_def by (rule engine_inv_tombstone [OF sample_published_inv(1)])

lemma sample_entombed_find: "find_state sample_entombed (StrongId 1) = None"
  unfolding sample_entombed_def
  by (subst find_state_tombstone [OF sample_published_inv(2) sample_may_tombstone])
    (simp add: sample_tombstone_def sample_find covers_def is_set_def)

lemma sample_may_succeed: "may_register sample_successor sample_env sample_entombed"
proof -
  let ?m = "mark_entombed (StrongId 1) (Generation 6) sample_published"
  have ids: "tomb_state_id sample_tombstone = StrongId 1" "tomb_floor_generation sample_tombstone = Generation 6"
    by (simp_all add: sample_tombstone_def)
  have views: "same_views sample_published ?m" by (rule mark_entombed(2) [OF sample_published_inv(2)])
  have member: "same_membership sample_published sample_entombed"
    unfolding sample_entombed_def using authority_kept_tombstone [OF sample_published_inv(1)] by blast
  have live: "is_live (eng_authority sample_entombed) (StrongId 7)"
    "auth_epoch (eng_authority sample_entombed) = Generation 1"
    using member sample_published_fields(5) sample_published_fields(6) [of "StrongId 7"]
    by (simp_all add: same_membership_def is_live_def)
  have cur: "current_authority (eng_authority sample_entombed) (StrongId 1) = None"
    using sample_entombed_inv sample_entombed_find by (simp add: engine_inv_def core_inv_def current_inv_def)
  have run: "sample_entombed = drop_tombstoned_current (StrongId 1)
      (raise_floor (StrongId 1) (stamp_tombstone sample_env sample_tombstone) ?m)"
    unfolding sample_entombed_def tombstone_accepted(2) [OF sample_may_tombstone] ids by simp
  have tombs: "eng_tombstones sample_entombed = [(StrongId 1, stamp_tombstone sample_env sample_tombstone)]"
    using views sample_published_fields
    by (simp add: run drop_tombstoned_current_def same_views_def split: option.split)
  have floor': "tombstone_floor (eng_authority sample_entombed) (StrongId 1) = Some (Generation 6)"
    using sample_entombed_inv tombs ids by (simp add: engine_inv_def core_inv_def tombstone_inv_def)
  have "get_record sample_published (StrongId 11) = None" by (simp add: get_record_def sample_published_fields)
  then have new: "get_record sample_entombed (StrongId 11) = None"
    unfolding sample_entombed_def
    by (simp only: get_record_tombstone [OF sample_published_inv(2) sample_may_tombstone] option.map)
  show ?thesis
    using live cur floor' new
    by (simp add: may_register_def accepted_iff sample_successor_def sample_env_def is_set_def below_floor_def
        fenced_by_def is_tombstoned_def tombs covers_def ids)
qed

definition sample_succeeded :: StateIndexEngine where
  "sample_succeeded = snd (register_state sample_successor sample_env sample_entombed)"

lemma sample_succeeded_find:
  "\<exists>r. find_state sample_succeeded (StrongId 1) = Some r \<and> rec_state_generation r = Generation 7"
proof -
  let ?r = "stamp sample_env sample_successor"
  have st: "rec_state_id sample_successor = StrongId 1" "rec_state_generation sample_successor = Generation 7"
    by (simp_all add: sample_successor_def)
  have "current_gen sample_succeeded (StrongId 1) = current_gen (publish ?r sample_entombed) (StrongId 1)"
    unfolding sample_succeeded_def using register_state_accepted [OF engine_inv_service [OF sample_entombed_inv] sample_may_succeed]
    by (simp add: current_gen_accounting [OF same_but_accounting_count_record])
  also have "\<dots> = Some (Generation 7)"
    using sample_entombed_find sample_may_succeed
    by (subst current_gen_publish [OF engine_inv_service [OF sample_entombed_inv]]) (simp_all add: may_register_def st current_gen_def)
  finally show ?thesis by (auto simp: current_gen_def)
qed

section \<open>A query\<close>

definition sample_query :: QueryDescriptor where
  "sample_query = default_query\<lparr>qd_state_id := Some (StrongId 1)\<rparr>"

lemma sample_scan: "scan_ids sample_published sample_query = {StrongId 10}"
  by (auto simp: scan_ids_def sample_query_def get_record_def sample_published_fields split: if_splits)

lemma sample_usable: "usable_locations sample_stamped sample_query = [sample_location]"
  by (simp add: usable_locations_def sample_query_def default_query_def default_constraint_def usable_def
      sample_location_def)

lemma sample_best: "best_location sample_query (usable_locations sample_stamped sample_query) = Some sample_location"
  by (simp add: sample_usable best_location_def)

lemma sample_admissible: "admissible (in_mode h sample_published) sample_stamped sample_query"
proof -
  have "is_current_record (in_mode h sample_published) sample_stamped"
    by (simp add: is_current_record_def sample_published_fields)
  moreover have "dep_satisfied sample_published sample_stamped" by (simp add: dep_satisfied_def)
  moreover have "place_asked sample_stamped sample_query"
    by (simp add: place_asked_def sample_best) (simp add: sample_query_def default_query_def f64_less_def f64_key_def)
  ultimately show ?thesis
    by (simp add: admissible_def same_identity_as_asked_def standing_def generation_asked_def evidence_asked_def
        sample_query_def default_query_def is_tombstoned_def sample_published_fields retired_lifecycle_def)
qed

lemma sample_ordinary: "\<forall>rid rec. get_record sample_published rid = Some rec \<longrightarrow> ordinary_record rec"
  by (auto simp: get_record_def sample_published_fields ordinary_record_def ordinary_estimate_def sample_location_def
      default_estimate_def split: if_splits)

lemma sample_evaluate:
  "evaluate_candidate (in_mode h sample_published) sample_stamped sample_query
     = accepted_candidate sample_stamped sample_query sample_location"
  using sample_admissible sample_best by (metis evaluate_admissible option.inject)

lemma sample_ranked:
  "ranked_assessments (in_mode h sample_published) sample_query
     = [accepted_candidate sample_stamped sample_query sample_location]"
proof -
  have inv: "queryable (in_mode h sample_published)"
    by (rule queryable_in_mode [OF engine_inv_queryable [OF sample_published_inv(1)]])
  have rec: "get_record sample_published (StrongId 10) = Some sample_stamped"
    by (simp add: get_record_def sample_published_fields)
  have "assessments (in_mode h sample_published) sample_query
      = [accepted_candidate sample_stamped sample_query sample_location]"
    unfolding assessments_map [OF inv] candidate_ids_scan [OF inv] by (simp add: sample_scan rec sample_evaluate)
  then show ?thesis by (simp add: ranked_assessments_def accepted_candidate_def sort_by_def)
qed

lemma sample_selected:
  "qr_selected_record_id (fst (run_query sample_query h sample_published)) = Some (StrongId 10)"
  by (simp add: run_query_selection sample_ranked accepted_candidate_def)

section \<open>A coordinator and a worker that says hello\<close>

definition sample_disk :: Disk where
  "sample_disk = \<lparr>disk_files = (\<lambda>_. None), disk_allows = (\<lambda>_. True), disk_room = 0\<rparr>"

definition sample_coordinator :: Coordinator where
  "sample_coordinator = \<lparr>co_engine = new_engine (Generation 1), co_disk = sample_disk, co_boot = None, co_done = False\<rparr>"

definition sample_hello :: Frame where
  "sample_hello = request MsgKind_HELLO (pack_hello (StrongId 3) (StrongId 7))"

lemma sample_hello_sendable: "sendable sample_hello"
  by (simp add: sendable_def sample_hello_def request_def known_kind_def pack_hello_def id_serialize_def
      kMaxFrameBytes_def)

lemma sample_hello_facts: "announced sample_hello = Some (StrongId 7)" "frame_kind sample_hello = MsgKind_HELLO"
  using unpack_hello_pack [where rest = "[]"] by (simp_all add: announced_def sample_hello_def request_def)

lemma sample_disk_writable: "writable (sample_disk\<lparr>disk_room := n\<rparr>) ''x''"
  by (simp add: writable_def sample_disk_def)

lemma sample_no_file: "cli_engine sample_disk = new_engine (Generation 1)"
  by (simp add: cli_engine_def load_missing sample_disk_def)

section \<open>A machine with one connection to come\<close>

definition sample_machine :: machine where
  "sample_machine = \<lparr>mach_fds = [], mach_sock = (\<lambda>_. no_socket),
     mach_queue = [\<lparr>sock_in = [encode_frame MsgKind_TERMINATE []], sock_room = [], sock_out = []\<rparr>], mach_ports = []\<rparr>"

lemma sample_server:
  "\<exists>w1. server_open machine_os 7000 sample_machine = (Inr (fst (open_fd no_socket sample_machine)), w1)"
  "atoi ''7000'' = Some 7000"
  by (simp_all add: server_open_def machine_os_def open_fd_def sample_machine_def fresh_fd_def Let_def)
    (simp add: atoi_def c_str_def is_space_def is_digit_def of_char_def)

lemma sample_no_address:
  "\<exists>w'. tcp_connect machine_os ''localhost'' 7000 sample_machine = (Inl (runtime_error ''invalid host address''), w')"
  by (simp add: tcp_connect_def machine_os_def open_fd_def sample_machine_def fresh_fd_def Let_def c_str_def)

end
