(* ===== verification/Typing.thy ===== *)
theory Typing
  imports Msgs
begin

text \<open>
  The readers are well typed: what a \<^verbatim>\<open>deserialize\<close> returns, from whatever bytes, is a valid value,
  one that the writer writes and the reader reads back. The locale \<open>typed_codec\<close> adds this to the
  contract of a codec; the codecs of all stored and transmitted data are interpretations.
\<close>

definition yields :: "('a \<Rightarrow> bool) \<Rightarrow> 'a parser \<Rightarrow> bool" where
  "yields P p \<longleftrightarrow> (\<forall>r x r'. p r = Inr (x, r') \<longrightarrow> P x)"

section \<open>Rules\<close>

lemma yields_any: "yields (\<lambda>_. True) p"
  by (simp add: yields_def)

lemma yields_ret: "P x \<Longrightarrow> yields P (ret x)"
  by (simp add: yields_def ret_def)

lemma yields_throw: "yields P (throw msg)"
  by (simp add: yields_def throw_def)

lemma yields_if: "yields P p \<Longrightarrow> yields P q \<Longrightarrow> yields P (if b then p else q)"
  by simp

lemma yields_bind: "yields Q p \<Longrightarrow> (\<And>x. Q x \<Longrightarrow> yields P (f x)) \<Longrightarrow> yields P (bindr p f)"
  unfolding yields_def bindr_def by (fastforce split: sum.splits)

lemma yields_string: "yields (\<lambda>s. length s < 2 ^ 64) read_string"
proof -
  have "length s < 2 ^ 64" if got: "read_string r = Inr (s, r')" for r s r'
  proof -
    obtain n r1 where n: "read_u64 r = Inr (n, r1)"
      using got by (auto simp: read_string_def bindr_def split: sum.splits)
    with got have "length s \<le> unat n"
      by (auto simp: read_string_def bindr_def throw_def require_def ret_def split: if_splits)
    also have "unat n < 2 ^ 64" using unsigned_less [of n] by simp
    finally show ?thesis .
  qed
  then show ?thesis by (auto simp: yields_def)
qed

lemma yields_opt: "yields P p \<Longrightarrow> yields (pred_option P) (read_opt p)"
  unfolding read_opt_def
  by (rule yields_bind [OF yields_any], rule yields_if, erule yields_bind) (simp_all add: yields_ret)

lemma yields_n: "yields P p \<Longrightarrow> yields (\<lambda>xs. list_all P xs \<and> length xs = n) (read_n n p)"
proof (induction n)
  case (Suc n)
  from Suc.IH [OF Suc.prems] show ?case
    by (auto intro!: yields_bind [OF Suc.prems] yields_ret elim: yields_bind)
qed (simp add: yields_ret)

lemma yields_mono: "yields P p \<Longrightarrow> (\<And>x. P x \<Longrightarrow> Q x) \<Longrightarrow> yields Q p"
  by (auto simp: yields_def)

lemma yields_list: "yields P p \<Longrightarrow> yields (\<lambda>xs. (\<forall>x\<in>set xs. P x) \<and> length xs \<le> unat bound) (read_list bound msg p)"
  unfolding read_list_def
proof (rule yields_bind [OF yields_any])
  fix n
  assume "yields P p"
  from yields_n [OF this, of "unat n"]
  show "yields (\<lambda>xs. (\<forall>x\<in>set xs. P x) \<and> length xs \<le> unat bound) (if n > bound then throw msg else read_n (unat n) p)"
    by (cases "n > bound") (auto simp: yields_throw not_less word_le_nat_alt list_all_iff elim: yields_mono)
qed

section \<open>The codecs\<close>

locale typed_codec = codec +
  assumes typed: "yields valid dec"
begin

lemma decoded_valid: "dec r = Inr (x, r') \<Longrightarrow> valid x"
  using typed by (auto simp: yields_def)

text \<open>What was read is written to bytes that read the same, though not always to the bytes it came
  from: a boolean is read from any byte.\<close>

lemma reread: "dec r = Inr (x, r') \<Longrightarrow> dec (reader (enc x @ rest)) = Inr (x, \<lparr>rd_span = enc x @ rest, rd_pos = length (enc x)\<rparr>)"
  by (rule roundtrip [OF decoded_valid])

lemma yields_dec: "yields valid dec"
  by (rule typed)

end

text \<open>The fields of a reader in order; the last rule takes the fields any value of which is valid.\<close>

lemmas yields_field = yields_bind [OF yields_string] yields_bind [OF yields_any]

lemmas cast_oks = CompatibilityOutcome.ok_cast Freshness.ok_cast Evidence.ok_cast DependencyKind.ok_cast
  MemoryDomain.ok_cast StorageBackend.ok_cast StorageTier.ok_cast AccessClass.ok_cast Health.ok_cast
  StateKind.ok_cast Lifecycle.ok_cast

interpretation CompatibilityRef_typed: typed_codec CompatibilityRef_serialize CompatibilityRef_deserialize CompatibilityRef_valid
  by unfold_locales
    (unfold CompatibilityRef_deserialize_def, (rule yields_field)+, rule yields_ret, simp add: CompatibilityRef_valid_def cast_oks)

interpretation ProvenanceRef_typed: typed_codec ProvenanceRef_serialize ProvenanceRef_deserialize ProvenanceRef_valid
  by unfold_locales
    (unfold ProvenanceRef_deserialize_def, (rule yields_field)+, rule yields_ret, simp add: ProvenanceRef_valid_def cast_oks)

interpretation DependencyRef_typed: typed_codec DependencyRef_serialize DependencyRef_deserialize DependencyRef_valid
  by unfold_locales
    (unfold DependencyRef_deserialize_def, (rule yields_field)+, rule yields_ret, simp add: DependencyRef_valid_def cast_oks)

interpretation RetrievalEstimate_typed: typed_codec RetrievalEstimate_serialize RetrievalEstimate_deserialize RetrievalEstimate_valid
  by unfold_locales
    (unfold RetrievalEstimate_deserialize_def, (rule yields_field)+, rule yields_ret, simp add: RetrievalEstimate_valid_def cast_oks)

interpretation InvalidationRecord_typed: typed_codec InvalidationRecord_serialize InvalidationRecord_deserialize InvalidationRecord_valid
  by unfold_locales
    (unfold InvalidationRecord_deserialize_def, (rule yields_field)+, rule yields_ret, simp add: InvalidationRecord_valid_def cast_oks)

interpretation TombstoneRecord_typed: typed_codec TombstoneRecord_serialize TombstoneRecord_deserialize TombstoneRecord_valid
  by unfold_locales
    (unfold TombstoneRecord_deserialize_def, (rule yields_field)+, rule yields_ret, simp add: TombstoneRecord_valid_def cast_oks)

lemmas yields_location_field = yields_bind [OF RetrievalEstimate_typed.typed] yields_field

interpretation StateLocation_typed: typed_codec StateLocation_serialize StateLocation_deserialize StateLocation_valid
  by unfold_locales
    (unfold StateLocation_deserialize_def, (rule yields_location_field)+, rule yields_ret,
      simp add: StateLocation_valid_def cast_oks)

lemmas yields_record_field = yields_bind [OF yields_opt [OF CompatibilityRef_typed.typed]]
  yields_bind [OF yields_opt [OF ProvenanceRef_typed.typed]] yields_bind [OF yields_list [OF DependencyRef_typed.typed]]
  yields_bind [OF yields_list [OF StateLocation_typed.typed]] yields_field

interpretation StateRecord_typed: typed_codec StateRecord_serialize StateRecord_deserialize StateRecord_valid
  by unfold_locales
    (unfold StateRecord_deserialize_def, (rule yields_record_field)+, rule yields_ret,
      simp add: StateRecord_valid_def cast_oks)

section \<open>Payloads\<close>

lemma unpack_yields: "yields P p \<Longrightarrow> unpack p bs = Inr x \<Longrightarrow> P x"
  by (auto simp: unpack_def yields_def split: sum.splits)

lemma yields_pair: "yields P p \<Longrightarrow> yields Q q \<Longrightarrow> yields (\<lambda>(a, b). P a \<and> Q b) (read_pair p q)"
  unfolding read_pair_def by (erule yields_bind, erule yields_bind) (simp add: yields_ret)

lemma unpack_register_valid: "unpack_register bs = Inr (env, rec) \<Longrightarrow> StateRecord_valid rec"
  unfolding unpack_register_def
  using unpack_yields [OF yields_pair [OF yields_any StateRecord_typed.typed]] by fastforce

lemma unpack_addloc_valid: "unpack_addloc bs = Inr (env, st, l) \<Longrightarrow> StateLocation_valid l"
  unfolding unpack_addloc_def
  using unpack_yields [OF yields_pair [OF yields_any yields_pair [OF yields_any StateLocation_typed.typed]]] by fastforce

lemma unpack_invalidate_valid: "unpack_invalidate bs = Inr (env, i) \<Longrightarrow> InvalidationRecord_valid i"
  unfolding unpack_invalidate_def
  using unpack_yields [OF yields_pair [OF yields_any InvalidationRecord_typed.typed]] by fastforce

lemma unpack_tombstone_valid: "unpack_tombstone bs = Inr (env, t) \<Longrightarrow> TombstoneRecord_valid t"
  unfolding unpack_tombstone_def
  using unpack_yields [OF yields_pair [OF yields_any TombstoneRecord_typed.typed]] by fastforce

end
