(* ===== verification/StoredTypes.thy ===== *)
theory StoredTypes
  imports Programs Typing
begin

text \<open>
  Everything an engine stores came off the wire or out of a file: it is well typed, whatever frames a
  coordinator is sent, damaged files included, and then the image of the engine loads again as long
  as the counts are within the loader's bounds and no two records share a state and a generation.
\<close>

section \<open>Well-typed engines\<close>

text \<open>Validity but for the number of locations, which no operation bounds.\<close>

definition typed_record :: "StateRecord \<Rightarrow> bool" where
  "typed_record r \<longleftrightarrow> StateRecord_valid (r\<lparr>rec_locations := [], rec_is_historical := False\<rparr>) \<and>
     (\<forall>l\<in>set (rec_locations r). StateLocation_valid l)"

definition typed_engine :: "StateIndexEngine \<Rightarrow> bool" where
  "typed_engine e \<longleftrightarrow> (\<forall>rid r. get_record e rid = Some r \<longrightarrow> typed_record r) \<and>
     (\<forall>i\<in>set (eng_invalidations e). InvalidationRecord_valid i) \<and> um_ok (eng_tombstones e) \<and>
     (\<forall>st t. um_find (eng_tombstones e) st = Some t \<longrightarrow> tomb_state_id t = st \<and> TombstoneRecord_valid t)"

lemma typed_valid: "StateRecord_valid r \<Longrightarrow> typed_record r"
  by (simp add: typed_record_def StateRecord_valid_def)

lemma typed_redigest: "typed_record r \<Longrightarrow> typed_record (redigest r)"
  by (simp add: typed_record_def StateRecord_valid_def redigest_def compute_semantic_digest_def length_sha256_hex)

lemma typed_retire: "typed_record r \<Longrightarrow> Lifecycle_ok lc \<Longrightarrow> typed_record (retire lc r)"
  unfolding retire_def by (rule typed_redigest) (simp add: typed_record_def StateRecord_valid_def)

lemma typed_with_locations:
  "typed_record r \<Longrightarrow> \<forall>l\<in>set ls. StateLocation_valid l \<Longrightarrow> typed_record (with_locations ls r)"
  unfolding with_locations_def by (rule typed_redigest) (simp add: typed_record_def StateRecord_valid_def)

lemma typed_stamp: "typed_record r \<Longrightarrow> typed_record (stamp env r)"
  using typed_redigest [of "r\<lparr>rec_authority_epoch := env_coordinator_epoch env, rec_authority_boot := env_worker_boot env,
      rec_record_generation := (if is_set (env_record_generation env) then env_record_generation env
        else rec_record_generation r)\<rparr>"]
  by (simp add: stamp_def typed_record_def StateRecord_valid_def redigest_def)

lemma typed_engineD: "typed_engine e \<Longrightarrow> get_record e rid = Some r \<Longrightarrow> typed_record r"
  by (simp add: typed_engine_def)

lemma typed_cong:
  assumes "eng_records e' = eng_records e" and "eng_invalidations e' = eng_invalidations e"
    and "eng_tombstones e' = eng_tombstones e"
  shows "typed_engine e' = typed_engine e"
  using assms by (simp add: typed_engine_def get_record_def)

lemma typed_new: "typed_engine (new_engine epoch)"
  by (simp add: typed_engine_def get_record_def new_engine_def)

section \<open>Every operation keeps it\<close>

lemma typed_put:
  "typed_engine e \<Longrightarrow> typed_record u \<Longrightarrow> typed_engine (e\<lparr>eng_indexes := ix, eng_records := um_put k u (eng_records e)\<rparr>)"
  "typed_engine e \<Longrightarrow> typed_record u \<Longrightarrow> typed_engine (e\<lparr>eng_records := um_put k u (eng_records e), eng_indexes := ix\<rparr>)"
  "typed_engine e \<Longrightarrow> typed_record u \<Longrightarrow> typed_engine (e\<lparr>eng_records := um_put k u (eng_records e)\<rparr>)"
  by (auto simp: typed_engine_def get_record_def split: if_splits)

lemma typed_replace: "typed_engine e \<Longrightarrow> typed_record u \<Longrightarrow> typed_engine (replace_record u e)"
  unfolding replace_record_def by (rule typed_put)

lemma typed_frames [simp]:
  "typed_engine (make_current r e) = typed_engine e" "typed_engine (set_authority_of r e) = typed_engine e"
  "typed_engine (clear_current st e) = typed_engine e" "typed_engine (push_history r e) = typed_engine e"
  "typed_engine (touch_history st e) = typed_engine e" "typed_engine (bump f e) = typed_engine e"
  "typed_engine (e\<lparr>eng_accounting := a\<rparr>) = typed_engine e" "typed_engine (e\<lparr>eng_authority := b\<rparr>) = typed_engine e"
  "typed_engine (e\<lparr>eng_current := c\<rparr>) = typed_engine e" "typed_engine (in_mode h e) = typed_engine e"
  "typed_engine (drop_tombstoned_current st e) = typed_engine e"
  by (rule typed_cong; simp add: make_current_def set_authority_of_def clear_current_def push_history_def
      touch_history_def bump_def in_mode_def drop_tombstoned_current_def split: option.splits)+

lemma typed_accounting: "same_but_accounting e e' \<Longrightarrow> typed_engine e' = typed_engine e"
  by (rule typed_cong) (simp_all add: same_but_accounting_fields)

lemma typed_set_current:
  assumes "typed_engine e"
  shows "typed_engine (set_current rec e)"
proof -
  have "typed_record (retire Lifecycle_SUPERSEDED old)" if "get_record (push_history rec e) rid = Some old" for rid old
    using typed_engineD [of "push_history rec e"] that assms by (auto intro: typed_retire)
  with assms show ?thesis
    by (auto simp: set_current_def Let_def intro: typed_replace split: option.splits)
qed

lemma typed_register:
  assumes "typed_engine e" and "typed_record rec"
  shows "typed_engine (snd (register_state rec env e))"
  using assms
  by (auto simp: register_state_def Let_def typed_accounting [OF same_but_accounting_count_record]
      intro!: typed_set_current typed_put typed_stamp)

lemma typed_stamp_location: "StateLocation_valid l \<Longrightarrow> StateLocation_valid (stamp_location env l)"
  by (simp add: StateLocation_valid_def stamp_location_def)

lemma typed_count_put: "typed_engine (count_put_location l ls e) = typed_engine e"
proof -
  have "typed_engine (foldl (\<lambda>e x. if p x then bump f e else e) e xs) = typed_engine e"
    for p f and xs :: "StateLocation list"
    by (induction xs arbitrary: e) auto
  then show ?thesis by (simp add: count_put_location_def)
qed

lemma typed_find: "typed_engine e \<Longrightarrow> find_state e st = Some r \<Longrightarrow> typed_record r"
  by (auto simp: find_state_def typed_engineD split: option.splits)

lemma typed_locations: "typed_record r \<Longrightarrow> l \<in> set (rec_locations r) \<Longrightarrow> StateLocation_valid l"
  by (simp add: typed_record_def)

lemma typed_add_location:
  assumes "typed_engine e" and "StateLocation_valid l"
  shows "typed_engine (snd (add_location st l env e))"
proof -
  have put: "\<forall>x\<in>set (put_location l' (rec_locations r)). StateLocation_valid x"
    if "find_state e st = Some r" "l' = stamp_location env l" for r l'
    using typed_locations [OF typed_find [OF assms(1) that(1)]] typed_stamp_location [OF assms(2)] that(2)
    by (auto simp: put_location_def)
  then show ?thesis using assms
    by (auto simp: add_location_def Let_def typed_count_put typed_find split: option.splits
        intro!: typed_replace typed_with_locations)
qed

lemma typed_remove_location: "typed_engine e \<Longrightarrow> typed_engine (snd (remove_location st p env e))"
  by (auto simp: remove_location_def Let_def typed_find split: option.splits
      intro!: typed_replace typed_with_locations intro: typed_locations [OF typed_find])

lemma typed_foldl: "(\<And>e x. typed_engine (h e) \<Longrightarrow> typed_engine (h (f e x))) \<Longrightarrow> typed_engine (h e) \<Longrightarrow>
    typed_engine (h (foldl f e xs))"
  by (induction xs arbitrary: e) auto

lemma typed_invalidate_entry: "typed_engine (snd ce) \<Longrightarrow> typed_engine (snd (invalidate_entry bound ce r))"
  by (auto simp: invalidate_entry_def typed_engineD split: option.splits intro!: typed_replace typed_retire)

lemma typed_promote [simp]: "typed_engine (promote st bound e) = typed_engine e"
  by (simp add: promote_def Let_def split: option.splits)

lemma typed_invalidate:
  assumes "typed_engine e" and "InvalidationRecord_valid i"
  shows "typed_engine (snd (invalidate i env e))"
proof -
  let ?e = "e\<lparr>eng_invalidation_seq := eng_invalidation_seq e + 1,
      eng_invalidations := eng_invalidations e @ [stamp_invalidation (eng_invalidation_seq e + 1) env i]\<rparr>"
  have "typed_engine ?e"
    using assms by (auto simp: typed_engine_def get_record_def InvalidationRecord_valid_def stamp_invalidation_def)
  moreover obtain ch e2 where fold: "foldl (invalidate_entry (inv_bound_generation i))
      (False, bump acc_invalidations_update ?e) (history_of (bump acc_invalidations_update ?e) (inv_state_id i)) = (ch, e2)"
    by force
  ultimately have "typed_engine e2"
    using typed_foldl [where h = snd and f = "invalidate_entry (inv_bound_generation i)", OF typed_invalidate_entry,
        of "(False, bump acc_invalidations_update ?e)" "history_of (bump acc_invalidations_update ?e) (inv_state_id i)"]
    by simp
  then show ?thesis using assms(1) by (simp add: invalidate_def Let_def fold split: option.split)
qed

lemma typed_tombstone_entry: "typed_engine e \<Longrightarrow> typed_engine (tombstone_entry floor' e rid)"
  by (auto simp: tombstone_entry_def typed_engineD split: option.splits intro!: typed_replace typed_retire)

lemma typed_tombstone_accept:
  assumes "typed_engine e" and "TombstoneRecord_valid t" and "tomb_state_id t = st"
  shows "typed_engine (snd (tombstone_accept st t e))"
proof -
  have "typed_engine (e\<lparr>eng_tombstones := um_put st t (eng_tombstones e), eng_authority := a\<rparr>)" for a
    using assms by (auto simp: typed_engine_def get_record_def)
  then show ?thesis
    by (auto simp: tombstone_accept_def Let_def intro!: typed_foldl [where h = "\<lambda>e. e"] typed_tombstone_entry)
qed

lemma typed_tombstone:
  assumes "typed_engine e" and "TombstoneRecord_valid t"
  shows "typed_engine (snd (tombstone t env e))"
proof -
  have "TombstoneRecord_valid (t\<lparr>tomb_coordinator_epoch := c, tomb_worker_boot := b\<rparr>)" for c b
    using assms(2) by (simp add: TombstoneRecord_valid_def)
  with assms(1) show ?thesis
    by (auto simp: tombstone_def Let_def split: option.splits intro!: typed_tombstone_accept)
qed

section \<open>So does a load, even one that fails\<close>

lemma keeps_read:
  assumes "yields Q p" and "\<And>a. Q a \<Longrightarrow> loader_keeps P (f a)"
  shows "loader_keeps P (bindl (reading p) f)"
  unfolding loader_keeps_def
proof (intro allI impI)
  fix r e
  assume "P e"
  show "P (snd (bindl (reading p) f r e))"
  proof (cases "p r")
    case (Inr ar)
    obtain a r' where a: "p r = Inr (a, r')" using Inr by (cases ar) simp
    with assms(1) have "loader_keeps P (f a)" by (intro assms(2)) (auto simp: yields_def)
    with a \<open>P e\<close> show ?thesis by (simp add: bindl_def reading_def loader_keeps_def)
  qed (simp add: bindl_def reading_def \<open>P e\<close>)
qed

lemma typed_put_record: "typed_engine e \<Longrightarrow> StateRecord_valid r \<Longrightarrow> typed_engine (put_record r e)"
  unfolding put_record_def by (intro typed_put typed_valid)

lemma typed_load_records: "loader_keeps typed_engine (load_records n ids gens)"
proof (induction n arbitrary: ids gens)
  case (Suc n)
  show ?case unfolding load_records.simps verify_semantic_digest_def
    by (intro keeps_read [OF StateRecord_typed.typed] keeps_if keeps_failing keeps_bind keeps_updating Suc.IH typed_put_record)
qed (simp add: keeps_updating)

lemma typed_load_invalidations: "loader_keeps typed_engine (load_invalidations n)"
proof (induction n)
  case (Suc n)
  show ?case unfolding load_invalidations.simps
    by (intro keeps_read [OF InvalidationRecord_typed.typed] keeps_bind keeps_updating Suc.IH)
      (auto simp: typed_engine_def get_record_def)
qed (simp add: keeps_updating)

lemma typed_load_tombstones: "loader_keeps typed_engine (load_tombstones n)"
proof (induction n)
  case (Suc n)
  show ?case unfolding load_tombstones.simps
    by (intro keeps_read [OF TombstoneRecord_typed.typed] keeps_bind keeps_updating Suc.IH)
      (auto simp: typed_engine_def get_record_def)
qed (simp add: keeps_updating)

lemma typed_recover_record: "typed_record r \<Longrightarrow> typed_record (recover_record r)"
proof -
  assume r: "typed_record r"
  have "StateLocation_valid (recover_location l)" if "StateLocation_valid l" for l
    using that by (simp add: StateLocation_valid_def recover_location_def Let_def)
  with r have "typed_record (r\<lparr>rec_locations := List.map recover_location (rec_locations r)\<rparr>)"
    by (simp add: typed_record_def StateRecord_valid_def)
  then show ?thesis by (simp add: recover_record_def Let_def typed_redigest)
qed

lemma typed_map:
  assumes "typed_engine e" and "\<And>r. typed_record r \<Longrightarrow> typed_record (f r)"
  shows "typed_engine (e\<lparr>eng_indexes := ix, eng_records := List.map (\<lambda>(rid, r). (rid, f r)) (eng_records e)\<rparr>)"
    and "typed_engine (e\<lparr>eng_current := c, eng_records := List.map (\<lambda>(rid, r). (rid, f r)) (eng_records e)\<rparr>)"
  using assms by (auto simp: typed_engine_def get_record_def map_of_map)

lemma typed_load_finish: "typed_engine e \<Longrightarrow> typed_engine (load_finish e)"
  unfolding load_finish_eq recover_all_def recompute_current_def Let_def
  by (intro typed_map typed_recover_record) (auto simp: typed_record_def)

lemma typed_load_payload: "loader_keeps typed_engine load_payload"
  unfolding load_payload_def
  by (intro keeps_bind keeps_if keeps_reading keeps_failing typed_load_records typed_load_invalidations
      typed_load_tombstones keeps_updating typed_load_finish)
    (simp_all add: typed_engine_def get_record_def load_reset_def
      rebuild_history_def)

lemma typed_load: "typed_engine e \<Longrightarrow> typed_engine (snd (load_engine path d e))"
  using typed_load_payload
  by (auto simp: load_engine_def load_file_def loader_keeps_def split: sum.splits prod.splits)
    (metis snd_conv)+

section \<open>Conversations\<close>

lemma typed_serve:
  assumes "typed_engine (co_engine c)" and "\<And>a e. req = Inr a \<Longrightarrow> typed_engine e \<Longrightarrow> typed_engine (snd (run a e))"
  shows "typed_engine (co_engine (snd (serve_mutation req run c)))"
  using assms by (auto simp: serve_mutation_def split: sum.splits prod.splits) (metis snd_conv)

lemma typed_serve_load: "typed_engine (co_engine c) \<Longrightarrow> typed_engine (co_engine (snd (serve_load path c)))"
  using typed_load [of "co_engine c" path "co_disk c"]
  by (auto simp: serve_load_def Let_def split: prod.splits option.splits)

lemma typed_dispatch:
  assumes "typed_engine (co_engine c)"
  shows "typed_engine (co_engine (snd (dispatch persist f c)))"
proof (cases "frame_kind f")
  case MsgKind_HELLO
  with assms show ?thesis by (auto simp: dispatch_def Let_def register_worker_def split: sum.splits)
next
  case MsgKind_QUERY
  with assms show ?thesis
    by (auto simp: dispatch_def Let_def split: sum.splits prod.splits dest!: query_pair)
qed (use assms in \<open>auto simp: dispatch_def Let_def split: sum.splits
      intro!: typed_serve typed_serve_load typed_register typed_add_location typed_remove_location typed_invalidate
        typed_tombstone typed_valid
      dest: unpack_register_valid unpack_addloc_valid unpack_invalidate_valid unpack_tombstone_valid\<close>)

lemma typed_converse: "typed_engine (co_engine c) \<Longrightarrow> typed_engine (co_engine (snd (converse persist fs c)))"
proof (induction fs arbitrary: c)
  case Nil
  then show ?case by (simp add: drop_boot_def unregister_worker_def split: option.splits)
next
  case (Cons f fs)
  have "typed_engine (co_engine (snd (answer persist f c)))" unfolding answer_engine by (rule typed_dispatch [OF Cons.prems])
  from Cons.IH [OF this] Cons.prems show ?case by (auto simp: Let_def split: prod.splits)
qed

section \<open>A well-typed engine can be saved\<close>

definition within_limits :: "StateIndexEngine \<Rightarrow> bool" where
  "within_limits e \<longleftrightarrow> length (eng_records e) \<le> unat kMaxRecordCount \<and>
     length (eng_invalidations e) \<le> unat kMaxRecordCount \<and> length (eng_tombstones e) \<le> unat kMaxRecordCount \<and>
     (\<forall>rid r. get_record e rid = Some r \<longrightarrow> length (rec_locations r) \<le> unat kMaxLocationsPerRecord)"

lemma typed_loadable:
  assumes "typed_record r" and "length (rec_locations r) \<le> unat kMaxLocationsPerRecord" and "digest_ok r"
  shows "loadable r"
proof -
  have "StateLocation_valid (persisted_location l)" if "StateLocation_valid l" for l
    using that by (simp add: StateLocation_valid_def persisted_location_def)
  with assms show ?thesis
    by (auto simp: loadable_def typed_record_def StateRecord_valid_def persisted_record_def)
qed

lemma typed_saveable:
  assumes "queryable e" and "typed_engine e" and "within_limits e" and "distinct (List.map gen_key (canonical_records e))"
  shows "saveable e"
proof -
  have "um_ok (eng_tombstones e)" using assms(2) by (simp add: typed_engine_def)
  then have "\<forall>t\<in>set (um_values (eng_tombstones e)). TombstoneRecord_valid t"
    using assms(2) by (auto simp: typed_engine_def um_ok_mem)
  with assms \<open>um_ok (eng_tombstones e)\<close> show ?thesis
    by (auto simp: saveable_def queryable_def typed_engine_def within_limits_def intro!: typed_loadable)
qed

end
