(* ===== verification/Examples.thy ===== *)
theory Examples
  imports Worker Disk Explain
begin

text \<open>
  The example programs under \<^verbatim>\<open>examples\<close>, each as the text it prints: the builders of
  \<^verbatim>\<open>example_util.hpp\<close>, and one definition per \<^verbatim>\<open>main\<close>. A program constructs an engine, makes a few calls
  and prints what it sees; \<^verbatim>\<open>12_persistence_recovery.cpp\<close> also writes a file, on a disk that is its
  argument, and removes it.
\<close>

section \<open>Builders\<close>

definition ex_boot :: u64 where
  "ex_boot = 5000"

definition ensure_worker :: "StateIndexEngine \<Rightarrow> StateIndexEngine" where
  "ensure_worker e =
     (if is_live (eng_authority e) (StrongId ex_boot) then e
      else register_worker (StrongId 1) (StrongId ex_boot) e)"

definition ex_env :: "CoordinatorEpoch \<Rightarrow> StateGeneration \<Rightarrow> MutationEnvelope" where
  "ex_env epoch g =
     default_envelope\<lparr>env_coordinator_epoch := epoch, env_worker_boot := StrongId ex_boot,
       env_attempt_generation := Generation 1, env_dispatch_generation := Generation 1,
       env_state_generation := g\<rparr>"

definition ex_domain :: "string \<Rightarrow> MemoryDomain" where
  "ex_domain domain =
     (if domain = ''cuda'' then MemoryDomain_CUDA_DEVICE
      else if domain = ''file'' then MemoryDomain_LOCAL_FILESYSTEM
      else if domain = ''remote'' then MemoryDomain_SYNTHETIC_REMOTE
      else MemoryDomain_HOST_MEMORY)"

definition ex_backend :: "MemoryDomain \<Rightarrow> StorageBackend" where
  "ex_backend d =
     (if d = MemoryDomain_CUDA_DEVICE then StorageBackend_CUDA
      else if d = MemoryDomain_LOCAL_FILESYSTEM then StorageBackend_FILE else StorageBackend_MEMORY)"

definition ex_loc :: "StateId \<Rightarrow> StateGeneration \<Rightarrow> string \<Rightarrow> u64 \<Rightarrow> u64 \<Rightarrow> StateLocation" where
  "ex_loc st gen domain node device =
     (let p = worker_placement st (gen_value gen); d = ex_domain domain;
          remote = (d = MemoryDomain_SYNTHETIC_REMOTE);
          evidence = (if remote then Evidence_SYNTHETIC else Evidence_MEASURED)
      in default_location\<lparr>loc_placement_id := p, loc_replica_id := StrongId (id_value p),
        loc_node_id := StrongId node,
        loc_device_id := (if device \<noteq> 0 then StrongId device else null_id),
        loc_domain := d, loc_backend := ex_backend d, loc_tier := StorageTier_HOT,
        loc_location_generation := Generation (gen_value gen),
        loc_placement_generation := Generation (gen_value gen),
        loc_replica_generation := Generation (gen_value gen),
        loc_address := ''ex://'' @ std_to_string (id_value p), loc_byte_size := 1024,
        loc_access_class := (if remote then AccessClass_REMOTE else AccessClass_LOCAL),
        loc_health := Health_HEALTHY, loc_freshness := Freshness_CURRENT, loc_provenance := evidence,
        loc_retrieval := default_estimate\<lparr>re_expected_latency_ms := f64_of_nat (if remote then 50 else 1),
          re_evidence := evidence\<rparr>,
        loc_authority_epoch := Generation 1, loc_authority_boot := StrongId ex_boot\<rparr>)"

definition ex_kind :: "string \<Rightarrow> StateKind" where
  "ex_kind kind =
     (if kind = ''tensor'' then StateKind_TENSOR_STATE
      else if kind = ''artifact'' then StateKind_MODEL_ARTIFACT
      else if kind = ''kernel'' then StateKind_COMPILED_KERNEL else StateKind_KV_STATE)"

definition ex_rec ::
    "StateId \<Rightarrow> StateGeneration \<Rightarrow> string \<Rightarrow> string \<Rightarrow> u64 \<Rightarrow> u64 \<Rightarrow> CompatibilityRef option
     \<Rightarrow> DependencyRef list \<Rightarrow> StateRecord" where
  "ex_rec st gen kind domain node device c deps =
     redigest (default_record\<lparr>rec_record_id := worker_record_id st gen, rec_state_id := st,
       rec_state_generation := gen, rec_record_generation := Generation (gen_value gen),
       rec_kind := ex_kind kind, rec_namespace_id := StrongId 1, rec_owner_id := StrongId 1,
       rec_producer_id := StrongId 1, rec_logical_size := 1024,
       rec_content_digest := (if kind = ''kv'' then ''d'' @ std_to_string (id_value st) else []),
       rec_compatibility := c, rec_dependencies := deps,
       rec_lifecycle := Lifecycle_AVAILABLE, rec_freshness := Freshness_CURRENT, rec_health := Health_HEALTHY,
       rec_policy_generation := Generation 1, rec_created_at := 1000, rec_updated_at := 1000,
       rec_description := ''example record'', rec_locations := [ex_loc st gen domain node device]\<rparr>)"

text \<open>\<^verbatim>\<open>rec(st, gen)\<close>, with the default arguments of the header.\<close>

abbreviation ex_plain :: "StateId \<Rightarrow> StateGeneration \<Rightarrow> StateRecord" where
  "ex_plain st gen \<equiv> ex_rec st gen ''kv'' ''mem'' 1 0 None []"

text \<open>How every program starts, and \<^verbatim>\<open>eng.register_state(r, env(eng.epoch(), g))\<close>.\<close>

definition ex_engine :: StateIndexEngine where
  "ex_engine = ensure_worker (new_engine (Generation 1))"

definition ex_register :: "StateRecord \<Rightarrow> StateGeneration \<Rightarrow> StateIndexEngine \<Rightarrow> MutationVerdictDetail \<times> StateIndexEngine" where
  "ex_register r g e = register_state r (ex_env (auth_epoch (eng_authority e)) g) e"

definition shown_generation :: "QueryResult \<Rightarrow> string" where
  "shown_generation r = gen_to_string (case qr_selected_generation r of None \<Rightarrow> unset_gen | Some g \<Rightarrow> g)"

definition shown_record :: "QueryResult \<Rightarrow> string" where
  "shown_record r = (case qr_selected_record_id r of None \<Rightarrow> ''none'' | Some rid \<Rightarrow> id_to_string rid)"

definition shown_bool :: "bool \<Rightarrow> string" where
  "shown_bool b = (if b then ''1'' else ''0'')"

definition shown_count :: "'a list \<Rightarrow> string" where
  "shown_count xs = decimal (length xs)"

definition ex_compat :: "CompatibilityId \<Rightarrow> CompatibilityOutcome \<Rightarrow> CompatibilityRef" where
  "ex_compat cid out = \<lparr>comp_id = cid, comp_generation = Generation 1, comp_outcome = out,
     comp_freshness = Freshness_CURRENT, comp_provenance = Evidence_MEASURED, comp_evidence_note = []\<rparr>"

section \<open>The programs\<close>

definition example_01 :: string where
  "example_01 =
     (let s = StrongId 42 :: StateId; g = Generation 3 :: StateGeneration
      in ''StateId='' @ id_to_string s @ '' StateGeneration='' @ gen_to_string g @ '' null='' @
         shown_bool (id_is_null (null_id :: StateId)) @ nl)"

definition example_02 :: string where
  "example_02 =
     (let (_, e) = ex_register (ex_plain (StrongId 5) (Generation 1)) (Generation 1) ex_engine;
          (r, _) = query (default_query\<lparr>qd_query_id := StrongId 1, qd_state_id := Some (StrongId 5)\<rparr>) e
      in ''outcome='' @ QueryOutcome_to_string (qr_outcome r) @ '' gen='' @ shown_generation r @ nl)"

definition example_03 :: string where
  "example_03 =
     (let e1 = foldl (\<lambda>e g. snd (ex_register (ex_plain (StrongId g) (Generation 1)) (Generation 1) e))
            ex_engine [1, 2, 3];
          (_, e) = ex_register (ex_rec (StrongId 9) (Generation 1) ''tensor'' ''mem'' 1 0 None []) (Generation 1) e1;
          (r, _) = query (default_query\<lparr>qd_query_id := StrongId 2, qd_kind := Some StateKind_KV_STATE\<rparr>) e
      in ''outcome='' @ QueryOutcome_to_string (qr_outcome r) @ '' candidates='' @
         shown_count (qr_ranked_candidates r) @ nl)"

definition example_04 :: string where
  "example_04 =
     (let r0 = ex_plain (StrongId 7) (Generation 1);
          r = r0\<lparr>rec_locations := rec_locations r0 @ [ex_loc (StrongId 7) (Generation 1) ''file'' 2 0]\<rparr>;
          (_, e) = ex_register r (Generation 1) ex_engine
      in ''locations='' @ (case get_record e (StrongId (push_bit 32 7 OR 1)) of None \<Rightarrow> ''0''
            | Some rec \<Rightarrow> shown_count (rec_locations rec)) @ nl)"

definition example_05 :: string where
  "example_05 =
     (let (_, e1) = ex_register (ex_plain (StrongId 3) (Generation 1)) (Generation 1) ex_engine;
          (_, e2) = ex_register (ex_plain (StrongId 3) (Generation 2)) (Generation 2) e1;
          (r, e3) = query (default_query\<lparr>qd_query_id := StrongId 3, qd_state_id := Some (StrongId 3)\<rparr>) e2
      in ''current gen='' @ shown_generation r @ '' history='' @ shown_count (history_of e3 (StrongId 3)) @ nl)"

definition example_06 :: string where
  "example_06 =
     (let exact = ex_compat (StrongId 1) CompatibilityOutcome_EXACT;
          compatible = ex_compat (StrongId 2) CompatibilityOutcome_COMPATIBLE;
          (_, e1) = ex_register (ex_rec (StrongId 1) (Generation 1) ''kv'' ''mem'' 1 0 (Some exact) []) (Generation 1) ex_engine;
          (_, e2) = ex_register (ex_rec (StrongId 2) (Generation 1) ''kv'' ''mem'' 1 0 (Some compatible) []) (Generation 1) e1;
          (r, _) = query (default_query\<lparr>qd_query_id := StrongId 6, qd_kind := Some StateKind_KV_STATE,
            qd_compatibility := CompatibilityRequirement_EXACT\<rparr>) e2
      in ''exact-only candidates='' @ shown_count (qr_ranked_candidates r) @ '' selected='' @ shown_record r @ nl)"

definition example_07 :: string where
  "example_07 =
     (let (_, e1) = ex_register (ex_plain (StrongId 10) (Generation 1)) (Generation 1) ex_engine;
          deps = [\<lparr>dep_id = StrongId 1, dep_generation = Generation 1, dep_kind = DependencyKind_STATE,
            dep_target_state = StrongId 10, dep_required_generation = Generation 1, dep_required = True\<rparr>];
          (_, e2) = ex_register (ex_rec (StrongId 11) (Generation 1) ''kv'' ''mem'' 1 0 None deps) (Generation 1) e1;
          (r, _) = query (default_query\<lparr>qd_query_id := StrongId 7, qd_state_id := Some (StrongId 11),
            qd_dependency_requirements := [\<lparr>dr_target_state = StrongId 10, dr_minimum_generation = Generation 1,
              dr_required = True\<rparr>]\<rparr>) e2
      in ''outcome='' @ QueryOutcome_to_string (qr_outcome r) @ '' found='' @ shown_bool (found r) @ nl)"

definition example_08 :: string where
  "example_08 =
     (let exact = ex_compat (StrongId 1) CompatibilityOutcome_EXACT;
          compatible = ex_compat (StrongId 2) CompatibilityOutcome_COMPATIBLE;
          (_, e1) = ex_register (ex_rec (StrongId 1) (Generation 1) ''kv'' ''remote'' 2 0 (Some exact) []) (Generation 1) ex_engine;
          (_, e2) = ex_register (ex_rec (StrongId 2) (Generation 1) ''kv'' ''mem'' 1 0 (Some compatible) []) (Generation 1) e1;
          (r, _) = query (default_query\<lparr>qd_query_id := StrongId 8, qd_kind := Some StateKind_KV_STATE,
            qd_locality_preference := [MemoryDomain_HOST_MEMORY]\<rparr>) e2
      in ''selected='' @ shown_record r @ '' (local-compatible wins) candidates='' @
         shown_count (qr_ranked_candidates r) @ nl)"

definition example_09 :: string where
  "example_09 =
     (let (_, e1) = ex_register (ex_plain (StrongId 20) (Generation 1)) (Generation 1) ex_engine;
          i = default_invalidation\<lparr>inv_invalidation_id := StrongId 1, inv_state_id := StrongId 20,
            inv_bound_generation := Generation 1\<rparr>;
          (v, e2) = invalidate i (ex_env (auth_epoch (eng_authority e1)) (Generation 1)) e1;
          (r, _) = query (default_query\<lparr>qd_query_id := StrongId 9, qd_state_id := Some (StrongId 20)\<rparr>) e2
      in ''invalidate='' @ MutationVerdict_to_string (mvd_verdict v) @ '' '' @ mvd_reason v @ nl @
         ''query-outcome='' @ QueryOutcome_to_string (qr_outcome r) @ '' found='' @ shown_bool (found r) @ nl)"

definition example_10 :: string where
  "example_10 =
     (let (_, e1) = ex_register (ex_plain (StrongId 30) (Generation 4)) (Generation 4) ex_engine;
          t = default_tombstone\<lparr>tomb_tombstone_id := StrongId 1, tomb_state_id := StrongId 30,
            tomb_floor_generation := Generation 4\<rparr>;
          (v, e2) = tombstone t (ex_env (auth_epoch (eng_authority e1)) (Generation 4)) e1;
          (vr, _) = ex_register (ex_plain (StrongId 30) (Generation 3)) (Generation 3) e2
      in ''tombstone='' @ MutationVerdict_to_string (mvd_verdict v) @ nl @
         ''resurrection-attempt='' @ MutationVerdict_to_string (mvd_verdict vr) @ '' (tombstone floor must win)'' @ nl)"

definition example_11 :: string where
  "example_11 =
     (let (_, e1) = ex_register (ex_plain (StrongId 40) (Generation 1)) (Generation 1) ex_engine;
          (_, e2) = ex_register (ex_plain (StrongId 40) (Generation 2)) (Generation 2) e1;
          asked = default_query\<lparr>qd_query_id := StrongId 11, qd_state_id := Some (StrongId 40)\<rparr>;
          (r, e3) = query_historical (asked\<lparr>qd_historical_only := True\<rparr>) e2;
          (cur, _) = query asked e3
      in ''history-candidates='' @ shown_count (qr_ranked_candidates r) @ '' current-gen='' @ shown_generation cur @ nl)"

text \<open>The exception that ends the program, or what it prints and the disk it leaves.\<close>

definition example_12 :: "Disk \<Rightarrow> exn + string \<times> Disk" where
  "example_12 d =
     (let path = ''example_persist.bin'';
          (_, e) = ex_register (ex_plain (StrongId 50) (Generation 1)) (Generation 1) ex_engine
      in case save_engine path e d of (Some x, _) \<Rightarrow> Inl x
         | (None, d1) \<Rightarrow>
             (case load_engine path d1 (new_engine (Generation 1)) of (Some x, _) \<Rightarrow> Inl x
              | (None, re) \<Rightarrow>
                  (let (r, re1) = query (default_query\<lparr>qd_query_id := StrongId 12, qd_state_id := Some (StrongId 50)\<rparr>) re
                   in Inr (''recovered outcome='' @ QueryOutcome_to_string (qr_outcome r) @ '' invariant_ok='' @
                        shown_bool (invariant_check re1 = []) @ nl, remove_file path d1))))"

definition example_13 :: string where
  "example_13 =
     (let auth = auth_register_worker (StrongId 1) (StrongId 100) (new_authority (Generation 1));
          envelope = \<lambda>boot. default_envelope\<lparr>env_coordinator_epoch := Generation 1, env_worker_boot := boot\<rparr>;
          v1 = validate_state_publication auth (StrongId 1) (envelope (StrongId 100)) (Generation 10);
          auth1 = set_current_authority (StrongId 1) (Generation 10) (StrongId 100) auth;
          auth2 = auth_register_worker (StrongId 1) (StrongId 200) (auth_unregister_worker (StrongId 100) auth1);
          v2 = validate_state_publication auth2 (StrongId 1) (envelope (StrongId 200)) (Generation 2)
      in ''old-boot='' @ MutationVerdict_to_string (mvd_verdict v1) @ '' fresh-boot-gen2='' @
         MutationVerdict_to_string (mvd_verdict v2) @ '' (fresh incarnation not fenced)'' @ nl)"

definition example_14 :: string where
  "example_14 =
     (let (_, e) = ex_register (ex_rec (StrongId 60) (Generation 1) ''tensor'' ''cuda'' 1 2 None []) (Generation 1) ex_engine;
          (res, e1) = query (default_query\<lparr>qd_query_id := StrongId 14, qd_state_id := Some (StrongId 60),
            qd_locality_preference := [MemoryDomain_CUDA_DEVICE]\<rparr>) e
      in ''cuda-location-domain='' @
         (case get_record e1 (StrongId (push_bit 32 60 OR 1)) of None \<Rightarrow> ''none''
          | Some rec \<Rightarrow> (case rec_locations rec of [] \<Rightarrow> ''none'' | l # _ \<Rightarrow> MemoryDomain_to_string (loc_domain l))) @
         '' outcome='' @ QueryOutcome_to_string (qr_outcome res) @ nl @
         ''(real RTX 5090 kernel parity proof runs in test_cuda)'' @ nl)"

definition example_15 :: string where
  "example_15 =
     (let (_, e) = ex_register (ex_plain (StrongId 70) (Generation 1)) (Generation 1) ex_engine;
          q = default_query\<lparr>qd_query_id := StrongId 15, qd_state_id := Some (StrongId 70)\<rparr>;
          (r, _) = query q e
      in explain_query q r)"

end
