(* ===== verification/ExampleRuns.thy ===== *)
theory ExampleRuns
  imports Examples QueryFacts Lifetimes
begin

text \<open>
  What the example programs print. \<open>shelved\<close> describes an engine by its records and its current
  records, which decides what a query answers; \<open>stocked\<close> adds what a registration asks for. Registering,
  reloading and querying are rules on these descriptions, so that each program is a short chain of rules.
\<close>

section \<open>Engines given by their records\<close>

definition shelved :: "StateRecord list \<Rightarrow> (StateId \<Rightarrow> StateRecord option) \<Rightarrow> StateIndexEngine \<Rightarrow> bool" where
  "shelved rs cur e \<longleftrightarrow> serving e \<and> eng_tombstones e = [] \<and> distinct (List.map rec_record_id rs) \<and>
     get_record e = map_of (List.map (\<lambda>r. (rec_record_id r, r)) rs) \<and> find_state e = cur"

lemma shelvedD:
  assumes "shelved rs cur e"
  shows "serving e" "service_inv {} e" "queryable e" "eng_tombstones e = []" "distinct (List.map rec_record_id rs)"
    "get_record e = map_of (List.map (\<lambda>r. (rec_record_id r, r)) rs)" "find_state e = cur"
    "is_tombstoned e st g = False"
  using assms by (simp_all add: shelved_def servingD is_tombstoned_def)

definition stocked :: "StateRecord list \<Rightarrow> (StateId \<Rightarrow> StateRecord option) \<Rightarrow> StateIndexEngine \<Rightarrow> bool" where
  "stocked rs cur e \<longleftrightarrow> engine_inv e \<and> auth_epoch (eng_authority e) = Generation 1 \<and>
     is_live (eng_authority e) (StrongId ex_boot) \<and> eng_tombstones e = [] \<and>
     distinct (List.map rec_record_id rs) \<and>
     get_record e = map_of (List.map (\<lambda>r. (rec_record_id r, r)) rs) \<and> find_state e = cur"

lemma stockedD:
  assumes "stocked rs cur e"
  shows "engine_inv e" "service_inv {} e" "auth_epoch (eng_authority e) = Generation 1"
    "is_live (eng_authority e) (StrongId ex_boot)" "eng_tombstones e = []" "distinct (List.map rec_record_id rs)"
    "get_record e = map_of (List.map (\<lambda>r. (rec_record_id r, r)) rs)" "find_state e = cur"
    "is_tombstoned e st g = False"
  using assms by (simp_all add: stocked_def engine_inv_service is_tombstoned_def)

lemma stocked_shelved: "stocked rs cur e \<Longrightarrow> shelved rs cur e"
  by (simp add: stocked_def shelved_def engine_inv_serving)

lemma stocked_engine: "stocked [] (\<lambda>_. None) ex_engine"
proof -
  let ?e = "register_worker (StrongId 1) (StrongId ex_boot) (new_engine (Generation 1))"
  have eq: "ex_engine = ?e"
    by (simp add: ex_engine_def ensure_worker_def new_engine_def new_authority_def is_live_def)
  have "get_record ?e = Map.empty" "find_state ?e = Map.empty" "eng_tombstones ?e = []"
    "auth_epoch (eng_authority ?e) = Generation 1" "is_live (eng_authority ?e) (StrongId ex_boot)"
    by (simp_all add: fun_eq_iff get_record_def find_state_def register_worker_def new_engine_def new_authority_def)
  with reachable_inv [OF reach_step [OF reach_new step_register_worker]] show ?thesis
    by (simp add: stocked_def eq)
qed

lemma shelved_in_mode:
  assumes "shelved rs cur e"
  shows "shelved rs cur (in_mode h e)"
proof -
  have "service_inv {} (in_mode h e)"
    by (rule service_cong [OF _ _ _ _ _ _ shelvedD(2) [OF assms]]) (simp_all add: in_mode_def history_ids_def)
  moreover have "newest_inv (in_mode h e) = newest_inv e" by (rule newest_cong) simp_all
  moreover have "eng_tombstones (in_mode h e) = eng_tombstones e" by (simp add: in_mode_def)
  ultimately show ?thesis using assms by (simp add: shelved_def serving_def)
qed

lemma stocked_in_mode: "stocked rs cur e \<Longrightarrow> stocked rs cur (in_mode h e)"
  by (simp add: stocked_def engine_inv_in_mode) (simp add: in_mode_def)

lemma stocked_may_register:
  assumes "stocked rs cur e" and "rec_record_id rec \<notin> set (List.map rec_record_id rs)"
    and "is_set (rec_state_generation rec)"
    and "\<forall>c. cur (rec_state_id rec) = Some c \<longrightarrow> rec_state_generation c < rec_state_generation rec"
  shows "may_register rec (ex_env (Generation 1) g) e"
proof -
  note e = stockedD [OF assms(1)]
  have "tombstone_floor (eng_authority e) st = None" for st
    using e(1,5) by (simp add: engine_inv_def core_inv_def tombstone_inv_def)
  moreover have "\<not> fenced_by (eng_authority e) (rec_state_id rec) b (rec_state_generation rec)" for b
    using e(1,8) assms(4) by (auto simp: engine_inv_def core_inv_def current_inv_def fenced_by_def not_le)
  moreover have "get_record e (rec_record_id rec) = None" using assms(2) by (simp add: e(7) map_of_eq_None_iff image_image)
  ultimately show ?thesis
    using assms(3) e by (simp add: may_register_def accepted_iff ex_env_def below_floor_def)
qed

text \<open>The records after a registration that overtakes the current record of its state, if there is one.\<close>

definition superseding :: "StateRecord option \<Rightarrow> StateRecord list \<Rightarrow> StateRecord list" where
  "superseding old rs = List.map (\<lambda>r. if old = Some r then retire Lifecycle_SUPERSEDED r else r) rs"

lemma superseding_Cons [simp]:
  "superseding old [] = []"
  "superseding old (r # rs) = (if old = Some r then retire Lifecycle_SUPERSEDED r else r) # superseding old rs"
  by (simp_all add: superseding_def)

lemma retire_ids [simp]: "rec_record_id (retire lc r) = rec_record_id r"
  by (simp add: retire_def redigest_def)

lemma map_of_superseding:
  "map_of (List.map (\<lambda>r. (rec_record_id r, r)) (superseding old rs)) rid =
     map_option (\<lambda>r. if old = Some r then retire Lifecycle_SUPERSEDED r else r)
       (map_of (List.map (\<lambda>r. (rec_record_id r, r)) rs) rid)"
  by (induction rs) auto

lemma superseding_ids [simp]: "List.map rec_record_id (superseding old rs) = List.map rec_record_id rs"
  by (induction rs) auto

lemma stocked_register:
  assumes s: "stocked rs cur e" and new: "rec_record_id rec \<notin> set (List.map rec_record_id rs)"
    and set: "is_set (rec_state_generation rec)"
    and newer: "\<forall>c. cur (rec_state_id rec) = Some c \<longrightarrow> rec_state_generation c < rec_state_generation rec"
  shows "stocked (superseding (cur (rec_state_id rec)) rs @ [stamp (ex_env (Generation 1) g) rec])
      (cur(rec_state_id rec \<mapsto> stamp (ex_env (Generation 1) g) rec)) (snd (ex_register rec g e))"
    and "mvd_verdict (fst (ex_register rec g e)) = MutationVerdict_ACCEPTED"
proof -
  note e = stockedD [OF s]
  let ?env = "ex_env (Generation 1) g"
  let ?e' = "snd (register_state rec ?env e)"
  have run: "ex_register rec g e = register_state rec ?env e" by (simp add: ex_register_def e)
  have ok: "may_register rec ?env e" by (rule stocked_may_register [OF assms])
  note acc = register_state_accepted [OF e(2) ok] and views = register_views [OF e(2) ok]
  show "mvd_verdict (fst (ex_register rec g e)) = MutationVerdict_ACCEPTED" using acc by (simp add: run)
  have over: "overtakes rec e" using newer by (simp add: overtakes_def e(8))
  have none: "map_of (List.map (\<lambda>r. (rec_record_id r, r)) (superseding old rs)) (rec_record_id rec) = None" for old
    using new by (simp add: map_of_superseding map_of_eq_None_iff image_image)
  have "get_record ?e' = map_of (List.map (\<lambda>r. (rec_record_id r, r)) (superseding (cur (rec_state_id rec)) rs @ [stamp ?env rec]))"
    using over none
    by (simp add: fun_eq_iff views e(7,8) map_add_def map_of_superseding split: option.split)
  moreover have "find_state ?e' = cur(rec_state_id rec \<mapsto> stamp ?env rec)"
    using over by (simp add: fun_eq_iff views e(8))
  moreover have "eng_tombstones ?e' = []"
    using acc e(5) by (simp add: same_but_accounting_fields(4) [OF same_but_accounting_count_record] publish_def split: option.split)
  moreover have "auth_epoch (eng_authority ?e') = Generation 1" "is_live (eng_authority ?e') (StrongId ex_boot)"
    using reg.keeps_membership [OF e(1), of rec ?env] e(3,4) by (simp_all add: same_membership_def is_live_def)
  moreover have "distinct (List.map rec_record_id (superseding (cur (rec_state_id rec)) rs @ [stamp ?env rec]))"
    using e(6) new by simp
  ultimately show "stocked (superseding (cur (rec_state_id rec)) rs @ [stamp ?env rec])
      (cur(rec_state_id rec \<mapsto> stamp ?env rec)) (snd (ex_register rec g e))"
    using engine_inv_register [OF e(1), of rec ?env] by (simp add: run stocked_def)
qed

section \<open>Queries\<close>

definition asked_records :: "QueryDescriptor \<Rightarrow> StateRecord list \<Rightarrow> StateRecord list" where
  "asked_records q rs = sort_key rec_record_id (filter (\<lambda>r. case qd_state_id q of Some st \<Rightarrow> rec_state_id r = st
     | None \<Rightarrow> (case qd_kind q of Some k \<Rightarrow> rec_kind r = k | None \<Rightarrow> True)) rs)"

lemma shelved_get: "shelved rs cur e \<Longrightarrow> get_record e rid = Some r \<longleftrightarrow> r \<in> set rs \<and> rec_record_id r = rid"
  using shelvedD(5,6) [of rs cur e]
  by (auto simp: map_of_eq_Some_iff comp_def)

lemma shelved_ids:
  assumes "shelved rs cur e"
  shows "initial_candidate_ids e q = List.map rec_record_id (asked_records q rs)"
proof -
  have "scan_ids e q = set (List.map rec_record_id (asked_records q rs))"
    by (auto simp: scan_ids_def shelved_get [OF assms] asked_records_def split: option.splits)
  moreover have "distinct (List.map rec_record_id (asked_records q rs))"
    using shelvedD(5) [OF assms] by (auto simp: asked_records_def distinct_map inj_on_def)
  moreover have "sorted (List.map rec_record_id (asked_records q rs))" by (simp add: asked_records_def)
  ultimately show ?thesis
    unfolding candidate_ids_scan [OF shelvedD(3) [OF assms]] by (metis sorted_list_of_set.idem_if_sorted_distinct)
qed

lemma shelved_assessments:
  assumes "shelved rs cur e"
  shows "assessments (in_mode h e) q = List.map (\<lambda>r. evaluate_candidate (in_mode h e) r q) (asked_records q rs)"
proof -
  have "the (get_record e (rec_record_id r)) = r" if "r \<in> set (asked_records q rs)" for r
  proof -
    have "get_record e (rec_record_id r) = Some r"
      using that by (simp add: shelved_get [OF assms] asked_records_def)
    then show ?thesis by simp
  qed
  then show ?thesis
    unfolding assessments_map [OF shelvedD(3) [OF shelved_in_mode [OF assms]]] by (simp add: shelved_ids [OF assms])
qed

lemma shelved_ranked:
  assumes "shelved rs cur e"
  shows "ranked_assessments (in_mode h e) q = sort_by candidate_less
      (List.map (\<lambda>r. evaluate_candidate (in_mode h e) r q)
        (filter (\<lambda>r. admissible (in_mode h e) r q) (asked_records q rs)))"
    and "rejected_assessments (in_mode h e) q = List.map (\<lambda>r. evaluate_candidate (in_mode h e) r q)
      (filter (\<lambda>r. \<not> admissible (in_mode h e) r q) (asked_records q rs))"
  by (simp_all add: ranked_assessments_def rejected_assessments_def shelved_assessments [OF assms] filter_map comp_def
      evaluate_in_scope)

text \<open>The queries of the programs ask for nothing but identity, kind, compatibility and dependencies.\<close>

definition plain_query :: "QueryDescriptor \<Rightarrow> bool" where
  "plain_query q \<longleftrightarrow> qd_generation_rule q = GenerationRule_CURRENT \<and> \<not> qd_include_invalidated q \<and>
     qd_location_constraint q = default_constraint \<and> qd_required_health q = Health_UNKNOWN \<and>
     qd_required_freshness q = Freshness_UNKNOWN \<and> qd_min_replica_count q = 0 \<and> qd_max_retrieval_cost q = Double 0"

definition well_placed :: "StateRecord \<Rightarrow> bool" where
  "well_placed r \<longleftrightarrow> rec_locations r \<noteq> [] \<and> (\<forall>l\<in>set (rec_locations r). usable l)"

lemma plain_usable: "plain_query q \<Longrightarrow> well_placed r \<Longrightarrow> usable_locations r q = rec_locations r"
  by (simp add: usable_locations_def plain_query_def well_placed_def default_constraint_def)

lemma plain_place:
  assumes "plain_query q" and "well_placed r"
  shows "place_asked r q"
proof -
  obtain best where "best_location q (rec_locations r) = Some best"
    using best_location_Some [of "rec_locations r" q] assms(2) by (auto simp: well_placed_def)
  with assms show ?thesis
    by (simp add: place_asked_def plain_usable) (simp add: plain_query_def f64_less_def f64_key_def)
qed

definition current_in :: "(StateId \<Rightarrow> StateRecord option) \<Rightarrow> StateRecord \<Rightarrow> bool" where
  "current_in cur r \<longleftrightarrow> (case cur (rec_state_id r) of None \<Rightarrow> False | Some c \<Rightarrow> rec_record_id c = rec_record_id r)"

lemma shelved_current:
  assumes "shelved rs cur e"
  shows "is_current_record (in_mode h e) r \<longleftrightarrow> current_in cur r"
proof (cases "cur (rec_state_id r)")
  case None
  then have "um_find (eng_current e) (rec_state_id r) = None"
    using service_no_current [OF shelvedD(2) [OF assms]] shelvedD(7) [OF assms] by metis
  with None show ?thesis by (simp add: is_current_record_def current_in_def)
next
  case (Some c)
  then have "find_state e (rec_state_id r) = Some c" using shelvedD(7) [OF assms] by simp
  from service_find(3) [OF shelvedD(2) [OF assms] this] Some show ?thesis
    by (simp add: is_current_record_def current_in_def)
qed

lemma plain_admissible:
  assumes "shelved rs cur e" and "plain_query q" and "well_placed r"
  shows "admissible (in_mode h e) r q \<longleftrightarrow> same_identity_as_asked r q \<and>
    rec_lifecycle r \<noteq> Lifecycle_INVALIDATED \<and> rec_lifecycle r \<noteq> Lifecycle_TOMBSTONED \<and> dep_satisfied e r \<and>
    (h \<or> \<not> retired_lifecycle (rec_lifecycle r) \<and> current_in cur r) \<and> evidence_asked (in_mode h e) r q"
  using assms plain_place [OF assms(2,3)] shelvedD(8) [OF assms(1)]
  by (auto simp: admissible_def standing_def generation_asked_def plain_query_def shelved_current)

text \<open>The answer of a query by the number of its admissible records.\<close>

definition eligible_records :: "bool \<Rightarrow> StateIndexEngine \<Rightarrow> QueryDescriptor \<Rightarrow> StateRecord list \<Rightarrow> StateRecord list" where
  "eligible_records h e q rs = filter (\<lambda>r. admissible (in_mode h e) r q) (asked_records q rs)"

lemma ranked_count:
  assumes "shelved rs cur e"
  shows "length (qr_ranked_candidates (fst (run_query q h e))) = length (eligible_records h e q rs)"
  by (simp add: run_query_lists shelved_ranked [OF assms] eligible_records_def)

lemma single_answer:
  assumes "shelved rs cur e" and "eligible_records h e q rs = [r]"
  shows "qr_outcome (fst (run_query q h e)) =
      (if exact_match r q then QueryOutcome_FOUND_EXACT else QueryOutcome_FOUND_COMPATIBLE)"
    and "qr_selected_generation (fst (run_query q h e)) = Some (rec_state_generation r)"
    and "qr_selected_record_id (fst (run_query q h e)) = Some (rec_record_id r)"
proof -
  have "r \<in> set (eligible_records h e q rs)" by (simp add: assms(2))
  then have "r \<in> set rs" by (simp add: eligible_records_def asked_records_def)
  then have "get_record e (rec_record_id r) = Some r" by (simp add: shelved_get [OF assms(1)])
  moreover have "ranked_assessments (in_mode h e) q = [evaluate_candidate (in_mode h e) r q]"
    using assms(2) by (simp add: shelved_ranked [OF assms(1)] eligible_records_def sort_by_def)
  ultimately show "qr_outcome (fst (run_query q h e)) =
      (if exact_match r q then QueryOutcome_FOUND_EXACT else QueryOutcome_FOUND_COMPATIBLE)"
    and "qr_selected_generation (fst (run_query q h e)) = Some (rec_state_generation r)"
    and "qr_selected_record_id (fst (run_query q h e)) = Some (rec_record_id r)"
    by (simp_all add: run_query_outcome run_query_selection)
qed

lemma several_answers:
  assumes "shelved rs cur e" and "1 < length (eligible_records h e q rs)"
  shows "qr_outcome (fst (run_query q h e)) = QueryOutcome_FOUND_MULTIPLE"
proof -
  have "length (ranked_assessments (in_mode h e) q) = length (eligible_records h e q rs)"
    by (simp add: shelved_ranked [OF assms(1)] eligible_records_def)
  with assms(2) show ?thesis by (auto simp: run_query_outcome split: list.split)
qed

lemma length_map_filter_all: "(\<And>x. x \<in> set xs \<Longrightarrow> f x \<noteq> None) \<Longrightarrow> length (List.map_filter f xs) = length xs"
  by (induction xs) (force simp: List.map_filter_simps)+

lemmas stocked_get = shelved_get [OF stocked_shelved]
lemmas stocked_ids = shelved_ids [OF stocked_shelved]
lemmas stocked_ranked = shelved_ranked [OF stocked_shelved]
lemmas stocked_admissible = plain_admissible [OF stocked_shelved]
lemmas stocked_count = ranked_count [OF stocked_shelved]
lemmas stocked_single = single_answer [OF stocked_shelved]
lemmas stocked_several = several_answers [OF stocked_shelved]

section \<open>The records of the programs\<close>

lemma stamp_fields [simp]:
  "rec_kind (stamp env r) = rec_kind r" "rec_lifecycle (stamp env r) = rec_lifecycle r"
  "rec_compatibility (stamp env r) = rec_compatibility r" "rec_locations (stamp env r) = rec_locations r"
  "rec_content_digest (stamp env r) = rec_content_digest r"
  by (simp_all add: stamp_def redigest_def)

lemma retire_fields [simp]:
  "rec_kind (retire lc r) = rec_kind r" "rec_lifecycle (retire lc r) = lc"
  "rec_compatibility (retire lc r) = rec_compatibility r" "rec_locations (retire lc r) = rec_locations r"
  "rec_state_id (retire lc r) = rec_state_id r" "rec_state_generation (retire lc r) = rec_state_generation r"
  "rec_dependencies (retire lc r) = rec_dependencies r" "rec_content_digest (retire lc r) = rec_content_digest r"
  by (simp_all add: retire_def redigest_def)

lemma ex_rec_fields [simp]:
  "rec_record_id (ex_rec st gen kind domain node device c deps) = worker_record_id st gen"
  "rec_state_id (ex_rec st gen kind domain node device c deps) = st"
  "rec_state_generation (ex_rec st gen kind domain node device c deps) = gen"
  "rec_kind (ex_rec st gen kind domain node device c deps) = ex_kind kind"
  "rec_lifecycle (ex_rec st gen kind domain node device c deps) = Lifecycle_AVAILABLE"
  "rec_compatibility (ex_rec st gen kind domain node device c deps) = c"
  "rec_dependencies (ex_rec st gen kind domain node device c deps) = deps"
  "rec_locations (ex_rec st gen kind domain node device c deps) = [ex_loc st gen domain node device]"
  by (simp_all add: ex_rec_def redigest_def)

lemma ex_loc_usable [simp]: "usable (ex_loc st gen domain node device)"
  by (simp add: ex_loc_def Let_def usable_def)

lemma ex_well_placed [simp]:
  "well_placed (stamp env (ex_rec st gen kind domain node device c deps))"
  "well_placed r \<Longrightarrow> well_placed (retire lc r)"
  by (simp_all add: well_placed_def)

lemma no_dependencies [simp]: "rec_dependencies r = [] \<Longrightarrow> dep_satisfied e r"
  by (simp add: dep_satisfied_def)

lemma record_id_eval: "worker_record_id (StrongId s) (Generation g) = StrongId (push_bit 32 s OR g)"
  by (simp add: worker_record_id_def)

lemma default_query_fields [simp]:
  "qd_kind default_query = None" "qd_state_id default_query = None" "\<not> qd_wildcard_state_id default_query"
  "qd_namespace_id default_query = None" "qd_owner_id default_query = None" "qd_producer_id default_query = None"
  "qd_content_digest default_query = []" "qd_generation_rule default_query = GenerationRule_CURRENT"
  "qd_compatibility default_query = CompatibilityRequirement_NONE" "qd_dependency_requirements default_query = []"
  "qd_location_constraint default_query = default_constraint" "qd_required_health default_query = Health_UNKNOWN"
  "qd_required_freshness default_query = Freshness_UNKNOWN" "qd_min_replica_count default_query = 0"
  "qd_max_retrieval_cost default_query = Double 0" "\<not> qd_include_invalidated default_query"
  "qd_locality_preference default_query = []" "qd_policy_generation default_query = unset_gen"
  "qd_query_generation default_query = unset_gen"
  by (simp_all add: default_query_def)

lemma superseding_None [simp]: "superseding None rs = rs"
  by (simp add: superseding_def)

abbreviation stored :: "StateGeneration \<Rightarrow> StateRecord \<Rightarrow> StateRecord" where
  "stored g r \<equiv> stamp (ex_env (Generation 1) g) r"

lemmas query_simps = eligible_records_def asked_records_def stocked_admissible plain_query_def
  same_identity_as_asked_def evidence_asked_def retired_lifecycle_def current_in_def record_id_eval

lemmas shown_simps = shown_generation_def shown_record_def shown_bool_def shown_count_def query_def query_historical_def
  found_def exact_match_def exact_id_def

text \<open>The history of a state holds its records, whatever the mode.\<close>

lemma stocked_history:
  assumes "stocked rs cur e"
  shows "length (history_of (in_mode h e) st) = length (filter (\<lambda>r. rec_state_id r = st) rs)"
proof -
  have inv: "history_inv e" using stockedD(2) [OF assms] by (simp add: service_inv_def)
  have ids: "history_ids (in_mode h e) st = history_ids e st" by (simp add: history_ids_def in_mode_def)
  have set: "set (history_ids e st) = rec_record_id ` set (filter (\<lambda>r. rec_state_id r = st) rs)"
    using inv by (auto simp: history_inv_def stocked_get [OF assms])
  have "length (history_of (in_mode h e) st) = length (history_ids e st)"
    unfolding history_of_def ids length_sort
    by (rule length_map_filter_all) (auto simp: set stocked_get [OF assms])
  also have "\<dots> = card (set (history_ids e st))"
    using inv by (metis distinct_card history_inv_def)
  also have "\<dots> = length (filter (\<lambda>r. rec_state_id r = st) rs)"
    using stockedD(6) [OF assms] distinct_card [of "List.map rec_record_id (filter (\<lambda>r. rec_state_id r = st) rs)"]
    by (simp add: set distinct_map_filter)
  finally show ?thesis .
qed

lemma digits [simp]:
  "char_of (48 :: nat) = CHR ''0''" "char_of (49 :: nat) = CHR ''1''" "char_of (50 :: nat) = CHR ''2''"
  "char_of (51 :: nat) = CHR ''3''" "char_of (52 :: nat) = CHR ''4''" "char_of (53 :: nat) = CHR ''5''"
  "char_of (54 :: nat) = CHR ''6''" "char_of (55 :: nat) = CHR ''7''" "char_of (56 :: nat) = CHR ''8''"
  "char_of (57 :: nat) = CHR ''9''"
  by (simp_all add: char_of_def bit_Suc_0_iff)

lemma decimal_eval:
  "n < 10 \<Longrightarrow> decimal n = [char_of (48 + n)]"
  "10 \<le> n \<Longrightarrow> decimal n = decimal (n div 10) @ [char_of (48 + n mod 10)]"
  by (simp_all add: decimal.simps [of n])

lemmas text_simps = gen_to_string_def id_to_string_def snprintf_llu_def decimal_eval

lemma example_01_prints: "example_01 = ''StateId=42 StateGeneration=3 null=1'' @ nl"
  by (simp add: example_01_def Let_def shown_bool_def id_is_null_def null_id_def text_simps)

lemma example_02_prints: "example_02 = ''outcome=FOUND_EXACT gen=1'' @ nl"
proof -
  let ?r = "ex_plain (StrongId 5) (Generation 1)" and ?q = "default_query\<lparr>qd_query_id := StrongId 1, qd_state_id := Some (StrongId 5)\<rparr>"
  let ?e = "snd (ex_register ?r (Generation 1) ex_engine)"
  have s: "stocked [stored (Generation 1) ?r] [StrongId 5 \<mapsto> stored (Generation 1) ?r] ?e"
    using stocked_register(1) [OF stocked_engine, of ?r "Generation 1"] by (simp add: is_set_def)
  have "eligible_records False ?e ?q [stored (Generation 1) ?r] = [stored (Generation 1) ?r]"
    using s by (simp add: query_simps)
  from stocked_single [OF s this] show ?thesis
    by (simp add: example_02_def split_beta shown_simps text_simps)
qed

lemma example_03_prints: "example_03 = ''outcome=FOUND_MULTIPLE candidates=3'' @ nl"
proof -
  let ?r = "\<lambda>i. ex_plain (StrongId i) (Generation 1)" and ?t = "ex_rec (StrongId 9) (Generation 1) ''tensor'' ''mem'' 1 0 None []"
  let ?q = "default_query\<lparr>qd_query_id := StrongId 2, qd_kind := Some StateKind_KV_STATE\<rparr>"
  let ?s = "stored (Generation 1)"
  let ?e1 = "snd (ex_register (?r 1) (Generation 1) ex_engine)"
  let ?e2 = "snd (ex_register (?r 2) (Generation 1) ?e1)"
  let ?e3 = "snd (ex_register (?r 3) (Generation 1) ?e2)"
  let ?e = "snd (ex_register ?t (Generation 1) ?e3)"
  let ?rs = "[?s (?r 1), ?s (?r 2), ?s (?r 3), ?s ?t]"
  have s1: "stocked [?s (?r 1)] [StrongId 1 \<mapsto> ?s (?r 1)] ?e1"
    using stocked_register(1) [OF stocked_engine, of "?r 1" "Generation 1"] by (simp add: is_set_def)
  have s2: "stocked [?s (?r 1), ?s (?r 2)] [StrongId 1 \<mapsto> ?s (?r 1), StrongId 2 \<mapsto> ?s (?r 2)] ?e2"
    using stocked_register(1) [OF s1, of "?r 2" "Generation 1"] by (simp add: is_set_def record_id_eval)
  have s3: "stocked [?s (?r 1), ?s (?r 2), ?s (?r 3)]
      [StrongId 1 \<mapsto> ?s (?r 1), StrongId 2 \<mapsto> ?s (?r 2), StrongId 3 \<mapsto> ?s (?r 3)] ?e3"
    using stocked_register(1) [OF s2, of "?r 3" "Generation 1"] by (simp add: is_set_def record_id_eval)
  have s4: "stocked ?rs [StrongId 1 \<mapsto> ?s (?r 1), StrongId 2 \<mapsto> ?s (?r 2), StrongId 3 \<mapsto> ?s (?r 3), StrongId 9 \<mapsto> ?s ?t] ?e"
    using stocked_register(1) [OF s3, of ?t "Generation 1"] by (simp add: is_set_def record_id_eval)
  have "eligible_records False ?e ?q ?rs = [?s (?r 1), ?s (?r 2), ?s (?r 3)]"
    using s4 by (simp add: query_simps ex_kind_def)
  with stocked_several [OF s4] stocked_count [OF s4] show ?thesis
    by (simp add: example_03_def split_beta shown_simps text_simps)
qed

lemma example_04_prints: "example_04 = ''locations=2'' @ nl"
proof -
  let ?r0 = "ex_plain (StrongId 7) (Generation 1)"
  let ?r = "?r0\<lparr>rec_locations := rec_locations ?r0 @ [ex_loc (StrongId 7) (Generation 1) ''file'' 2 0]\<rparr>"
  let ?e = "snd (ex_register ?r (Generation 1) ex_engine)"
  have s: "stocked [stored (Generation 1) ?r] [StrongId 7 \<mapsto> stored (Generation 1) ?r] ?e"
    using stocked_register(1) [OF stocked_engine, of ?r "Generation 1"] by (simp add: is_set_def)
  have "get_record ?e (StrongId 0x700000001) = Some (stored (Generation 1) ?r)"
    using s by (simp add: stocked_get record_id_eval)
  then show ?thesis by (simp add: example_04_def Let_def split_beta shown_count_def text_simps)
qed

lemma example_05_prints: "example_05 = ''current gen=2 history=2'' @ nl"
proof -
  let ?r = "\<lambda>g. ex_plain (StrongId 3) (Generation g)" and ?s = "\<lambda>g. stored (Generation g)"
  let ?q = "default_query\<lparr>qd_query_id := StrongId 3, qd_state_id := Some (StrongId 3)\<rparr>"
  let ?e1 = "snd (ex_register (?r 1) (Generation 1) ex_engine)"
  let ?e2 = "snd (ex_register (?r 2) (Generation 2) ?e1)"
  let ?rs = "[retire Lifecycle_SUPERSEDED (?s 1 (?r 1)), ?s 2 (?r 2)]"
  have s1: "stocked [?s 1 (?r 1)] [StrongId 3 \<mapsto> ?s 1 (?r 1)] ?e1"
    using stocked_register(1) [OF stocked_engine, of "?r 1" "Generation 1"] by (simp add: is_set_def)
  have s2: "stocked ?rs [StrongId 3 \<mapsto> ?s 2 (?r 2)] ?e2"
    using stocked_register(1) [OF s1, of "?r 2" "Generation 2"] by (simp add: is_set_def record_id_eval)
  have "eligible_records False ?e2 ?q ?rs = [?s 2 (?r 2)]"
    using s2 by (simp add: query_simps)
  from stocked_single(2) [OF s2 this] have "shown_generation (fst (run_query ?q False ?e2)) = ''2''"
    by (simp add: shown_simps text_simps)
  moreover have "length (history_of (in_mode False ?e2) (StrongId 3)) = 2"
    using stocked_history [OF s2, where st = "StrongId 3"] by simp
  ultimately show ?thesis by (simp add: example_05_def split_beta query_def shown_count_def text_simps)
qed

lemma example_06_prints: "example_06 = ''exact-only candidates=1 selected=4294967297'' @ nl"
proof -
  let ?r1 = "ex_rec (StrongId 1) (Generation 1) ''kv'' ''mem'' 1 0 (Some (ex_compat (StrongId 1) CompatibilityOutcome_EXACT)) []"
  let ?r2 = "ex_rec (StrongId 2) (Generation 1) ''kv'' ''mem'' 1 0 (Some (ex_compat (StrongId 2) CompatibilityOutcome_COMPATIBLE)) []"
  let ?q = "default_query\<lparr>qd_query_id := StrongId 6, qd_kind := Some StateKind_KV_STATE,
    qd_compatibility := CompatibilityRequirement_EXACT\<rparr>"
  let ?s = "stored (Generation 1)"
  let ?e1 = "snd (ex_register ?r1 (Generation 1) ex_engine)"
  let ?e2 = "snd (ex_register ?r2 (Generation 1) ?e1)"
  have s1: "stocked [?s ?r1] [StrongId 1 \<mapsto> ?s ?r1] ?e1"
    using stocked_register(1) [OF stocked_engine, of ?r1 "Generation 1"] by (simp add: is_set_def)
  have s2: "stocked [?s ?r1, ?s ?r2] [StrongId 1 \<mapsto> ?s ?r1, StrongId 2 \<mapsto> ?s ?r2] ?e2"
    using stocked_register(1) [OF s1, of ?r2 "Generation 1"] by (simp add: is_set_def record_id_eval)
  have el: "eligible_records False ?e2 ?q [?s ?r1, ?s ?r2] = [?s ?r1]"
    using s2 by (simp add: query_simps ex_kind_def ex_compat_def satisfies_def)
  from stocked_single(3) [OF s2 el] stocked_count [OF s2, where h = False and q = ?q] el show ?thesis
    by (simp add: example_06_def Let_def split_beta shown_simps text_simps record_id_eval)
qed

lemma example_07_prints: "example_07 = ''outcome=FOUND_EXACT found=1'' @ nl"
proof -
  let ?r1 = "ex_plain (StrongId 10) (Generation 1)"
  let ?r2 = "ex_rec (StrongId 11) (Generation 1) ''kv'' ''mem'' 1 0 None [\<lparr>dep_id = StrongId 1,
    dep_generation = Generation 1, dep_kind = DependencyKind_STATE, dep_target_state = StrongId 10,
    dep_required_generation = Generation 1, dep_required = True\<rparr>]"
  let ?q = "default_query\<lparr>qd_query_id := StrongId 7, qd_state_id := Some (StrongId 11),
    qd_dependency_requirements := [\<lparr>dr_target_state = StrongId 10, dr_minimum_generation = Generation 1, dr_required = True\<rparr>]\<rparr>"
  let ?s = "stored (Generation 1)"
  let ?e1 = "snd (ex_register ?r1 (Generation 1) ex_engine)"
  let ?e2 = "snd (ex_register ?r2 (Generation 1) ?e1)"
  have s1: "stocked [?s ?r1] [StrongId 10 \<mapsto> ?s ?r1] ?e1"
    using stocked_register(1) [OF stocked_engine, of ?r1 "Generation 1"] by (simp add: is_set_def)
  have s2: "stocked [?s ?r1, ?s ?r2] [StrongId 10 \<mapsto> ?s ?r1, StrongId 11 \<mapsto> ?s ?r2] ?e2"
    using stocked_register(1) [OF s1, of ?r2 "Generation 1"] by (simp add: is_set_def record_id_eval)
  have "dep_satisfied ?e2 (?s ?r2)"
    by (simp add: dep_satisfied_def stockedD(8) [OF s2])
  then have "eligible_records False ?e2 ?q [?s ?r1, ?s ?r2] = [?s ?r2]"
    using s2 by (simp add: query_simps stockedD(8) [OF s2])
  from stocked_single(1) [OF s2 this] show ?thesis
    by (simp add: example_07_def Let_def split_beta shown_simps)
qed

lemma example_14_prints:
  "example_14 = ''cuda-location-domain=CUDA_DEVICE outcome=FOUND_EXACT'' @ nl
     @ ''(real RTX 5090 kernel parity proof runs in test_cuda)'' @ nl"
proof -
  let ?r = "ex_rec (StrongId 60) (Generation 1) ''tensor'' ''cuda'' 1 2 None []"
  let ?q = "default_query\<lparr>qd_query_id := StrongId 14, qd_state_id := Some (StrongId 60),
    qd_locality_preference := [MemoryDomain_CUDA_DEVICE]\<rparr>"
  let ?e = "snd (ex_register ?r (Generation 1) ex_engine)"
  have s: "stocked [stored (Generation 1) ?r] [StrongId 60 \<mapsto> stored (Generation 1) ?r] ?e"
    using stocked_register(1) [OF stocked_engine, of ?r "Generation 1"] by (simp add: is_set_def)
  have "eligible_records False ?e ?q [stored (Generation 1) ?r] = [stored (Generation 1) ?r]"
    using s by (simp add: query_simps)
  moreover have "get_record ?e (StrongId 0x3C00000001) = Some (stored (Generation 1) ?r)"
    using s by (simp add: stocked_get record_id_eval)
  ultimately show ?thesis
    using stocked_single(1) [OF s]
    by (simp add: example_14_def Let_def split_beta shown_simps ex_loc_def ex_domain_def)
qed

lemma example_13_prints:
  "example_13 = ''old-boot=ACCEPTED fresh-boot-gen2=ACCEPTED (fresh incarnation not fenced)'' @ nl"
  by (simp add: example_13_def Let_def validate_state_publication_def verdict_detail_def new_authority_def is_set_def
      default_envelope_def current_authority_def tombstone_floor_def set_current_authority_def)

section \<open>Invalidation, tombstone, history\<close>

lemma stocked_invalidate:
  assumes s: "stocked rs cur e" and ok: "may_invalidate i env e"
  shows "stocked (List.map (invalidated (inv_state_id i) (inv_bound_generation i)) rs)
    (\<lambda>st. if st = inv_state_id i then None
       else map_option (invalidated (inv_state_id i) (inv_bound_generation i)) (cur st)) (snd (invalidate i env e))"
proof -
  note e = stockedD [OF s]
  note srv = engine_inv_serving [OF e(1)]
  let ?f = "invalidated (inv_state_id i) (inv_bound_generation i)" and ?e' = "snd (invalidate i env e)"
  have "map_of (List.map (\<lambda>r. (rec_record_id r, r)) (List.map ?f rs)) rid = map_option ?f (map_of (List.map (\<lambda>r. (rec_record_id r, r)) rs) rid)" for rid
    by (induction rs) auto
  then have "get_record ?e' = map_of (List.map (\<lambda>r. (rec_record_id r, r)) (List.map ?f rs))"
    by (simp add: fun_eq_iff get_record_invalidate [OF srv ok] e(7) del: map_map)
  moreover have "find_state ?e' = (\<lambda>st. if st = inv_state_id i then None else map_option ?f (cur st))"
    by (simp add: fun_eq_iff find_state_invalidate [OF srv ok] e(8))
  moreover have "eng_tombstones ?e' = []"
    using invalidate_accepted(2) [OF srv ok]
      mark_invalidated(2) [OF service_log [OF e(2)], where st = "inv_state_id i" and b = "inv_bound_generation i"
        and i1 = i and env1 = env] e(5)
    by (auto simp: same_views_def)
  moreover have "auth_epoch (eng_authority ?e') = Generation 1" "is_live (eng_authority ?e') (StrongId ex_boot)"
    using inval.keeps_membership [OF e(1), of i env] e(3,4) by (simp_all add: same_membership_def is_live_def)
  ultimately show ?thesis
    using engine_inv_invalidate [OF e(1), of i env] e(6) by (simp add: stocked_def comp_def)
qed

lemma example_09_prints:
  "example_09 = ''invalidate=ACCEPTED invalidated state 20 through generation 1'' @ nl
     @ ''query-outcome=INVALIDATED_ONLY found=0'' @ nl"
proof -
  let ?r = "ex_plain (StrongId 20) (Generation 1)" and ?env = "ex_env (Generation 1) (Generation 1)"
  let ?i = "default_invalidation\<lparr>inv_invalidation_id := StrongId 1, inv_state_id := StrongId 20,
    inv_bound_generation := Generation 1\<rparr>"
  let ?q = "default_query\<lparr>qd_query_id := StrongId 9, qd_state_id := Some (StrongId 20)\<rparr>"
  let ?e1 = "snd (ex_register ?r (Generation 1) ex_engine)"
  let ?e2 = "snd (invalidate ?i ?env ?e1)"
  let ?gone = "retire Lifecycle_INVALIDATED (stored (Generation 1) ?r)"
  have s1: "stocked [stored (Generation 1) ?r] [StrongId 20 \<mapsto> stored (Generation 1) ?r] ?e1"
    using stocked_register(1) [OF stocked_engine, of ?r "Generation 1"] by (simp add: is_set_def)
  note e1 = stockedD [OF s1]
  have guard: "guard_authority ?env ?e1 = None"
    using e1(3,4) by (simp add: guard_authority_def ex_env_def)
  have ok: "may_invalidate ?i ?env ?e1"
    by (simp add: may_invalidate_def guard e1(8))
  have s2: "stocked [?gone] (\<lambda>_. None) ?e2"
    using stocked_invalidate [OF s1 ok] by (simp add: invalidated_def fun_eq_iff cong: if_cong)
  have bad: "\<not> admissible (in_mode False ?e2) ?gone ?q"
    using s2 by (simp add: stocked_admissible plain_query_def)
  have "first_rejection (candidate_filters (in_mode False ?e2) ?gone ?q) =
      Some (RejectionReason_INVALIDATED, ''record lifecycle is INVALIDATED'')"
    using stockedD(9) [OF s2]
    by (simp add: candidate_filters_def identity_filters_def lifecycle_filters_def differs_def reject_if_def)
  then have "qr_eliminated (fst (run_query ?q False ?e2)) = [\<lparr>el_record_id = rec_record_id ?r,
      el_reason = RejectionReason_INVALIDATED, el_note = ''record lifecycle is INVALIDATED''\<rparr>]"
    using bad by (simp add: run_query_lists stocked_ranked(2) [OF s2] asked_records_def evaluate_candidate_def
        rejected_candidate_def elimination_of_def)
  moreover have "ranked_assessments (in_mode False ?e2) ?q = []"
    using bad by (simp add: stocked_ranked(1) [OF s2] asked_records_def sort_by_def)
  moreover have "initial_candidate_ids ?e2 ?q \<noteq> []"
    by (simp add: stocked_ids [OF s2] asked_records_def)
  ultimately have "qr_outcome (fst (run_query ?q False ?e2)) = QueryOutcome_INVALIDATED_ONLY"
    by (simp add: run_query_outcome empty_outcome_def saw_def class_of_def)
  moreover have "fst (invalidate ?i ?env ?e1) = verdict_detail MutationVerdict_ACCEPTED
      ''invalidated state 20 through generation 1''"
    using ok by (simp add: invalidate_def guard Let_def split_beta e1(8) text_simps)
  ultimately show ?thesis
    by (simp add: example_09_def Let_def split_beta e1(3) shown_simps verdict_detail_def)
qed

lemma register_refused:
  "mvd_verdict (validate_state_publication (eng_authority e) (rec_state_id rec) env (rec_state_generation rec)) = v \<Longrightarrow>
     v \<noteq> MutationVerdict_ACCEPTED \<Longrightarrow> mvd_verdict (fst (register_state rec env e)) = v"
  by (simp add: register_state_def Let_def)

lemma example_10_prints:
  "example_10 = ''tombstone=ACCEPTED'' @ nl
     @ ''resurrection-attempt=REJECTED_TOMBSTONED (tombstone floor must win)'' @ nl"
proof -
  let ?r = "ex_plain (StrongId 30) (Generation 4)" and ?env = "ex_env (Generation 1) (Generation 4)"
  let ?t = "default_tombstone\<lparr>tomb_tombstone_id := StrongId 1, tomb_state_id := StrongId 30,
    tomb_floor_generation := Generation 4\<rparr>"
  let ?e1 = "snd (ex_register ?r (Generation 4) ex_engine)"
  let ?e2 = "snd (tombstone ?t ?env ?e1)"
  have s1: "stocked [stored (Generation 4) ?r] [StrongId 30 \<mapsto> stored (Generation 4) ?r] ?e1"
    using stocked_register(1) [OF stocked_engine, of ?r "Generation 4"] by (simp add: is_set_def)
  note e1 = stockedD [OF s1]
  have guard: "guard_authority ?env ?e1 = None"
    using e1(3,4) by (simp add: guard_authority_def ex_env_def)
  have ok: "may_tombstone ?t ?env ?e1"
    by (simp add: may_tombstone_def guard e1(5,8) is_set_def)
  have "below_floor (eng_authority ?e2) (StrongId 30) (Generation 4)"
    using fenced_above_tombstone [OF e1(1) ok] by (simp add: fenced_above_def)
  moreover have "(Generation 3 :: StateGeneration) \<le> Generation 4" by (simp add: less_eq_Generation_def)
  ultimately have "below_floor (eng_authority ?e2) (StrongId 30) (Generation 3)"
    unfolding below_floor_def using order_trans by blast
  moreover have auth: "auth_epoch (eng_authority ?e2) = Generation 1" "is_live (eng_authority ?e2) (StrongId ex_boot)"
    using tomb.keeps_membership [OF e1(1), of ?t ?env] e1(3,4) by (simp_all add: same_membership_def is_live_def)
  ultimately have "mvd_verdict (validate_state_publication (eng_authority ?e2) (StrongId 30)
      (ex_env (Generation 1) (Generation 3)) (Generation 3)) = MutationVerdict_REJECTED_TOMBSTONED"
    by (simp add: tombstoned_iff ex_env_def is_set_def)
  then have "mvd_verdict (fst (ex_register (ex_plain (StrongId 30) (Generation 3)) (Generation 3) ?e2)) =
      MutationVerdict_REJECTED_TOMBSTONED"
    unfolding ex_register_def [where e = ?e2] auth(1) by (intro register_refused) simp_all
  with tombstone_accepted(1) [OF ok] show ?thesis
    by (simp add: example_10_def Let_def split_beta e1(3))
qed

lemma example_11_prints: "example_11 = ''history-candidates=2 current-gen=2'' @ nl"
proof -
  let ?r = "\<lambda>g. ex_plain (StrongId 40) (Generation g)" and ?s = "\<lambda>g. stored (Generation g)"
  let ?q = "default_query\<lparr>qd_query_id := StrongId 11, qd_state_id := Some (StrongId 40)\<rparr>"
  let ?hq = "?q\<lparr>qd_historical_only := True\<rparr>"
  let ?e1 = "snd (ex_register (?r 1) (Generation 1) ex_engine)"
  let ?e2 = "snd (ex_register (?r 2) (Generation 2) ?e1)"
  let ?rs = "[retire Lifecycle_SUPERSEDED (?s 1 (?r 1)), ?s 2 (?r 2)]"
  have s1: "stocked [?s 1 (?r 1)] [StrongId 40 \<mapsto> ?s 1 (?r 1)] ?e1"
    using stocked_register(1) [OF stocked_engine, of "?r 1" "Generation 1"] by (simp add: is_set_def)
  have s2: "stocked ?rs [StrongId 40 \<mapsto> ?s 2 (?r 2)] ?e2"
    using stocked_register(1) [OF s1, of "?r 2" "Generation 2"] by (simp add: is_set_def record_id_eval)
  have "eligible_records True ?e2 ?hq ?rs = ?rs"
    using s2 by (simp add: query_simps)
  with stocked_count [OF s2, where h = True and q = ?hq]
  have "length (qr_ranked_candidates (fst (run_query ?hq True ?e2))) = 2" by simp
  moreover note s3 = stocked_in_mode [OF s2, of True]
  have "eligible_records False (in_mode True ?e2) ?q ?rs = [?s 2 (?r 2)]"
    using s3 by (simp add: query_simps)
  from stocked_single(2) [OF s3 this]
  have "qr_selected_generation (fst (run_query ?q False (in_mode True ?e2))) = Some (Generation 2)" by simp
  ultimately show ?thesis
    by (simp add: example_11_def Let_def split_beta shown_simps text_simps)
qed

section \<open>Ranking\<close>

text \<open>The bit patterns of the small integers that the factors take, and of one half.\<close>

lemma mag_units_nat:
  "mag_units 0 = 0 * one_units" "mag_units 4607182418800017408 = 1 * one_units"
  "mag_units 4611686018427387904 = 2 * one_units" "mag_units 4613937818241073152 = 3 * one_units"
  "mag_units 4621819117588971520 = 10 * one_units" "mag_units 4622382067542392832 = 11 * one_units"
  by (simp_all add: one_units_def mag_units_def)

lemma num_mags [simp]:
  "f64_mag (num (Suc 0)) = 4607182418800017408" "f64_mag (num 2) = 4611686018427387904"
  "f64_mag (num 3) = 4613937818241073152" "f64_mag (num 10) = 4621819117588971520"
  "f64_mag (num 11) = 4622382067542392832"
  using f64_of_nat_exact(1) [OF mag_units_nat(2)] f64_of_nat_exact(1) [OF mag_units_nat(3)]
    f64_of_nat_exact(1) [OF mag_units_nat(4)] f64_of_nat_exact(1) [OF mag_units_nat(5)]
    f64_of_nat_exact(1) [OF mag_units_nat(6)]
  by (simp_all add: inf_mag_def)

definition exact_num :: "nat \<Rightarrow> bool" where
  "exact_num n \<longleftrightarrow> f64_units (num n) = int n * int one_units \<and> \<not> f64_is_inf (num n)"

lemma exact_nums [simp]: "exact_num 0" "exact_num (Suc 0)" "exact_num 2" "exact_num 3" "exact_num 10" "exact_num 11"
  using mag_units_nat by (simp_all add: exact_num_def f64_units_def f64_is_inf_def inf_mag_def)

lemma add_units:
  "\<not> f64_is_nan a \<Longrightarrow> \<not> f64_is_nan b \<Longrightarrow> \<not> f64_is_inf a \<Longrightarrow> \<not> f64_is_inf b \<Longrightarrow>
     f64_units a + f64_units b = int k \<Longrightarrow> 0 < k \<Longrightarrow> f64_add a b = f64_round False k 1"
  by (simp add: f64_add_def Let_def)

lemma add_nums:
  assumes "exact_num m" and "exact_num n" and "0 < m + n"
  shows "f64_add (num m) (num n) = num (m + n)"
proof -
  have "f64_add (num m) (num n) = f64_round False ((m + n) * one_units) 1"
    using assms by (intro add_units) (simp_all add: exact_num_def algebra_simps one_units_def)
  then show ?thesis by (simp only: f64_of_nat_def)
qed

lemma ex_locality:
  assumes "qd_locality_preference q = []" and "ex_domain domain = MemoryDomain_HOST_MEMORY"
  shows "locality_score q (ex_loc st gen domain node device) = num 10"
  using assms by (simp add: locality_score_def Let_def ex_loc_def add_nums)

lemma example_08_prints:
  "example_08 = ''selected=8589934593 (local-compatible wins) candidates=2'' @ nl"
proof -
  let ?r1 = "ex_rec (StrongId 1) (Generation 1) ''kv'' ''remote'' 2 0 (Some (ex_compat (StrongId 1) CompatibilityOutcome_EXACT)) []"
  let ?r2 = "ex_rec (StrongId 2) (Generation 1) ''kv'' ''mem'' 1 0 (Some (ex_compat (StrongId 2) CompatibilityOutcome_COMPATIBLE)) []"
  let ?q = "default_query\<lparr>qd_query_id := StrongId 8, qd_kind := Some StateKind_KV_STATE,
    qd_locality_preference := [MemoryDomain_HOST_MEMORY]\<rparr>"
  let ?s = "stored (Generation 1)"
  let ?e1 = "snd (ex_register ?r1 (Generation 1) ex_engine)"
  let ?e2 = "snd (ex_register ?r2 (Generation 1) ?e1)"
  let ?l1 = "ex_loc (StrongId 1) (Generation 1) ''remote'' 2 0" and ?l2 = "ex_loc (StrongId 2) (Generation 1) ''mem'' 1 0"
  let ?c1 = "accepted_candidate (?s ?r1) ?q ?l1" and ?c2 = "accepted_candidate (?s ?r2) ?q ?l2"
  have s1: "stocked [?s ?r1] [StrongId 1 \<mapsto> ?s ?r1] ?e1"
    using stocked_register(1) [OF stocked_engine, of ?r1 "Generation 1"] by (simp add: is_set_def)
  have s2: "stocked [?s ?r1, ?s ?r2] [StrongId 1 \<mapsto> ?s ?r1, StrongId 2 \<mapsto> ?s ?r2] ?e2"
    using stocked_register(1) [OF s1, of ?r2 "Generation 1"] by (simp add: is_set_def record_id_eval)
  have el: "eligible_records False ?e2 ?q [?s ?r1, ?s ?r2] = [?s ?r1, ?s ?r2]"
    using s2 by (simp add: query_simps ex_kind_def)
  have "locality_score ?q ?l1 = num 0" "locality_score ?q ?l2 = num 11"
    by (simp_all add: locality_score_def Let_def ex_loc_def ex_domain_def add_nums)
  then have less: "candidate_less ?c2 ?c1" "\<not> candidate_less ?c1 ?c2"
    by (simp_all add: candidate_less_def accepted_candidate_def factor_order_def factor_of_def Let_def exact_id_def
        f64_eq_def f64_less_def f64_key_def)
  have "evaluate_candidate (in_mode False ?e2) r ?q = accepted_candidate r ?q l"
    if "r \<in> set (eligible_records False ?e2 ?q [?s ?r1, ?s ?r2])" "rec_locations r = [l]" "well_placed r" for r l
  proof -
    have "best_location ?q (usable_locations r ?q) = Some l"
      using that(2) plain_usable [OF _ that(3), of ?q] by (simp add: plain_query_def best_location_def)
    with that(1) show ?thesis
      by (auto simp: eligible_records_def elim!: evaluate_admissible)
  qed
  then have "ranked_assessments (in_mode False ?e2) ?q = sort_by candidate_less [?c1, ?c2]"
    using el by (simp add: stocked_ranked(1) [OF s2] eligible_records_def [symmetric])
  also have "\<dots> = [?c2, ?c1]" using less by (simp add: sort_by_def)
  finally have "qr_selected_record_id (fst (run_query ?q False ?e2)) = Some (rec_record_id ?r2)"
    by (simp add: run_query_selection accepted_candidate_def)
  with stocked_count [OF s2, where h = False and q = ?q] el show ?thesis
    by (simp add: example_08_def Let_def split_beta shown_simps text_simps record_id_eval)
qed

section \<open>An explanation\<close>

lemma half_units: "mag_units 4602678819172646912 * 2 = one_units"
  by (simp add: one_units_def mag_units_def)

lemma zero_fields [simp]: "\<not> f64_is_inf (Double 0)" "f64_units (Double 0) = 0" "f64_add (Double 0) f64_one = f64_one"
proof -
  show a: "\<not> f64_is_inf (Double 0)" "f64_units (Double 0) = 0"
    using mag_units_nat(1) by (simp_all add: f64_is_inf_def inf_mag_def f64_units_def)
  have "f64_add (Double 0) f64_one = f64_round False (1 * one_units) 1"
    by (rule add_units) (simp_all add: a one_units_def)
  then show "f64_add (Double 0) f64_one = f64_one" by (simp only: f64_one_def f64_of_nat_def)
qed

lemma inv_factor_values: "inv_factor (Double 0) = num 1" "inv_factor (num 1) = f64_make False 4602678819172646912"
proof -
  have d: "f64_div f64_one x = f64_round False (one_units * one_units) (nat \<bar>f64_units x\<bar>)"
    if "\<not> f64_is_nan x" "\<not> f64_is_inf x" "f64_mag x \<noteq> 0" "\<not> f64_sign x" for x
    using that by (simp add: f64_div_def Let_def)
  have pos: "0 < one_units" by (simp add: one_units_def)
  have one: "round_mag (one_units * one_units) one_units = round_mag one_units 1"
    using round_mag_cancel [OF pos, of one_units 1] by simp
  show "inv_factor (Double 0) = num 1"
    by (simp add: inv_factor_def d f64_round_def one) (simp add: f64_of_nat_def f64_round_def)
  have "f64_add (num 1) f64_one = num 2"
    using add_nums [of 1 1] by (simp add: f64_one_def numeral_2_eq_2)
  moreover have "nat \<bar>f64_units (num 2)\<bar> = 2 * one_units"
    using f64_of_nat_exact(2) [OF mag_units_nat(3)] by (simp add: inf_mag_def)
  moreover have "round_mag (one_units * one_units) (2 * one_units) = 4602678819172646912"
  proof -
    have "round_mag (one_units * one_units) (2 * one_units) = round_mag (mag_units 4602678819172646912 * 2) (1 * 2)"
      using round_mag_cancel [OF pos, of one_units 2] half_units by simp
    also have "\<dots> = round_mag (mag_units 4602678819172646912) 1" by (rule round_mag_cancel) simp
    also have "\<dots> = 4602678819172646912" by (rule round_mag_exact) (simp add: inf_mag_def)
    finally show ?thesis .
  qed
  moreover have "\<not> f64_is_inf (num 2)" using exact_nums(3) by (simp add: exact_num_def)
  ultimately show "inv_factor (num 1) = f64_make False 4602678819172646912"
    by (simp add: inv_factor_def d f64_round_def)
qed

lemma to_string_units:
  assumes "\<not> f64_sign x" "\<not> f64_is_nan x" "\<not> f64_is_inf x" and "nat \<bar>f64_units x\<bar> * 10 ^ 6 = n * one_units"
  shows "f64_to_string x = decimal (n div 10 ^ 6) @ ''.'' @ replicate (6 - length (decimal (n mod 10 ^ 6))) CHR ''0'' @ decimal (n mod 10 ^ 6)"
proof -
  have "round_quot (n * one_units) one_units = n" by (simp add: round_quot_def Let_def one_units_def)
  with assms show ?thesis by (simp add: f64_to_string_def Let_def)
qed

lemma shown_factors:
  "f64_to_string (num 0) = ''0.000000''" "f64_to_string (num 1) = ''1.000000''" "f64_to_string (num 3) = ''3.000000''"
  "f64_to_string (num 10) = ''10.000000''" "f64_to_string (Double 0) = ''0.000000''"
  "f64_to_string (f64_make False 4602678819172646912) = ''0.500000''"
proof -
  have zeros: "replicate 5 CHR ''0'' = ''00000''" by (simp add: eval_nat_numeral)
  have "f64_to_string (num n) = decimal n @ ''.000000''" if "exact_num n" for n
    using that zeros to_string_units [of "num n" "n * 10 ^ 6"] by (simp add: exact_num_def decimal_eval nat_mult_distrib)
  from this [of 0] this [of 1] this [of 3] this [of 10]
  show "f64_to_string (num 0) = ''0.000000''" "f64_to_string (num 1) = ''1.000000''" "f64_to_string (num 3) = ''3.000000''"
    "f64_to_string (num 10) = ''10.000000''" by (simp_all add: decimal_eval)
  show "f64_to_string (Double 0) = ''0.000000''" using to_string_units [of "Double 0" 0] zeros by (simp add: decimal_eval)
  show "f64_to_string (f64_make False 4602678819172646912) = ''0.500000''"
    using to_string_units [of "f64_make False 4602678819172646912" 500000] half_units
    by (simp add: decimal_eval f64_units_def f64_is_inf_def inf_mag_def)
qed

lemma ex_loc_values:
  "loc_health (ex_loc st gen domain node device) = Health_HEALTHY"
  "loc_freshness (ex_loc st gen domain node device) = Freshness_CURRENT"
  "loc_placement_id (ex_loc st gen domain node device) = worker_placement st (gen_value gen)"
  "loc_provenance (ex_loc st gen ''mem'' node device) = Evidence_MEASURED"
  "loc_retrieval (ex_loc st gen ''mem'' node device) =
     default_estimate\<lparr>re_expected_latency_ms := num 1, re_evidence := Evidence_MEASURED\<rparr>"
  by (simp_all add: ex_loc_def Let_def ex_domain_def)

lemma example_15_prints:
  "example_15 = ''Query 15 (0) -> FOUND_EXACT'' @ nl
     @ ''outcome=FOUND_EXACT selected=300647710721 gen=1 candidates=1 eliminated=0'' @ nl
     @ ''Selected 300647710721 gen 1 at placement 1174405377'' @ nl
     @ ''authority boot 5000 provenance MEASURED'' @ nl
     @ ''  rank[0] 300647710721 gen 1: EXACT_IDENTITY_MATCH=1.000000 LOCALITY=10.000000 ''
     @ ''COMPATIBILITY_QUALITY=0.000000 HEALTH=3.000000 FRESHNESS=3.000000 GENERATION_RECENCY=1.000000 ''
     @ ''RETRIEVAL_LATENCY=0.500000 TRANSFER_BYTES=1.000000 RETRIEVAL_BANDWIDTH=0.000000 RESTORE_COST=1.000000 ''
     @ ''REUSE_COST=1.000000 REPLICA_COUNT=1.000000 POLICY_PREFERENCE=0.000000 ADAPTATION_COST=1.000000 '' @ nl"
proof -
  let ?r = "ex_plain (StrongId 70) (Generation 1)"
  let ?q = "default_query\<lparr>qd_query_id := StrongId 15, qd_state_id := Some (StrongId 70)\<rparr>"
  let ?s = "stored (Generation 1) ?r" and ?l = "ex_loc (StrongId 70) (Generation 1) ''mem'' 1 0"
  let ?e = "snd (ex_register ?r (Generation 1) ex_engine)"
  have s: "stocked [?s] [StrongId 70 \<mapsto> ?s] ?e"
    using stocked_register(1) [OF stocked_engine, of ?r "Generation 1"] by (simp add: is_set_def)
  have ok: "admissible (in_mode False ?e) ?s ?q"
    using s by (simp add: query_simps)
  have best: "best_location ?q (usable_locations ?s ?q) = Some ?l"
    using plain_usable [of ?q ?s] by (simp add: plain_query_def best_location_def)
  have eval: "evaluate_candidate (in_mode False ?e) ?s ?q = accepted_candidate ?s ?q ?l"
    using ok best by (auto elim!: evaluate_admissible)
  have ranked: "ranked_assessments (in_mode False ?e) ?q = [accepted_candidate ?s ?q ?l]"
    and rejected: "rejected_assessments (in_mode False ?e) ?q = []"
    using ok eval by (simp_all add: stocked_ranked [OF s] asked_records_def sort_by_def)
  have rec: "get_record ?e (StrongId 0x4600000001) = Some ?s"
    using s by (simp add: stocked_get record_id_eval)
  have locality: "locality_score ?q ?l = num 10" by (rule ex_locality) (simp_all add: ex_domain_def)
  have factors: "List.map (\<lambda>f. fst (factor_of ?s ?q ?l f)) factor_order = [num 1, num 10, num 0, num 3, num 3, num 1,
      f64_make False 4602678819172646912, num 1, Double 0, num 1, num 1, num 1, num 0, num 1]"
    using inv_factor_values
    by (simp add: factor_order_def factor_of_def Let_def exact_id_def locality ex_loc_values default_estimate_def
        health_score_def freshness_score_def is_set_def unset_gen_def)
  have "exact_match ?s ?q" "same_placement (loc_placement_id ?l) ?l" "rec_provenance ?s = None"
    "env_worker_boot (ex_env (Generation 1) (Generation 1)) = StrongId 5000"
    by (simp_all add: exact_match_def exact_id_def same_placement_def stamp_def redigest_def ex_rec_def default_record_def ex_env_def ex_boot_def)
  note facts = this
  have "worker_placement (StrongId 70) 1 = StrongId 1174405377" by (simp add: worker_placement_def)
  then show ?thesis
    by (simp add: example_15_def split_beta query_def run_query_def in_mode_def [symmetric] Let_def ranked rejected
        decide_def select_def accepted_candidate_def record_id_eval rec fill_selected_def fill_placement_def
        fill_provenance_def explain_query_def factors facts ex_loc_values explain_selected_def explain_ranking_def
        ranking_of_def result_summary_def empty_result_def same_placement_def)
      (simp add: text_simps unset_gen_def std_to_string_def factor_order_def shown_factors shown_factors(2) [simplified] facts(4))
qed

section \<open>A save and a reload\<close>

text \<open>An engine with one record and no log, written out and loaded into another one.\<close>

definition restored :: "StateRecord \<Rightarrow> StateRecord" where
  "restored r = (recovered r)\<lparr>rec_is_historical := False\<rparr>"

lemma single_records:
  assumes "shelved [r] cur e"
  shows "canonical_records e = [r]" and "length (eng_records e) = 1"
proof -
  have ok: "um_ok (eng_records e)" using shelvedD(3) [OF assms] by (simp add: queryable_def)
  have "dom (get_record e) = {rec_record_id r}" by (simp add: shelvedD(6) [OF assms])
  with record_count [OF ok] show len: "length (eng_records e) = 1" by (simp add: get_record_def [abs_def])
  then have "length (canonical_records e) = 1" by (simp add: canonical_records_def)
  moreover have "x \<in> set (canonical_records e) \<longleftrightarrow> x = r" for x
    unfolding canonical_set [OF shelvedD(3) [OF assms]] shelvedD(6) [OF assms] by auto
  ultimately show "canonical_records e = [r]" by (cases "canonical_records e") auto
qed

lemma single_saveable:
  assumes "shelved [r] cur e" and "loadable r" and "eng_invalidations e = []"
  shows "saveable e"
proof -
  have "um_ok (eng_records e)" using shelvedD(3) [OF assms(1)] by (simp add: queryable_def)
  moreover have "rec_record_id x = rid \<and> loadable x" if "get_record e rid = Some x" for rid x
    using that assms(2) by (simp add: shelvedD(6) [OF assms(1)] split: if_splits)
  ultimately show ?thesis
    by (simp add: saveable_def single_records [OF assms(1)] shelvedD(4) [OF assms(1)] assms(3) kMaxRecordCount_def)
qed

lemma shelved_reload:
  assumes s: "shelved [r] [rec_state_id r \<mapsto> r] e" and load: "loadable r" and out: "outstanding r"
    and log: "eng_invalidations e = []"
  shows "shelved [restored r] [rec_state_id r \<mapsto> restored r] (load_finish (loaded_before_finish e e0))"
    and "idx_owned (eng_indexes (load_finish (loaded_before_finish e e0))) (restored r)"
proof -
  let ?e = "load_finish (loaded_before_finish e e0)"
  have sv: "saveable e" by (rule single_saveable [OF s load log])
  have serving: "serving ?e" by (rule serving_load [OF load_saved [OF sv]])
  have one: "get_record e rid = Some x \<longleftrightarrow> rid = rec_record_id r \<and> x = r" for rid x
    using shelvedD(6) [OF s] by auto
  have counted: "counted e st x \<longleftrightarrow> st = rec_state_id r" if "x = r" for st x
    using that out shelvedD(8) [OF s] by (auto simp: counted_def)
  have find: "find_state ?e st = ([rec_state_id r \<mapsto> restored r]) st" for st
    using find_state_loaded [OF sv, of st e0] by (auto simp: one counted restored_def split: option.splits)
  then have "um_find (eng_current ?e) (rec_state_id r) = Some (rec_record_id r)"
    using service_find(3) [OF servingD(1) [OF serving], of "rec_state_id r" "restored r"] by (simp add: restored_def)
  then have "get_record ?e rid = map_of [(rec_record_id (restored r), restored r)] rid" for rid
    using get_record_loaded [OF sv, of e0 rid] by (simp add: shelvedD(6) [OF s] restored_def)
  moreover have "eng_tombstones ?e = []"
    using shelvedD(4) [OF s]
    by (simp add: load_finish_def recompute_current_def loaded_before_finish_def Let_def)
  ultimately show "shelved [restored r] [rec_state_id r \<mapsto> restored r] ?e"
    using serving find by (simp add: shelved_def fun_eq_iff)
  have "eng_records (loaded_before_finish e e0) = [(rec_record_id r, persisted_record r)]"
    by (simp add: loaded_before_finish_def Let_def single_records [OF s] rebuild_history_def put_record_def load_reset_def)
  then have "canonical_records (loaded_before_finish e e0) = [persisted_record r]" by (simp add: canonical_records_def)
  then have "eng_indexes ?e = idx_rebuild [persisted_record r]"
    by (simp add: load_finish_def recompute_current_def Let_def)
  moreover have "idx_owned (idx_rebuild [persisted_record r]) (persisted_record r)"
    by (rule idx_rebuild_owned) simp_all
  moreover have "loc_placement_id (recover_location l) = loc_placement_id l" for l
    by (simp add: recover_location_def Let_def)
  then have "loc_placement_id ` set (rec_locations (restored r)) = loc_placement_id ` set (rec_locations (persisted_record r))"
    by (auto simp: restored_def recovered_def recover_record_def Let_def redigest_def image_image)
  ultimately show "idx_owned (eng_indexes ?e) (restored r)"
    unfolding idx_owned_def by (simp add: restored_def) (metis (no_types, lifting) image_iff)
qed

lemma register_log: "eng_invalidations (snd (register_state rec env e)) = eng_invalidations e"
proof -
  have "eng_invalidations (set_current r e') = eng_invalidations e'" for r e'
    by (simp add: set_current_def set_authority_of_def Let_def split: option.split)
  then show ?thesis
    by (simp add: register_state_def Let_def bump_def same_but_accounting_fields(7) [OF same_but_accounting_count_record])
qed

lemma ex_plain_loadable: "loadable (stored g (ex_plain st gen))"
proof -
  let ?l = "ex_loc st gen ''mem'' 1 0"
  have "StateLocation_valid (persisted_location ?l)"
    using length_std_to_string [of "id_value (worker_placement st (gen_value gen))"]
    by (simp add: StateLocation_valid_def persisted_location_def RetrievalEstimate_valid_def ex_loc_def Let_def ex_domain_def
        ex_backend_def default_location_def default_estimate_def)
  moreover have "length (std_to_string (id_value st)) < 2 ^ 64 - 1"
    using length_std_to_string [of "id_value st"] by simp
  ultimately have "StateRecord_valid (persisted_record (stored g (ex_plain st gen)))"
    by (simp add: StateRecord_valid_def persisted_record_def stamp_def ex_rec_def redigest_def
        compute_semantic_digest_def length_sha256_hex default_record_def ex_kind_def kMaxDependenciesPerRecord_def
        kMaxLocationsPerRecord_def)
  then show ?thesis by (simp add: loadable_def)
qed

lemma example_12_prints:
  fixes d :: Disk
  defines "path \<equiv> ''example_persist.bin''"
  defines "e \<equiv> snd (ex_register (ex_plain (StrongId 50) (Generation 1)) (Generation 1) ex_engine)"
  assumes "writable d path" and "length (save_file e) \<le> disk_room d"
  shows "example_12 d = Inr (''recovered outcome=FOUND_EXACT invariant_ok=1'' @ nl,
    d\<lparr>disk_files := (disk_files d)(path := None, temp_path path := None)\<rparr>)"
proof -
  let ?r = "stored (Generation 1) (ex_plain (StrongId 50) (Generation 1))"
  let ?q = "default_query\<lparr>qd_query_id := StrongId 12, qd_state_id := Some (StrongId 50)\<rparr>"
  let ?re = "load_finish (loaded_before_finish e (new_engine (Generation 1)))"
  have "stocked [?r] [StrongId 50 \<mapsto> ?r] e"
    using stocked_register(1) [OF stocked_engine, of "ex_plain (StrongId 50) (Generation 1)" "Generation 1"]
    by (simp add: is_set_def e_def)
  from stocked_shelved [OF this] have s: "shelved [?r] [rec_state_id ?r \<mapsto> ?r] e" by simp
  have log: "eng_invalidations e = []"
    by (simp add: e_def ex_register_def register_log)
      (simp add: ex_engine_def ensure_worker_def register_worker_def new_engine_def)
  have out: "outstanding ?r" by (simp add: outstanding_def terminal_lifecycle_def)
  note re = shelved_reload [OF s ex_plain_loadable out log, of "new_engine (Generation 1)"]
  have re': "shelved [restored ?r] [StrongId 50 \<mapsto> restored ?r] ?re" using re(1) by simp
  have fields: "rec_state_id (restored r) = rec_state_id r" "rec_kind (restored r) = rec_kind r"
    "rec_lifecycle (restored r) = rec_lifecycle r" "rec_dependencies (restored r) = rec_dependencies r"
    "rec_record_id (restored r) = rec_record_id r" for r
    by (simp_all add: restored_def recovered_def recover_record_def persisted_record_def redigest_def Let_def)
  have loc: "rec_locations (restored ?r) = [recover_location (persisted_location (ex_loc (StrongId 50) (Generation 1) ''mem'' 1 0))]"
    by (simp add: restored_def recovered_def recover_record_def persisted_record_def redigest_def Let_def)
  have usable: "usable (recover_location (persisted_location (ex_loc (StrongId 50) (Generation 1) ''mem'' 1 0)))"
    by (simp add: recover_location_def persisted_location_def Let_def usable_def) (simp add: ex_loc_def Let_def)
  have placed: "well_placed (restored ?r)" by (simp add: well_placed_def loc usable)
  have "eligible_records False ?re ?q [restored ?r] = [restored ?r]"
    using re' placed by (simp add: query_simps plain_admissible fields)
  from single_answer(1) [OF re' this]
  have outcome: "qr_outcome (fst (query ?q ?re)) = QueryOutcome_FOUND_EXACT"
    by (simp add: query_def exact_match_def exact_id_def fields)
  have "current_sound (in_mode False ?re) (restored ?r)"
    by (simp add: current_sound_def outstanding_def terminal_lifecycle_def fields has_usable_location_def loc usable)
      (simp add: recover_location_def persisted_location_def Let_def ex_loc_def ex_domain_def machine_local_def)
  then have "invariant_check (in_mode False ?re) = []"
    using re(2) unfolding invariant_check_iff [OF shelvedD(1) [OF shelved_in_mode [OF re']]]
    by (simp add: single_records(1) [OF shelved_in_mode [OF re']] shelvedD(7) [OF re'])
  then have check: "invariant_check (snd (query ?q ?re)) = []" by (simp add: query_def)
  have save: "save_engine path e d = (None, d\<lparr>disk_files := (disk_files d)(temp_path path := None, path \<mapsto> save_file e)\<rparr>)"
    using save_writable [OF assms(3), of e] assms(4) by simp
  from load_after_save [OF assms(3,4) single_saveable [OF s ex_plain_loadable log], of "new_engine (Generation 1)"]
  have load: "load_engine path (d\<lparr>disk_files := (disk_files d)(temp_path path := None, path \<mapsto> save_file e)\<rparr>)
      (new_engine (Generation 1)) = (None, ?re)" by (simp add: save)
  show ?thesis
    unfolding example_12_def Let_def path_def [symmetric]
    using outcome check save load assms(3)
    by (simp add: split_beta e_def [symmetric] shown_bool_def remove_file_def writable_def c_str_plain fun_upd_twist)
qed

end
