(* ===== verification/Spec2Isabelle.thy ===== *)
theory Spec2Isabelle
  imports Samples StoredTypes ExampleRuns
begin

text \<open>
  State Index: a runtime that knows which reusable states exist, in which generation, where their
  copies are and who may say so. This development models the library under \<^verbatim>\<open>include/stateindex\<close> and
  \<^verbatim>\<open>src\<close> as HOL functions, in the order the code has its parts, and proves what makes each correct.

  \<^bold>\<open>Parts and theories.\<close>
  \<^item> \<^verbatim>\<open>Prelude\<close>: machine words, exceptions as values, \<^verbatim>\<open>std::unordered_map\<close> as an association list
    with distinct keys (iteration follows insertion, one of the orders the standard allows).
  \<^item> \<^verbatim>\<open>Strong\<close> (\<^verbatim>\<open>strong.hpp\<close>), \<^verbatim>\<open>Enums\<close> (\<^verbatim>\<open>enums.hpp\<close>): identifiers and generations with a phantom tag;
    enumerations as datatypes with one more constructor for the values a cast can produce
    without a name.
  \<^item> \<^verbatim>\<open>Bytebuf\<close> (\<^verbatim>\<open>bytebuf.hpp\<close>): a writer is the bytes it appends; a reader is a state monad over a
    span and a position that fails with the code's exception. The locale \<^verbatim>\<open>codec\<close> is the contract
    of every \<^verbatim>\<open>serialize\<close>/\<^verbatim>\<open>deserialize\<close> pair and is interpreted for each of them.
  \<^item> \<^verbatim>\<open>Digest\<close> (\<^verbatim>\<open>digest.hpp\<close>): CRC-32, SHA-256, hexadecimal text.
  \<^item> \<^verbatim>\<open>Cost\<close>, \<^verbatim>\<open>Location\<close>, \<^verbatim>\<open>Refs\<close>, \<^verbatim>\<open>Records\<close>, \<^verbatim>\<open>Invalidation\<close>, \<^verbatim>\<open>Accounting\<close>: the data of the header
    of the same name, field by field, with their codecs and small methods.
  \<^item> \<^verbatim>\<open>Index\<close> (\<^verbatim>\<open>index.hpp\<close>, \<^verbatim>\<open>index.cpp\<close>): the sixteen posting maps and the owner of each placement; the
    locale \<^verbatim>\<open>posting_index\<close> is the contract of \<^verbatim>\<open>add\<close>, \<^verbatim>\<open>rem\<close> and \<^verbatim>\<open>lookup\<close>.
  \<^item> \<^verbatim>\<open>Authority\<close> (\<^verbatim>\<open>authority.hpp\<close>, \<^verbatim>\<open>authority.cpp\<close>): the registry that accepts or refuses a publication.
  \<^item> \<^verbatim>\<open>Engine\<close> (\<^verbatim>\<open>engine.hpp\<close>, \<^verbatim>\<open>engine.cpp\<close>): the engine's state and methods. \<^verbatim>\<open>EngineInv\<close>: its invariant.
    \<^verbatim>\<open>ServiceInv\<close>: the part of it that does not rest on the authority registry. \<^verbatim>\<open>EngineOps\<close>: what each
    mutation does on every branch, and that it keeps the invariant; \<^verbatim>\<open>Serving\<close>: that it keeps that part.
    \<^verbatim>\<open>EngineSteps\<close>: the engine as a transition system; the locale \<^verbatim>\<open>engine_mutation\<close> is the contract
    the five mutations share. \<^verbatim>\<open>EngineAudit\<close>: the self-check, and the ledger of counters.
  \<^item> \<^verbatim>\<open>Binary64\<close>: the double arithmetic of the planner on bit patterns, rounding to nearest, ties to even.
    \<^verbatim>\<open>Query\<close> (\<^verbatim>\<open>query.hpp\<close>), \<^verbatim>\<open>Result\<close> (\<^verbatim>\<open>result.hpp\<close>): descriptors and results with their codecs.
  \<^item> \<^verbatim>\<open>Planner\<close> (the query half of \<^verbatim>\<open>engine.cpp\<close>): \<^verbatim>\<open>evaluate_candidate\<close> as the list of its early returns
    in order, the named factors, \<^verbatim>\<open>candidate_less\<close>, \<^verbatim>\<open>run_query\<close>. \<^verbatim>\<open>PlannerFacts\<close>: which records pass
    (\<^verbatim>\<open>admissible\<close>), that the index-driven candidates are those of a scan, and the locale
    \<^verbatim>\<open>strict_weak_order\<close>, of which \<^verbatim>\<open>candidate_less\<close> is an interpretation where no estimate holds a NaN.
    \<^verbatim>\<open>QueryFacts\<close>: what a result says about them. \<^verbatim>\<open>Explain\<close>: the eight \<^verbatim>\<open>explain_\<close> methods.
  \<^item> \<^verbatim>\<open>Persistence\<close> (\<^verbatim>\<open>save\<close> and \<^verbatim>\<open>load\<close> of \<^verbatim>\<open>engine.cpp\<close>): the image of an engine, the checks on it, and
    the recovery pass. A loader is a reader that also updates the engine, so that a failure half
    way leaves what the code leaves. \<^verbatim>\<open>Lifetimes\<close>: engines with restarts, whatever files they load,
    and the current records any load elects.
    \<^verbatim>\<open>Disk\<close>: the files around them, with the temporary file, the
    rename, and a disk that may be full.
  \<^item> \<^verbatim>\<open>Protocol\<close> (\<^verbatim>\<open>protocol.hpp\<close>): frames. \<^verbatim>\<open>Msgs\<close> (\<^verbatim>\<open>msgs.hpp\<close>): their payloads. \<^verbatim>\<open>Transport\<close> (the framing of
    \<^verbatim>\<open>tcp.hpp\<close>): the operating system's \<^verbatim>\<open>recv\<close> and \<^verbatim>\<open>send\<close> are parameters; the locale \<^verbatim>\<open>ending_stream\<close>
    says only that what is still to arrive is finite, while any call may fail; \<^verbatim>\<open>stream_socket\<close>
    and \<^verbatim>\<open>reliable_socket\<close> are the contract of a socket that does not fail, interpreted by a socket
    given by the runs in which its bytes arrive and leave.
  \<^item> \<^verbatim>\<open>Coordinator\<close> (\<^verbatim>\<open>coordinator_main.cpp\<close>): the switch over frames, its error handler, and the loops over
    frames and connections; \<^verbatim>\<open>Sessions\<close>: the loop refines a conversation of frames and replies, ends,
    and steps the engine, loads included as long as none leaves it half loaded. \<^verbatim>\<open>Args\<close>, \<^verbatim>\<open>Defaults\<close>: the text functions and default values the programs
    use. \<^verbatim>\<open>Worker\<close> (\<^verbatim>\<open>worker_main.cpp\<close>), \<^verbatim>\<open>Cli\<close> (\<^verbatim>\<open>cli_main.cpp\<close>): the records they build, their commands
    and their \<^verbatim>\<open>main\<close>. \<^verbatim>\<open>Programs\<close>: that a script line is the engine call it stands for, the bounds of
    the identifiers they make up, and what the command line can change.
  \<^item> \<^verbatim>\<open>Typing\<close>: what a \<^verbatim>\<open>deserialize\<close> returns, from whatever bytes, is a value its \<^verbatim>\<open>serialize\<close> writes and
    reads back; the locale \<^verbatim>\<open>typed_codec\<close> adds this to \<^verbatim>\<open>codec\<close>. \<^verbatim>\<open>StoredTypes\<close>: hence everything the
    engine of a coordinator stores is well typed, and its image loads again within the loader's bounds.
  \<^item> \<^verbatim>\<open>Sockets\<close> (the rest of \<^verbatim>\<open>tcp.hpp\<close>, for POSIX): the calls that open, accept and close connections, over
    a record of the operating system's calls, and the \<^verbatim>\<open>main\<close> functions as processes on it; the locale
    \<^verbatim>\<open>socket_simulation\<close> moves what a process does on one socket to another that behaves alike.
    \<^verbatim>\<open>Processes\<close>: the locales \<^verbatim>\<open>socket_api\<close> and \<^verbatim>\<open>network\<close> are what POSIX promises of descriptors and of the
    connections behind them, in which \<^verbatim>\<open>accept\<close>, \<^verbatim>\<open>recv\<close> and \<^verbatim>\<open>send\<close> may fail at any call, interpreted by a
    machine with a table of descriptors; the coordinator's process refines its loop over connections.
  \<^item> \<^verbatim>\<open>Examples\<close> (\<^verbatim>\<open>examples\<close>): the example programs as the text they print. \<^verbatim>\<open>ExampleRuns\<close>: engines described by
    their records and current records, the rules by which calls change the description, and the
    text of each program; \<^verbatim>\<open>12_persistence_recovery.cpp\<close> also writes and removes its file.
  \<^item> \<^verbatim>\<open>Samples\<close>: concrete engines, records, envelopes, connections and a machine on which the theorems
    below are instantiated.

  \<^bold>\<open>State and operations.\<close> A method of the engine is a function from the engine to its result and the
  engine it leaves. The code holds one lock in every public mutating method, so a run is a sequence
  of such calls: \<^verbatim>\<open>engine_step\<close> has one rule per method, queries included, since they set the mode of
  the planner, and \<^verbatim>\<open>engine_reachable\<close> closes it under runs from a new engine. A coordinator at work
  takes these steps, one per frame. \<^verbatim>\<open>load\<close> is not a step: it does not restore the authority registry's
  floors and current authorities, so it does not keep \<open>engine_inv\<close>. \<open>engine_lived\<close> adds to the steps every
  load that succeeds, of any file; what holds of these engines is \<open>serving\<close>, the invariant less what it
  says of the registry, and the theorems on queries, on the effects of the mutations and on the
  self-check are stated for them. A load that fails half way leaves an engine that is not one of them.

  \<^bold>\<open>Bounds.\<close> Integers have the width of the code and wrap. Counts read from bytes are at most
  10^6 records, 4096 locations and dependencies of a record, and 64 MiB of a frame; they bound the
  only loops whose length the input decides, so no fuel is needed anywhere; the padding loop of
  SHA-256, the logarithm loop of the size buckets and the loops of \<^verbatim>\<open>recv_exact\<close> and \<^verbatim>\<open>send_all\<close> have a
  measure. The loop over the frames of a connection is a \<^verbatim>\<open>partial_function\<close>, and proved to end for
  every stream that does, since a frame takes at least 24 bytes. Undefined behaviour of the code,
  such as reading a script word that is not there, is the value \<^verbatim>\<open>None\<close>.

  \<^bold>\<open>Not modelled.\<close> The Windows branches of the socket calls; the log lines of the coordinator; the
  mutex (methods are atomic); \<^verbatim>\<open>std::hash\<close>; running out of memory. The order in
  which an unordered map is iterated is the one of insertion. \<^verbatim>\<open>std::sort\<close> is a stable sort where the
  code's comparison leaves ties. The bits of a NaN that an operation makes are left open by C++; the
  model takes one choice. The tests and the benchmark program call the library and hold no logic
  of their own.
\<close>

section \<open>The engine\<close>

text \<open>C1. Every engine that a run of the public mutating methods can reach from a new one is
  well formed: records are filed under their own id with a matching digest and a set generation;
  the current map points at records of the right state that no tombstone covers, and agrees with
  the authority registry; the history of a state lists exactly its records; the registry's floors
  are those of the tombstones, and no record below a floor is outstanding; the indexes know every
  record under all of its keys, and exactly under the keys that never change; and a state with an
  outstanding record has a current record, which no outstanding one is newer than. The current
  record itself need not be outstanding.\<close>

theorem reachable_engine_well_formed:
  "engine_reachable e \<Longrightarrow> engine_inv e"
  by (rule reachable_inv)

theorem reachable_engine_well_formed_witness:
  "engine_inv sample_published \<and> find_state sample_published (StrongId 1) = Some sample_stamped"
  using reachable_engine_well_formed [OF sample_published_reachable] sample_find by blast

text \<open>C2. A tombstone is final. Once a tombstone with floor \<open>f\<close> has been
  accepted for a state, no sequence of registrations, location updates, invalidations, tombstones,
  queries and changes of workers and epoch, by any worker under any epoch, makes a record of that
  state with a generation up to \<open>f\<close> current again. A tombstone with its flag
  \<open>current\<close> unset leaves the covered current record in place; that one may stay, but
  no other comes back. A load is not among the calls: it replaces the tombstones by those of its
  file.\<close>

theorem tombstoned_generation_stays_out:
  assumes "engine_reachable e" and "mvd_verdict (fst (tombstone t env e)) = MutationVerdict_ACCEPTED"
    and "engine_step\<^sup>*\<^sup>* (snd (tombstone t env e)) e'" and "find_state e' (tomb_state_id t) = Some r"
  shows "tomb_floor_generation t < rec_state_generation r \<or>
    \<not> tomb_current t \<and> map_option rec_state_generation (find_state e (tomb_state_id t)) = Some (rec_state_generation r)"
proof -
  let ?left = "{g. \<not> tomb_current t \<and> current_gen e (tomb_state_id t) = Some g}"
  have inv: "engine_inv e" by (rule reachable_inv [OF assms(1)])
  have "may_tombstone t env e" using assms(2) tombstone_rejected(1) by blast
  from fenced_above_tombstone [OF inv this] fenced_above_steps [OF assms(3) engine_inv_tombstone [OF inv]]
  have "fenced_above ?left (tomb_floor_generation t) (tomb_state_id t) e'" by blast
  with assms(4) show ?thesis by (auto simp: fenced_above_def current_gen_def)
qed

theorem tombstoned_generation_stays_out_witness:
  "\<exists>r. find_state sample_succeeded (StrongId 1) = Some r \<and> Generation 6 < rec_state_generation r"
proof -
  obtain r where r: "find_state sample_succeeded (tomb_state_id sample_tombstone) = Some r"
    using sample_succeeded_find by (auto simp: sample_tombstone_def)
  have "engine_step\<^sup>*\<^sup>* (snd (tombstone sample_tombstone sample_env sample_published)) sample_succeeded"
    unfolding sample_succeeded_def sample_entombed_def by (rule r_into_rtranclp) (rule step_register_state)
  from tombstoned_generation_stays_out [OF sample_published_reachable tombstone_accepted(1) [OF sample_may_tombstone] this r]
  have "Generation 6 < rec_state_generation r" by (simp add: sample_tombstone_def)
  with r show ?thesis by (auto simp: sample_tombstone_def)
qed

text \<open>C3. An accepted invalidation leaves the state without a current record and every other
  state with the one it had; it rewrites exactly the records of the state up to its bound, to
  INVALIDATED, superseded and tombstoned ones included, although the comment on InvalidationRecord
  and the README say that it rewrites no history; and this also after restarts. The code then looks
  for a newer generation to promote: since the bound is at least the current generation, and no
  outstanding record is newer than the current one, there is never any.\<close>

theorem accepted_invalidation_clears_current:
  assumes "engine_lived e" and "mvd_verdict (fst (invalidate i env e)) = MutationVerdict_ACCEPTED"
  shows "find_state (snd (invalidate i env e)) (inv_state_id i) = None \<and>
    (st = inv_state_id i \<or> find_state (snd (invalidate i env e)) st = find_state e st) \<and>
    get_record (snd (invalidate i env e)) rid =
      map_option (invalidated (inv_state_id i) (inv_bound_generation i)) (get_record e rid)"
proof -
  have inv: "serving e" by (rule lived_serving [OF assms(1)])
  have ok: "may_invalidate i env e" using assms(2) invalidate_rejected(1) by blast
  have "invalidated (inv_state_id i) (inv_bound_generation i) r = r"
    if "find_state e st = Some r" "st \<noteq> inv_state_id i" for r
    using service_find(2) [OF servingD(1) [OF inv] that(1)] that(2) by (simp add: invalidated_def)
  then have "find_state (snd (invalidate i env e)) st = find_state e st" if "st \<noteq> inv_state_id i"
    using that by (cases "find_state e st") (simp_all add: find_state_invalidate [OF inv ok])
  with get_record_invalidate [OF inv ok] show ?thesis
    by (auto simp: find_state_invalidate [OF inv ok])
qed

theorem accepted_invalidation_clears_current_witness:
  "find_state (snd (invalidate sample_invalidation sample_env sample_published)) (StrongId 1) = None \<and>
   find_state sample_published (StrongId 1) = Some sample_stamped"
  using accepted_invalidation_clears_current [OF sample_published_lived
      invalidate_accepted(1) [OF sample_published_inv(3) sample_may_invalidate]] sample_find
  by (simp add: sample_invalidation_def)


text \<open>C5. An accepted registration files the record, stamped with the envelope's epoch and
  boot, under its id. It becomes the current record of its state if the state has none or an older
  one, and that older one becomes SUPERSEDED and historical, with a recomputed digest; where the
  current record is not older it stays. Every other record, and the current record of every other
  state, is kept as it is.\<close>

theorem accepted_registration_effect:
  assumes "engine_lived e" and "mvd_verdict (fst (register_state rec env e)) = MutationVerdict_ACCEPTED"
    and "e' = snd (register_state rec env e)"
  shows "find_state e' st =
      (if st = rec_state_id rec \<and> (case find_state e st of None \<Rightarrow> True | Some c \<Rightarrow> rec_state_generation c < rec_state_generation rec)
       then Some (stamp env rec) else find_state e st) \<and>
    get_record e' rid = (if rid = rec_record_id rec then Some (stamp env rec)
      else map_option (\<lambda>r. if find_state e (rec_state_id rec) = Some r \<and> rec_state_generation r < rec_state_generation rec
        then retire Lifecycle_SUPERSEDED r else r) (get_record e rid))"
proof -
  note inv = lived_service [OF assms(1)]
  have ok: "may_register rec env e" using assms(2) register_state_rejected by blast
  have "(overtakes rec e \<and> find_state e (rec_state_id rec) = Some r) =
      (find_state e (rec_state_id rec) = Some r \<and> rec_state_generation r < rec_state_generation rec)" for r
    by (auto simp: overtakes_def)
  moreover have "(st = rec_state_id rec \<and> overtakes rec e) = (st = rec_state_id rec \<and>
      (case find_state e st of None \<Rightarrow> True | Some c \<Rightarrow> rec_state_generation c < rec_state_generation rec))"
    by (auto simp: overtakes_def split: option.split)
  ultimately show ?thesis unfolding assms(3) register_views [OF inv ok] by simp
qed

theorem accepted_registration_effect_witness:
  "find_state (snd (register_state sample_record sample_env sample_joined)) (StrongId 1) = Some (stamp sample_env sample_record)"
  using accepted_registration_effect [OF reachable_lived [OF sample_joined_reachable]
      register_state_accepted [OF sample_joined_inv(2) sample_may_register, THEN conjunct1] refl, of "StrongId 1" "StrongId 10"]
  by (simp add: sample_record_def find_state_def sample_joined_fields)



text \<open>C7. Between two engines one method call apart, whatever restarts lie behind them, a
  state that is current in both has not gone back to an older generation.\<close>

theorem current_generation_never_regresses:
  assumes "engine_lived e" and "engine_step e e'"
    and "find_state e st = Some r" and "find_state e' st = Some r'"
  shows "rec_state_generation r \<le> rec_state_generation r'"
  using step_serving(2) [OF assms(2) lived_serving [OF assms(1)]] assms(3,4)
  by (auto simp: never_regresses_def current_gen_def)

theorem current_generation_never_regresses_witness:
  "\<exists>r r'. find_state sample_published (StrongId 1) = Some r \<and>
     find_state (snd (add_location (StrongId 1) sample_location sample_env sample_published)) (StrongId 1) = Some r' \<and>
     rec_state_generation r \<le> rec_state_generation r'"
proof -
  obtain r' where r': "find_state (snd (add_location (StrongId 1) sample_location sample_env sample_published))
      (StrongId 1) = Some r'"
    using current_gen_add_location [OF sample_published_inv(2), of "StrongId 1" sample_location sample_env "StrongId 1"]
      sample_find
    by (auto simp: current_gen_def)
  from current_generation_never_regresses [OF sample_published_lived step_add_location sample_find this]
  show ?thesis using r' sample_find by blast
qed

text \<open>C8. A mutation under a stale epoch or a boot that is not live is refused with
  STALE_EPOCH or STALE_BOOT, whichever method it calls, and leaves the whole engine as it was,
  counters apart.\<close>

theorem stale_envelope_changes_nothing:
  assumes "env_coordinator_epoch env \<noteq> auth_epoch (eng_authority e) \<or> \<not> is_live (eng_authority e) (env_worker_boot env)"
  shows "\<forall>ve \<in> {register_state rec env e, add_location st loc env e, remove_location st p env e,
        invalidate i env e, tombstone t env e}.
      mvd_verdict (fst ve) \<in> {MutationVerdict_REJECTED_STALE_EPOCH, MutationVerdict_REJECTED_STALE_BOOT} \<and>
      (snd ve)\<lparr>eng_accounting := eng_accounting e\<rparr> = e"
proof -
  have s: "stale_envelope env e" using assms by (simp add: stale_envelope_def)
  show ?thesis
    using reg.fenced [OF s] addloc.fenced [OF s, of "(st, loc)"] remloc.fenced [OF s, of "(st, p)"]
      inval.fenced [OF s] tomb.fenced [OF s] reg.fenced_no_effect [OF s]
      addloc.fenced_no_effect [OF s, of "(st, loc)"] remloc.fenced_no_effect [OF s, of "(st, p)"]
      inval.fenced_no_effect [OF s] tomb.fenced_no_effect [OF s]
    by (simp add: same_but_accounting_undo)
qed

theorem stale_envelope_changes_nothing_witness:
  "mvd_verdict (fst (register_state sample_record sample_env (new_engine (Generation 1))))
     \<in> {MutationVerdict_REJECTED_STALE_EPOCH, MutationVerdict_REJECTED_STALE_BOOT}"
  using stale_envelope_changes_nothing [of sample_env "new_engine (Generation 1)" sample_record]
  by (simp add: sample_env_def new_engine_def new_authority_def is_live_def)

text \<open>C9. Any refused mutation, for whatever reason, leaves the engine as it was but for the
  accounting.\<close>

theorem refused_mutation_changes_only_counters:
  assumes "ve \<in> {register_state rec env e, add_location st loc env e, remove_location st p env e,
      invalidate i env e, tombstone t env e}"
    and "mvd_verdict (fst ve) \<noteq> MutationVerdict_ACCEPTED"
  shows "(snd ve)\<lparr>eng_accounting := eng_accounting e\<rparr> = e"
  using assms reg.rejected [of rec env e] addloc.rejected [of "(st, loc)" env e]
    remloc.rejected [of "(st, p)" env e] inval.rejected [of i env e] tomb.rejected [of t env e]
  by (auto intro: same_but_accounting_undo)

theorem refused_mutation_changes_only_counters_witness:
  "(snd (register_state sample_record sample_env sample_published))
     \<lparr>eng_accounting := eng_accounting sample_published\<rparr> = sample_published"
proof (rule refused_mutation_changes_only_counters)
  show "register_state sample_record sample_env sample_published \<in>
      {register_state sample_record sample_env sample_published,
       add_location (StrongId 0) sample_location sample_env sample_published,
       remove_location (StrongId 0) (StrongId 0) sample_env sample_published,
       invalidate sample_invalidation sample_env sample_published,
       tombstone sample_tombstone sample_env sample_published}" by simp
  have "\<not> may_register sample_record sample_env sample_published"
    by (simp add: may_register_def get_record_def sample_published_fields)
  then show "mvd_verdict (fst (register_state sample_record sample_env sample_published)) \<noteq> MutationVerdict_ACCEPTED"
    using register_state_rejected by blast
qed

text \<open>C10. An accepted tombstone rewrites exactly the records of its state up to its floor
  that are not TOMBSTONED already: to TOMBSTONED, historical, with a recomputed digest. Every other
  record is kept as it is, and the registry's floor for the state is the tombstone's.\<close>

theorem accepted_tombstone_effect:
  assumes "engine_lived e" and "mvd_verdict (fst (tombstone t env e)) = MutationVerdict_ACCEPTED"
  shows "get_record (snd (tombstone t env e)) rid =
      (case get_record e rid of None \<Rightarrow> None
       | Some r \<Rightarrow> Some (if rec_state_id r = tomb_state_id t \<and>
             rec_state_generation r \<le> tomb_floor_generation t \<and> rec_lifecycle r \<noteq> Lifecycle_TOMBSTONED
           then retire Lifecycle_TOMBSTONED r else r)) \<and>
    tombstone_floor (eng_authority (snd (tombstone t env e))) (tomb_state_id t) = Some (tomb_floor_generation t)"
proof -
  note inv = lived_service [OF assms(1)]
  have ok: "may_tombstone t env e" using assms(2) tombstone_rejected(1) by blast
  show ?thesis
    unfolding get_record_tombstone [OF inv ok]
    by (auto simp: entombed_def tombstone_accepted(2) [OF ok] drop_tombstoned_current_def clear_current_def
        tombstone_floor_def clear_current_authority_def set_tombstone_floor_def split: option.split)
qed

theorem accepted_tombstone_effect_witness:
  "get_record sample_entombed (StrongId 10) = Some (retire Lifecycle_TOMBSTONED sample_stamped)"
  using accepted_tombstone_effect [OF sample_published_lived tombstone_accepted(1) [OF sample_may_tombstone],
      of "StrongId 10"]
  by (simp add: sample_entombed_def get_record_def sample_published_fields)
    (simp add: sample_tombstone_def)

text \<open>C11. An accepted location update shows in the state's locations: after an accepted
  \<open>add_location\<close> the state has the new location, stamped, in the place of every old
  entry of its placement, or at the end where no entry has that placement; if the envelope names a
  location generation, the new one is above those it replaces; after an accepted
  \<open>remove_location\<close> it has all but the entries of the placement. No other state's
  locations change.\<close>

theorem accepted_location_update_effect:
  assumes "engine_lived e"
  shows "(mvd_verdict (fst (add_location st loc env e)) = MutationVerdict_ACCEPTED \<longrightarrow>
      locations_of (snd (add_location st loc env e)) st' =
        (if st' = st
         then List.map (\<lambda>l. if loc_placement_id l = loc_placement_id loc then stamp_location env loc else l) (locations_of e st) @
           (if loc_placement_id loc \<in> loc_placement_id ` set (locations_of e st) then [] else [stamp_location env loc])
         else locations_of e st') \<and>
      (is_set (env_location_generation env) \<longrightarrow>
        (\<forall>l\<in>set (locations_of e st). loc_placement_id l = loc_placement_id loc \<longrightarrow>
          loc_location_generation l < loc_location_generation loc))) \<and>
    (mvd_verdict (fst (remove_location st p env e)) = MutationVerdict_ACCEPTED \<longrightarrow>
      locations_of (snd (remove_location st p env e)) st' =
        (if st' = st then filter (\<lambda>l. loc_placement_id l \<noteq> p) (locations_of e st) else locations_of e st'))"
proof -
  note srv = lived_service [OF assms]
  have *: "locations_of e st = rec_locations r" if "find_state e st = Some r" for r
    using that by (simp add: locations_of_def)
  have absent: "filter (\<lambda>l. loc_placement_id l \<noteq> p) ls = ls" if "\<not> list_ex (same_placement p) ls" for ls
    using that by (auto simp: same_placement_def list_ex_iff filter_id_conv)
  have put: "put_location (stamp_location env loc) ls =
      List.map (\<lambda>l. if loc_placement_id l = loc_placement_id loc then stamp_location env loc else l) ls @
        (if loc_placement_id loc \<in> loc_placement_id ` set ls then [] else [stamp_location env loc])" for ls
    by (auto simp: put_location_def stamp_location_def same_placement_def list_ex_iff Let_def image_iff intro!: map_idI [symmetric])
  have placed: "loc_placement_id (stamp_location env loc) = loc_placement_id loc"
    by (simp add: stamp_location_def)
  show ?thesis
    by (auto simp: add_location_def remove_location_def Let_def same_placement_def * absent put placed
        list_ex_iff locations_relocate [OF srv] same_but_accounting_count_put
        dest: guard_authority_verdict split: option.splits if_splits)
qed

theorem accepted_location_update_effect_witness:
  "locations_of (snd (remove_location (StrongId 1) (StrongId 20) sample_env sample_published)) (StrongId 1) = []"
proof -
  have "mvd_verdict (fst (remove_location (StrongId 1) (StrongId 20) sample_env sample_published)) = MutationVerdict_ACCEPTED"
    by (simp add: remove_location_def sample_guard sample_find Let_def verdict_detail_def)
  with accepted_location_update_effect [OF sample_published_lived, of "StrongId 1" _ sample_env "StrongId 1" "StrongId 20"]
  show ?thesis by (simp add: locations_of_def sample_find) (simp add: sample_location_def)
qed

text \<open>C12. What no restart can undo. Let an engine run through any calls and any loads the
  loader accepts, of files it did not write included: every record lies under its own id with its
  digest right, the history of a state lists exactly its records, each once, every record is posted
  under each of its keys and nothing but records is posted, and the current record of a state
  belongs to it and no tombstone covers it. Where a state has a record that is neither retired nor
  covered by a tombstone, it has a current record at least as new, which may itself be retired.\<close>

theorem restarted_engine_well_formed:
  assumes "engine_lived e"
  shows "(\<forall>rid r. get_record e rid = Some r \<longrightarrow> rec_record_id r = rid \<and> digest_ok r \<and>
      (\<forall>k\<in>set (record_keys r). rid \<in> posted (eng_indexes e) k)) \<and>
    (\<forall>k. posted (eng_indexes e) k \<subseteq> {rid. get_record e rid \<noteq> None}) \<and>
    (\<forall>st. distinct (history_ids e st) \<and>
      set (history_ids e st) = {rid. \<exists>r. get_record e rid = Some r \<and> rec_state_id r = st}) \<and>
    (\<forall>st r. find_state e st = Some r \<longrightarrow>
      rec_state_id r = st \<and> \<not> is_tombstoned e st (rec_state_generation r)) \<and>
    (\<forall>rid r. get_record e rid = Some r \<and> counted e (rec_state_id r) r \<longrightarrow>
      (\<exists>c. find_state e (rec_state_id r) = Some c \<and> rec_state_generation r \<le> rec_state_generation c))"
proof -
  note inv = lived_service [OF assms]
  have "ids_under e k \<subseteq> posted (eng_indexes e) k \<and> posted (eng_indexes e) k \<subseteq> {rid. get_record e rid \<noteq> None}" for k
    using inv by (simp add: service_inv_def queryable_def index_inv_def)
  moreover have "rec_state_id r = st \<and> \<not> is_tombstoned e st (rec_state_generation r)" if "find_state e st = Some r" for st r
    using service_find [OF inv that] by blast
  moreover note servingD(2) [OF lived_serving [OF assms], unfolded newest_inv_def]
  ultimately show ?thesis
    using inv unfolding service_inv_def queryable_def history_inv_def ids_under_def by blast
qed

theorem restarted_engine_well_formed_witness:
  "\<exists>e'. load_file (save_file sample_published) sample_joined = (None, e') \<and>
     set (history_ids e' (StrongId 1)) = {StrongId 10}"
proof -
  obtain e' where e': "load_file (save_file sample_published) sample_joined = (None, e')" "engine_lived e'"
    "\<And>rid. (\<exists>r. get_record e' rid = Some r \<and> rec_state_id r = StrongId 1) \<longleftrightarrow> rid = StrongId 10"
    using sample_reloaded by blast
  with restarted_engine_well_formed [OF e'(2)] show ?thesis by simp
qed

section \<open>Queries\<close>

text \<open>C13. A query ranks exactly the admissible records, whatever calls and restarts went
  before, as long as no stored estimate holds a NaN (with one, the comparison is none that
  \<^verbatim>\<open>std::sort\<close> accepts): the ranking consists of the assessments of the
  records of the asked state, else of the asked kind, else of all, that pass every filter, each
  once. Each entry shows the fourteen named factors; of two entries the one with the greater value
  of the first factor in which they differ comes first, then the greater generation, then the
  smaller id. No other list of these entries is in that order, so that any sorting algorithm
  produces this very ranking.\<close>

theorem ranking_lists_admissible:
  assumes "engine_lived e" and "\<forall>rid rec. get_record e rid = Some rec \<longrightarrow> ordinary_record rec"
  shows "\<exists>cs. list_all2 (\<lambda>r c. cr_record_id r = ca_record_id c \<and> cr_generation r = ca_generation c \<and>
        cr_best_placement r = ca_best_placement c \<and>
        cr_factors r = zip
           [RankingFactor_EXACT_IDENTITY_MATCH, RankingFactor_LOCALITY, RankingFactor_COMPATIBILITY_QUALITY,
            RankingFactor_HEALTH, RankingFactor_FRESHNESS, RankingFactor_GENERATION_RECENCY,
            RankingFactor_RETRIEVAL_LATENCY, RankingFactor_TRANSFER_BYTES, RankingFactor_RETRIEVAL_BANDWIDTH,
            RankingFactor_RESTORE_COST, RankingFactor_REUSE_COST, RankingFactor_REPLICA_COUNT,
            RankingFactor_POLICY_PREFERENCE, RankingFactor_ADAPTATION_COST]
          (ca_factors c))
      (qr_ranked_candidates (fst (run_query q h e))) cs \<and>
    distinct (List.map ca_record_id cs) \<and> (\<forall>c\<in>set cs. length (ca_factors c) = 14) \<and>
    set cs = {evaluate_candidate (in_mode h e) rec q | rid rec.
      rid \<in> scan_ids e q \<and> get_record e rid = Some rec \<and> admissible (in_mode h e) rec q} \<and>
    (let before = (\<lambda>a b.
        (\<exists>i<14. (\<forall>j<i. f64_eq (ca_factors a ! j) (ca_factors b ! j)) \<and> f64_less (ca_factors b ! i) (ca_factors a ! i)) \<or>
        (\<forall>j<14. f64_eq (ca_factors a ! j) (ca_factors b ! j)) \<and>
          (ca_generation b < ca_generation a \<or>
           ca_generation a = ca_generation b \<and> ca_record_id a < ca_record_id b))
     in sorted_wrt before cs \<and> (\<forall>ds. set ds = set cs \<and> sorted_wrt before ds \<longrightarrow> ds = cs))"
proof -
  let ?cs = "ranked_assessments (in_mode h e) q"
  note inv = lived_queryable [OF assms(1)]
  have inv': "queryable (in_mode h e)" by (rule queryable_in_mode [OF inv])
  have ord: "ordinary_record rec" if "get_record (in_mode h e) rid = Some rec" for rid rec
    using assms(2) that by auto
  have n: "length (ca_factors c) = 14" if "c \<in> set ?cs" for c
    using ranked_factors [OF inv that] by (simp add: factor_order_def)
  note before = candidate_less_iff [OF n n]
  have sorted: "sorted_wrt candidate_less ?cs" by (rule ranked_sorted [OF inv' ord])
  have "set ?cs \<subseteq> {c. ordinary c}"
    unfolding ranked_set [OF inv'] using ord by (auto intro: ordinary_evaluate)
  then have unique: "ds = ?cs" if "set ds = set ?cs" "sorted_wrt candidate_less ds" for ds
    using candidate.sorted_arrangement_unique [of ds ?cs] that sorted by simp
  show ?thesis
    unfolding Let_def
  proof (rule exI [of _ ?cs], intro conjI allI impI ballI)
    fix ds assume "set ds = set ?cs \<and> sorted_wrt (\<lambda>a b.
        (\<exists>i<14. (\<forall>j<i. f64_eq (ca_factors a ! j) (ca_factors b ! j)) \<and> f64_less (ca_factors b ! i) (ca_factors a ! i)) \<or>
        (\<forall>j<14. f64_eq (ca_factors a ! j) (ca_factors b ! j)) \<and>
          (ca_generation b < ca_generation a \<or>
           ca_generation a = ca_generation b \<and> ca_record_id a < ca_record_id b)) ds"
    then have ds: "set ds = set ?cs" "sorted_wrt candidate_less ds"
      by (auto elim!: sorted_wrt_mono_rel [rotated] simp: before)
    from unique [OF ds] show "ds = ?cs" .
  qed (use ranking_entries [of q h e, unfolded factor_order_def] n ranked_set_mode [OF inv] ranked_rejected_ids(1) [OF inv', of q]
      sorted_wrt_mono_rel [OF _ sorted] before in \<open>auto\<close>)
qed

theorem ranking_lists_admissible_witness:
  "\<exists>cs :: CandidateAssessment list. distinct (List.map ca_record_id cs) \<and> (\<forall>c\<in>set cs. length (ca_factors c) = 14) \<and>
    length (qr_ranked_candidates (fst (run_query sample_query False sample_published))) = length cs"
  using ranking_lists_admissible [OF sample_published_lived sample_ordinary, of sample_query False]
  by - (elim exE conjE, intro exI conjI, assumption+, rule list_all2_lengthD, assumption)

text \<open>C14. Whatever a query selects, in either mode and also after restarts, can serve: the
  selected record exists and its selected generation is its own; no tombstone covers it, it is
  neither invalidated nor tombstoned, its required dependencies are satisfied, and the selected
  placement is one of its usable locations.\<close>

theorem selected_record_serves:
  assumes "engine_lived e" and "qr_selected_record_id (fst (run_query q h e)) = Some rid"
  shows "\<exists>rec best. get_record e rid = Some rec \<and>
    qr_selected_generation (fst (run_query q h e)) = Some (rec_state_generation rec) \<and>
    \<not> is_tombstoned e (rec_state_id rec) (rec_state_generation rec) \<and>
    rec_lifecycle rec \<notin> {Lifecycle_INVALIDATED, Lifecycle_TOMBSTONED} \<and> dep_satisfied e rec \<and>
    best \<in> set (rec_locations rec) \<and> usable best \<and>
    qr_selected_placement (fst (run_query q h e)) = Some (loc_placement_id best)"
proof -
  obtain rec best where "get_record e rid = Some rec" "admissible (in_mode h e) rec q"
    "best \<in> set (rec_locations rec)" "usable best"
    "qr_selected_generation (fst (run_query q h e)) = Some (rec_state_generation rec)"
    "qr_selected_placement (fst (run_query q h e)) = Some (loc_placement_id best)"
    by (rule selected_record [OF lived_queryable [OF assms(1)] assms(2)])
  then show ?thesis by (auto simp: admissible_def standing_def)
qed

theorem selected_record_serves_witness:
  "\<exists>rec best. get_record sample_published (StrongId 10) = Some rec \<and> best \<in> set (rec_locations rec) \<and> usable best \<and>
    qr_selected_placement (fst (run_query sample_query False sample_published)) = Some (loc_placement_id best)"
  using selected_record_serves [OF sample_published_lived sample_selected [of False]] by blast

text \<open>C15. A query for a named state under the rule CURRENT, which is the default, selects
  the current record of that state and nothing else, and never reports several candidates. This
  holds with wildcard_state_id set as well, although the flag is documented to match any state.\<close>

theorem current_query_selects_current:
  assumes "engine_lived e" and "qd_state_id q = Some st" and "qd_generation_rule q = GenerationRule_CURRENT"
  shows "qr_selected_record_id (fst (query q e)) \<in> {None, um_find (eng_current e) st} \<and>
    length (qr_ranked_candidates (fst (query q e))) \<le> 1 \<and>
    qr_outcome (fst (query q e)) \<noteq> QueryOutcome_FOUND_MULTIPLE"
proof -
  let ?e = "in_mode False e" and ?cs = "ranked_assessments (in_mode False e) q"
  have inv: "queryable e" by (rule lived_queryable [OF assms(1)])
  have mem: "um_find (eng_current e) st = Some (ca_record_id c)" if "c \<in> set ?cs" for c
    using that inv assms(2,3) unfolding ranked_set_mode [OF inv]
    by (auto simp: scan_ids_def admissible_def generation_asked_def is_current_record_def)
  have "distinct (List.map ca_record_id ?cs)"
    using ranked_rejected_ids(1) [OF queryable_in_mode [OF inv], of False q] by simp
  moreover have "ca_record_id c = the (um_find (eng_current e) st)" if "c \<in> set ?cs" for c
    using mem [OF that] by simp
  ultimately have "length ?cs \<le> 1" by (rule at_most_one)
  moreover have "qr_outcome (fst (query q e)) \<noteq> QueryOutcome_FOUND_MULTIPLE" if "length ?cs \<le> 1"
    using that by (auto simp: query_def run_query_outcome empty_outcome_not_found split: list.split option.split)
  moreover have "qr_selected_record_id (fst (query q e)) \<in> {None, um_find (eng_current e) st}"
    using mem [symmetric] by (auto simp: query_def run_query_selection split: list.split)
  ultimately show ?thesis by (simp add: query_def run_query_lists)
qed

theorem current_query_selects_current_witness:
  "qr_selected_record_id (fst (query sample_query sample_published)) = um_find (eng_current sample_published) (StrongId 1)"
proof -
  have "qr_selected_record_id (fst (query sample_query sample_published)) \<noteq> None"
    by (simp add: query_def sample_selected)
  moreover have "qd_state_id sample_query = Some (StrongId 1)" "qd_generation_rule sample_query = GenerationRule_CURRENT"
    by (simp_all add: sample_query_def default_query_def)
  note current_query_selects_current [OF sample_published_lived this, THEN conjunct1]
  ultimately show ?thesis by auto
qed

text \<open>C16. Reading the candidates off an index is the same as scanning every record, after
  any run of calls and restarts: the candidates of a query are, in ascending order and without
  repetition, the ids of the records of the asked state, else of the asked kind, else of all
  records. A query that names a state sees only that state's records even when wildcard_state_id is
  set, although the flag is documented to match any state.\<close>

theorem index_candidates_are_scan:
  assumes "engine_lived e"
  shows "initial_candidate_ids e q = sorted_list_of_set {rid. \<exists>r. get_record e rid = Some r \<and>
    (case qd_state_id q of Some st \<Rightarrow> rec_state_id r = st
     | None \<Rightarrow> (case qd_kind q of Some k \<Rightarrow> rec_kind r = k | None \<Rightarrow> True))}"
  using candidate_ids_scan [OF lived_queryable [OF assms], of q] by (simp add: scan_ids_def)

theorem index_candidates_are_scan_witness:
  "\<exists>e'. load_file (save_file sample_published) sample_joined = (None, e') \<and>
     initial_candidate_ids e' sample_query = [StrongId 10]"
proof -
  obtain e' where e': "load_file (save_file sample_published) sample_joined = (None, e')" "engine_lived e'"
    "\<And>rid. (\<exists>r. get_record e' rid = Some r \<and> rec_state_id r = StrongId 1) \<longleftrightarrow> rid = StrongId 10"
    using sample_reloaded by blast
  with index_candidates_are_scan [OF e'(2), of sample_query] show ?thesis
    by (simp add: sample_query_def default_query_def)
qed

text \<open>C17. No candidate is lost and none is counted twice: each record in the scope of a
  query is either ranked or eliminated with a reason, never both; it is ranked precisely when it is
  admissible.\<close>

theorem every_candidate_accounted:
  assumes "engine_lived e"
  shows "distinct (List.map cr_record_id (qr_ranked_candidates (fst (run_query q h e)))
      @ List.map el_record_id (qr_eliminated (fst (run_query q h e)))) \<and>
    cr_record_id ` set (qr_ranked_candidates (fst (run_query q h e)))
      = {rid \<in> scan_ids e q. admissible (in_mode h e) (the (get_record e rid)) q} \<and>
    el_record_id ` set (qr_eliminated (fst (run_query q h e)))
      = {rid \<in> scan_ids e q. \<not> admissible (in_mode h e) (the (get_record e rid)) q}"
proof -
  let ?e = "in_mode h e"
  have inv: "queryable ?e" by (rule queryable_in_mode [OF lived_queryable [OF assms]])
  have ids: "List.map cr_record_id (qr_ranked_candidates (fst (run_query q h e))) = List.map ca_record_id (ranked_assessments ?e q)"
    "List.map el_record_id (qr_eliminated (fst (run_query q h e))) = List.map ca_record_id (rejected_assessments ?e q)"
    by (simp_all add: run_query_lists ranking_of_def elimination_of_def)
  have ranked: "ca_record_id ` set (ranked_assessments ?e q)
      = {rid \<in> scan_ids e q. admissible ?e (the (get_record e rid)) q}"
    unfolding ranked_set [OF inv] using inv
    by (force simp: queryable_def scan_ids_def)
  have split: "distinct (List.map ca_record_id (ranked_assessments ?e q) @ List.map ca_record_id (rejected_assessments ?e q))"
    "ca_record_id ` set (ranked_assessments ?e q) \<union> ca_record_id ` set (rejected_assessments ?e q) = scan_ids e q"
    using ranked_rejected_ids [OF inv, of q] by (simp_all add: image_Un)
  then have "ca_record_id ` set (rejected_assessments ?e q)
      = {rid \<in> scan_ids e q. \<not> admissible ?e (the (get_record e rid)) q}"
    using ranked by auto
  with split(1) ranked ids show ?thesis by (metis image_set)
qed

theorem every_candidate_accounted_witness:
  "cr_record_id ` set (qr_ranked_candidates (fst (run_query sample_query True sample_published)))
     \<union> el_record_id ` set (qr_eliminated (fst (run_query sample_query True sample_published))) = {StrongId 10}"
  using every_candidate_accounted [OF sample_published_lived, of sample_query True] sample_scan by auto

text \<open>C18. The outcome is a function of what the query lists: several ranked candidates give
  FOUND_MULTIPLE. A single one gives FOUND_EXACT if the query names its state without the wildcard,
  asks for no compatibility or the record's is EXACT, and asks for no content digest or the
  record's own, and else FOUND_COMPATIBLE. None gives NOT_FOUND where nothing was eliminated. Else
  the reasons recorded decide: INVALIDATED_ONLY if all are invalidation or a tombstone;
  INCOMPATIBLE_ONLY if one is a mismatch of compatibility or of a dependency and none is of
  invalidity, staleness or lacking evidence; STALE_ONLY if one is staleness and all the others are
  stale, invalid or incompatible; NOT_FOUND if there are just invalid and incompatible ones; and
  otherwise INSUFFICIENT_EVIDENCE. So an outcome called only may come with other reasons beside its
  own.\<close>

theorem outcome_of_ranking:
  assumes "engine_lived e"
  shows "case qr_ranked_candidates (fst (run_query q h e)) of
      [] \<Rightarrow> qr_outcome (fst (run_query q h e)) =
         (let R = el_reason ` set (qr_eliminated (fst (run_query q h e)));
              I = {RejectionReason_INVALIDATED, RejectionReason_TOMBSTONED};
              S = {RejectionReason_STALE_GENERATION, RejectionReason_NOT_CURRENT,
                RejectionReason_FRESHNESS_BELOW_REQUIREMENT};
              C = {RejectionReason_COMPATIBILITY_MISMATCH, RejectionReason_DEPENDENCY_MISMATCH,
                RejectionReason_MISSING_REQUIRED_DEPENDENCY};
              U = {RejectionReason_INSUFFICIENT_EVIDENCE}
          in if R = {} then QueryOutcome_NOT_FOUND
             else if R \<subseteq> I then QueryOutcome_INVALIDATED_ONLY
             else if R \<inter> C \<noteq> {} \<and> R \<inter> (I \<union> S \<union> U) = {} then QueryOutcome_INCOMPATIBLE_ONLY
             else if R \<inter> S \<noteq> {} \<and> R \<subseteq> I \<union> S \<union> C then QueryOutcome_STALE_ONLY
             else if R \<subseteq> I \<union> S \<union> C then QueryOutcome_NOT_FOUND else QueryOutcome_INSUFFICIENT_EVIDENCE)
    | [c] \<Rightarrow> (\<exists>rec. get_record e (cr_record_id c) = Some rec \<and>
        qr_outcome (fst (run_query q h e)) =
          (if qd_state_id q = Some (rec_state_id rec) \<and> \<not> qd_wildcard_state_id q \<and>
              (qd_compatibility q = CompatibilityRequirement_NONE \<or>
               map_option comp_outcome (rec_compatibility rec) = Some CompatibilityOutcome_EXACT) \<and>
              (qd_content_digest q = [] \<or> rec_content_digest rec = qd_content_digest q)
           then QueryOutcome_FOUND_EXACT else QueryOutcome_FOUND_COMPATIBLE))
    | _ \<Rightarrow> qr_outcome (fst (run_query q h e)) = QueryOutcome_FOUND_MULTIPLE"
proof -
  let ?cs = "ranked_assessments (in_mode h e) q"
  have inv: "queryable e" by (rule lived_queryable [OF assms])
  have found: "\<exists>rec. get_record e (ca_record_id c) = Some rec" if "c \<in> set ?cs" for c
    using that inv unfolding ranked_set [OF queryable_in_mode [OF inv]]
    by (auto simp: queryable_def)
  have exact: "exact_match rec q \<longleftrightarrow> qd_state_id q = Some (rec_state_id rec) \<and> \<not> qd_wildcard_state_id q \<and>
      (qd_compatibility q = CompatibilityRequirement_NONE \<or>
       map_option comp_outcome (rec_compatibility rec) = Some CompatibilityOutcome_EXACT) \<and>
      (qd_content_digest q = [] \<or> rec_content_digest rec = qd_content_digest q)" for rec
    by (auto simp: exact_match_def exact_id_def split: option.splits)
  consider "?cs = []" | c where "?cs = [c]" | c d cs where "?cs = c # d # cs"
    by (metis list.exhaust)
  then show ?thesis
  proof cases
    case 1
    with empty_outcome_reasons [OF no_candidate_iff [OF inv 1]] show ?thesis
      unfolding Let_def by (simp only: run_query_lists(1) run_query_outcome list.map list.case)
  next
    case 2
    with found [of c] show ?thesis by (auto simp: run_query_lists(1) run_query_outcome ranking_of_def exact)
  qed (simp add: run_query_lists(1) run_query_outcome)
qed

theorem outcome_of_ranking_witness:
  "qr_outcome (fst (run_query sample_query False sample_published)) = QueryOutcome_FOUND_EXACT"
proof -
  have "get_record sample_published (StrongId 10) = Some sample_stamped"
    by (simp add: get_record_def sample_published_fields)
  moreover have "rec_state_id sample_stamped = StrongId 1" by (simp add: sample_record_def)
  ultimately show ?thesis
    using outcome_of_ranking [OF sample_published_lived, of sample_query False]
    by (simp add: run_query_lists(1) sample_ranked ranking_of_def accepted_candidate_def)
      (simp add: sample_query_def default_query_def)
qed

text \<open>C19. The factor of a cost never rises with the cost: for latencies and costs that are
  not NaN and not negative, infinity included, rounding does not disturb the order, and the factor
  itself is never negative.\<close>

theorem cost_factor_falls:
  assumes "\<not> f64_is_nan x" "\<not> f64_sign x" "\<not> f64_is_nan y" "\<not> f64_sign y" and "\<not> f64_less y x"
  shows "\<not> f64_less (inv_factor x) (inv_factor y) \<and> \<not> f64_sign (inv_factor x)"
proof -
  have "f64_mag x \<le> f64_mag y" using assms by (simp add: f64_less_def f64_key_def)
  from inv_factor_antitone [OF assms(1-4) this] inv_factor_antitone(2) [OF assms(3,4,3,4) order_refl] show ?thesis
    by (simp add: f64_less_def f64_key_def)
qed

theorem cost_factor_falls_witness:
  "\<not> f64_less (inv_factor (Double 0)) (inv_factor f64_one) \<and> \<not> f64_sign (inv_factor (Double 0))"
  by (rule cost_factor_falls) (simp_all add: f64_less_def f64_key_def)

section \<open>The coordinator, the worker and the command line\<close>

text \<open>C20. Frames of named kinds and at most 64 MiB of payload that a peer sends over a
  stream socket, in whatever runs their bytes arrive and however the replies are cut up, are
  answered one by one and in order: the coordinator's loop ends with the state, and has sent the
  replies, of the conversation in which each frame is dispatched and its reply, or the error reply,
  sent.\<close>

theorem stream_conversation:
  assumes "concat (sock_in s) = frames_on_wire fs" and "list_all sendable fs"
  shows "\<exists>s'. serve recv_runs send_runs persist c s = Some (None, snd (converse persist fs c), s') \<and>
    sock_out s' = sock_out s @ replies_on_wire (fst (converse persist fs c))"
  by (rule wire.serve_converse [OF assms])

theorem stream_conversation_witness:
  "\<exists>s'. serve recv_runs send_runs [] sample_coordinator
      \<lparr>sock_in = [take 5 (frames_on_wire [sample_hello]), [], drop 5 (frames_on_wire [sample_hello])],
       sock_room = [1, 2], sock_out = []\<rparr> =
    Some (None, snd (converse [] [sample_hello] sample_coordinator), s') \<and>
    sock_out s' = replies_on_wire (fst (converse [] [sample_hello] sample_coordinator))"
  using stream_conversation [of "\<lparr>sock_in = [take 5 (frames_on_wire [sample_hello]), [],
      drop 5 (frames_on_wire [sample_hello])], sock_room = [1, 2], sock_out = []\<rparr>" "[sample_hello]"]
  by (simp add: sample_hello_sendable)



text \<open>C22. Both programs close what they open when they exit with 0, and leave at most one
  descriptor open otherwise; a failed start of the server leaves none. A client that is given a
  host which is no address does leave one: tcp_connect opens the socket before it parses the host
  and does not close it.\<close>

theorem descriptors_balanced:
  assumes "socket_api os fds"
  shows "(case coordinator_process os argv d w of None \<Rightarrow> True
      | Some (code, d', w') \<Rightarrow> if code = 0 then fds w' = fds w else closed_but_one (fds w) (fds w')) \<and>
    (case worker_process os script_of argv w of None \<Rightarrow> True
      | Some (code, out, w') \<Rightarrow> if code = 0 then fds w' = fds w else closed_but_one (fds w) (fds w')) \<and>
    (case server_open os port w of (Inl _, w') \<Rightarrow> fds w' = fds w
      | (Inr srv, w') \<Rightarrow> srv \<notin> fds w \<and> fds w' = insert srv (fds w) \<and> fds (tcp_close os srv w') = fds w) \<and>
    (case tcp_connect os host port w of (Inr h, w') \<Rightarrow> fds (tcp_close os h w') = fds w
      | (Inl x, w') \<Rightarrow> if x = runtime_error ''invalid host address''
          then \<exists>h. h \<notin> fds w \<and> fds w' = insert h (fds w) else fds w' = fds w)"
proof (intro conjI)
  note api = assms
  show "case coordinator_process os argv d w of None \<Rightarrow> True
      | Some (code, d', w') \<Rightarrow> if code = 0 then fds w' = fds w else closed_but_one (fds w) (fds w')"
    using socket_api.coordinator_process_fds [OF api, of argv d w] by (auto split: option.split)
  show "case worker_process os script_of argv w of None \<Rightarrow> True
      | Some (code, out, w') \<Rightarrow> if code = 0 then fds w' = fds w else closed_but_one (fds w) (fds w')"
    using socket_api.worker_process_fds [OF api, of script_of argv w] by (auto split: option.split)
  show "case server_open os port w of (Inl _, w') \<Rightarrow> fds w' = fds w
      | (Inr srv, w') \<Rightarrow> srv \<notin> fds w \<and> fds w' = insert srv (fds w) \<and> fds (tcp_close os srv w') = fds w"
    using socket_api.server_open_fds [OF api, of port w]
    by (auto simp: socket_api.tcp_close_fds [OF api] split: prod.split sum.split)
  show "case tcp_connect os host port w of (Inr h, w') \<Rightarrow> fds (tcp_close os h w') = fds w
      | (Inl x, w') \<Rightarrow> if x = runtime_error ''invalid host address''
          then \<exists>h. h \<notin> fds w \<and> fds w' = insert h (fds w) else fds w' = fds w"
    using socket_api.tcp_connect_fds [OF api, of host port w]
    by (auto simp: socket_api.tcp_close_fds [OF api] split: prod.split sum.split if_splits)
qed

theorem descriptors_balanced_witness:
  "case tcp_connect machine_os ''localhost'' 7000 sample_machine of (Inr h, w') \<Rightarrow> False
     | (Inl x, w') \<Rightarrow> \<exists>h. h \<notin> set (mach_fds sample_machine) \<and> set (mach_fds w') = insert h (set (mach_fds sample_machine))"
proof -
  obtain w' where w': "tcp_connect machine_os ''localhost'' 7000 sample_machine = (Inl (runtime_error ''invalid host address''), w')"
    using sample_no_address by blast
  show ?thesis
    using descriptors_balanced [OF machine.socket_api_axioms, where host = "''localhost''" and port = 7000 and w = sample_machine]
    by (simp add: w')
qed



text \<open>C24. Whatever frames a coordinator is sent, payloads of any bytes and loads of damaged
  files included, all data its engine stores stay valid. So, unless a failed load left it half
  loaded, the image of its engine always loads again while the counts are within the loader's
  bounds and no two records share a state and a generation.\<close>

theorem stored_data_well_typed:
  assumes "typed_engine (co_engine c)" and "e = co_engine (snd (converse persist fs c))"
  shows "typed_engine e \<and>
    (if engine_lived (co_engine c) \<and> no_half_load persist fs c \<and> within_limits e \<and> distinct (List.map gen_key (canonical_records e))
     then \<exists>e'. load_file (save_file e) e0 = (None, e') else True)"
proof -
  have typed: "typed_engine e" unfolding assms(2) by (rule typed_converse [OF assms(1)])
  moreover have "queryable e" if "engine_lived (co_engine c)" "no_half_load persist fs c"
    unfolding assms(2) by (rule lived_queryable [OF converse_lived [OF that]])
  ultimately show ?thesis using load_saved [OF typed_saveable] by auto
qed

theorem stored_data_well_typed_witness:
  "\<exists>e'. load_file (save_file (co_engine (snd (converse [] [] sample_coordinator)))) sample_joined = (None, e')"
proof -
  have e: "co_engine (snd (converse [] [] sample_coordinator)) = new_engine (Generation 1)"
    by (simp add: sample_coordinator_def drop_boot_def)
  have "within_limits (new_engine (Generation 1))" "canonical_records (new_engine (Generation 1)) = []"
    by (simp_all add: within_limits_def new_engine_def get_record_def canonical_records_def)
  with stored_data_well_typed [of sample_coordinator _ "[]" "[]" sample_joined, OF _ refl] lived_new [of "Generation 1"]
  show ?thesis unfolding e by (simp add: sample_coordinator_def typed_new)
qed

text \<open>C25. A request other than LOAD that fails, because its payload does not parse or the
  disk refuses, is answered with the verdict REJECTED_NOT_LIVE and the text of the exception, and
  changes neither the engine nor the boot of the connection; where it saves nothing it changes
  nothing at all.\<close>

theorem failed_request_effect:
  assumes "dispatch persist f c = (Inl x, c')" and "frame_kind f \<noteq> MsgKind_LOAD"
  shows "answer persist f c = ((MsgKind_MUTATION_RESULT,
      pack_mutation_result MutationVerdict_REJECTED_NOT_LIVE (''coordinator error: '' @ what x)), c') \<and>
    co_engine c' = co_engine c \<and> co_boot c' = co_boot c \<and>
    (if frame_kind f \<in> {MsgKind_SAVE, MsgKind_TERMINATE} then True else c' = c)"
  using assms dispatch_error [OF assms] by (simp add: answer_def error_reply_def)

theorem failed_request_effect_witness:
  "\<exists>x. snd (answer [] (request MsgKind_HELLO [1, 2, 3]) sample_coordinator) = sample_coordinator \<and>
     dispatch [] (request MsgKind_HELLO [1, 2, 3]) sample_coordinator = (Inl x, sample_coordinator)"
proof -
  have "unpack_hello [1, 2, 3] = Inl (runtime_error ''byte reader: out of bounds'')"
    by (simp add: unpack_hello_def unpack_def read_pair_def bindr_def id_deserialize_def read_u64_def require_def
        remaining_def reader_def throw_def)
  then have d: "dispatch [] (request MsgKind_HELLO [1, 2, 3]) sample_coordinator =
      (Inl (runtime_error ''byte reader: out of bounds''), sample_coordinator)"
    by (simp add: dispatch_def request_def)
  from failed_request_effect [OF this] d show ?thesis by (simp add: request_def)
qed

text \<open>C26. A register, addloc, invalidate or tombstone line of a worker's script, with its
  identity and generation, is the message on which the coordinator makes exactly that call on its
  engine: with the record or location the worker built, field by field, under the worker's
  envelope, and its verdict as the reply.\<close>

theorem script_line_runs:
  assumes "2 < length t" and "length (arg_or t 4 []) < 2 ^ 64"
    and "st = StrongId (strtoull (t ! 1))" and "gen = Generation (strtoull (t ! 2))"
  shows "if t ! 0 = ''register'' then \<exists>payload. command wid boot epoch ov t = Some (Send MsgKind_REGISTER_STATE payload) \<and>
      dispatch persist (request MsgKind_REGISTER_STATE payload) c =
        local_call (register_state
          (build_record st gen (arg_or t 3 ''generic'') (arg_or t 4 []) (arg_or t 5 ''mem'') (number_or t 6 1)
            (number_or t 7 0) epoch boot)
          ((line_envelope wid boot epoch ov)\<lparr>env_state_generation := gen\<rparr>)) c
    else if t ! 0 = ''addloc'' then \<exists>payload. command wid boot epoch ov t = Some (Send MsgKind_ADD_LOCATION payload) \<and>
      dispatch persist (request MsgKind_ADD_LOCATION payload) c =
        local_call (add_location st
          (worker_location st (gen_value gen) (arg_or t 3 ''mem'') (number_or t 4 1) (number_or t 5 0)
            (default_estimate\<lparr>re_evidence := Evidence_MEASURED\<rparr>) epoch boot)
          ((line_envelope wid boot epoch ov)\<lparr>env_location_generation := Generation (gen_value gen)\<rparr>)) c
    else if t ! 0 = ''invalidate'' then \<exists>payload. command wid boot epoch ov t = Some (Send MsgKind_INVALIDATE payload) \<and>
      dispatch persist (request MsgKind_INVALIDATE payload) c =
        local_call (invalidate
          (default_invalidation\<lparr>inv_invalidation_id := StrongId 1, inv_state_id := st, inv_bound_generation := gen\<rparr>)
          ((line_envelope wid boot epoch ov)\<lparr>env_state_generation := gen\<rparr>)) c
    else if t ! 0 = ''tombstone'' then \<exists>payload. command wid boot epoch ov t = Some (Send MsgKind_TOMBSTONE payload) \<and>
      dispatch persist (request MsgKind_TOMBSTONE payload) c =
        local_call (tombstone
          (default_tombstone\<lparr>tomb_tombstone_id := StrongId 1, tomb_state_id := st, tomb_floor_generation := gen\<rparr>)
          ((line_envelope wid boot epoch ov)\<lparr>env_state_generation := gen\<rparr>)) c
    else True"
  using register_line [OF assms(1) _ assms(2-4)] addloc_line [OF assms(1) _ assms(3), where g = "gen_value gen"]
    invalidate_line [OF assms(1) _ assms(3,4)] tombstone_line [OF assms(1) _ assms(3,4)] assms(4)
  by simp

theorem script_line_runs_witness:
  "\<exists>payload. command (StrongId 3) (StrongId 7) (Generation 1) 0 [''register'', ''1'', ''5''] =
      Some (Send MsgKind_REGISTER_STATE payload) \<and>
    dispatch [] (request MsgKind_REGISTER_STATE payload) sample_coordinator =
      local_call (register_state
        (build_record (StrongId (strtoull ''1'')) (Generation (strtoull ''5'')) ''generic'' [] ''mem'' 1 0
          (Generation 1) (StrongId 7))
        ((line_envelope (StrongId 3) (StrongId 7) (Generation 1) 0)\<lparr>env_state_generation := Generation (strtoull ''5'')\<rparr>))
        sample_coordinator"
  using script_line_runs [of "[''register'', ''1'', ''5'']" "StrongId (strtoull ''1'')" "Generation (strtoull ''5'')"
      "StrongId 3" "StrongId 7" "Generation 1" 0 "[]" sample_coordinator]
  by (simp add: arg_or_def number_or_def)

text \<open>C27. A save to a path that may be written reports success and replaces the file at that
  path, leaving no temporary one; where the image fits on the disk, loading the path is loading the
  image, into whatever engine. On a full disk the save reports success just the same, and the file
  it has put in place of the old one is refused by the next load.\<close>

theorem saved_file_reloads:
  assumes "writable d path" and "save_engine path e d = (x, d')"
  shows "x = None \<and> disk_files d' (temp_path path) = None \<and>
    (if length (save_file e) \<le> disk_room d then load_engine path d' e0 = load_file (save_file e) e0 else True) \<and>
    (if disk_room d < 44 then load_engine path d' e0 = (Some (runtime_error ''persistence: file too short''), e0) else True)"
proof -
  have d': "x = None" "d' = d\<lparr>disk_files := (disk_files d)(temp_path path := None, path \<mapsto> take (disk_room d) (save_file e))\<rparr>"
    using save_writable [OF assms(1), of e] assms(2) by simp_all
  have "c_str path = path" using assms(1) by (simp add: writable_def c_str_plain)
  with d' save_on_full_disk [OF assms(1), of e e0] assms(2) show ?thesis
    by (simp add: load_engine_def read_file_def)
qed

theorem saved_file_reloads_witness:
  "load_engine ''x'' (snd (save_engine ''x'' sample_published (sample_disk\<lparr>disk_room := 10\<rparr>))) sample_joined =
     (Some (runtime_error ''persistence: file too short''), sample_joined)"
  using saved_file_reloads [OF sample_disk_writable [of 10] surjective_pairing, of sample_published sample_joined]
  by (simp add: sample_disk_def)

text \<open>C28. No command of the command-line program but save changes the disk, and save writes
  back the engine it has just loaded, so that what a command does to its engine is never kept.
  Invalidate and tombstone do nothing to it either: after the load no worker is live, and both are
  refused as stale.\<close>

theorem command_line_keeps_nothing:
  assumes "cli_main secs argv d = Some (r, d')"
  shows "(d' = d \<or> argv ! 1 = ''save'' \<and> d' = snd (save_engine (arg_or argv 2 g_persist) (cli_engine d) d)) \<and>
    (if 3 < length argv \<and> (argv ! 1 = ''invalidate'' \<or> argv ! 1 = ''tombstone'')
     then r = Inr (0, epilogue (''REJECTED_STALE_BOOT worker boot is not live'' @ [CHR 0x0A]) (cli_engine d))
     else True)"
proof
  show "d' = d \<or> argv ! 1 = ''save'' \<and> d' = snd (save_engine (arg_or argv 2 g_persist) (cli_engine d) d)"
    using cli_disk [OF assms] by blast
  show "if 3 < length argv \<and> (argv ! 1 = ''invalidate'' \<or> argv ! 1 = ''tombstone'')
     then r = Inr (0, epilogue (''REJECTED_STALE_BOOT worker boot is not live'' @ [CHR 0x0A]) (cli_engine d))
     else True"
    using assms by (auto simp: cli_main_def Let_def engine_command_def cli_refusals)
qed

theorem command_line_keeps_nothing_witness:
  "cli_main (Double 0) [''state-index'', ''invalidate'', ''1'', ''5''] sample_disk =
     Some (Inr (0, epilogue (''REJECTED_STALE_BOOT worker boot is not live'' @ [CHR 0x0A]) (new_engine (Generation 1))), sample_disk)"
proof -
  let ?argv = "[''state-index'', ''invalidate'', ''1'', ''5'']"
  obtain r d' where r: "cli_main (Double 0) ?argv sample_disk = Some (r, d')"
    by (simp add: cli_main_def Let_def engine_command_def cli_refusals)
  from command_line_keeps_nothing [OF r] have "d' = sample_disk"
    "r = Inr (0, epilogue (''REJECTED_STALE_BOOT worker boot is not live'' @ [CHR 0x0A]) (new_engine (Generation 1)))"
    by (simp_all add: sample_no_file)
  with r show ?thesis by simp
qed

text \<open>C29. The record identifiers the worker and the command line make up are unique for
  identities and generations below 2^32, the placement identifiers for identities below 2^40 and
  generations below 2^16; beyond, they collide: generation 2^32 of state 1 has the record
  identifier of its generation 0, and placement generation 2^16 the placement identifier of
  generation 0.\<close>

theorem worker_ids_unique:
  "(id_value st < 2 ^ 32 \<and> id_value st' < 2 ^ 32 \<and> gen_value g < 2 ^ 32 \<and> gen_value g' < 2 ^ 32 \<longrightarrow>
      (worker_record_id st g = worker_record_id st' g' \<longleftrightarrow> st = st' \<and> g = g')) \<and>
   (id_value st < 2 ^ 40 \<and> id_value st' < 2 ^ 40 \<and> gen_value g < 2 ^ 16 \<and> gen_value g' < 2 ^ 16 \<longrightarrow>
      (worker_placement st (gen_value g) = worker_placement st' (gen_value g') \<longleftrightarrow> st = st' \<and> g = g')) \<and>
   worker_record_id (StrongId 1) (Generation (2 ^ 32)) = worker_record_id (StrongId 1) (Generation 0) \<and>
   worker_placement (StrongId 1) (2 ^ 16) = worker_placement (StrongId 1) 0"
  using worker_record_id_inject [of st st' g g'] worker_ids_collide
    worker_placement_inject [of st st' "gen_value g" "gen_value g'"] by (auto simp: Generation.expand)

theorem worker_ids_unique_witness:
  "worker_record_id (StrongId 1) (Generation 5) \<noteq> worker_record_id (StrongId 2) (Generation 5) \<and>
   worker_placement (StrongId (2 ^ 39)) 5 \<noteq> worker_placement (StrongId (2 ^ 38)) 5"
  using worker_ids_unique [of "StrongId 1" "StrongId 2" "Generation 5" "Generation 5"]
    worker_ids_unique [of "StrongId (2 ^ 39)" "StrongId (2 ^ 38)" "Generation 5" "Generation 5"] by simp

section \<open>Indexes and audits\<close>

text \<open>C30. The sixteen secondary indexes implement one relation between keys and record ids:
  inserting a record adds its id under exactly the keys of the record, removing it takes the id
  away from exactly those keys, and both keep every posting list sorted, free of duplicates and
  non-empty.\<close>

theorem index_refines_postings:
  assumes "idx_ok s"
  shows "idx_ok (idx_insert r s) \<and> idx_ok (idx_remove r s) \<and>
    posted (idx_insert r s) k = posted s k \<union> (if k \<in> set (record_keys r) then {rec_record_id r} else {}) \<and>
    posted (idx_remove r s) k = posted s k - (if k \<in> set (record_keys r) then {rec_record_id r} else {})"
  by (simp add: assms idx_ok_insert idx_ok_remove posted_insert posted_remove)

theorem index_refines_postings_witness:
  "posted (idx_insert sample_record idx_clear) (Key_state (StrongId 1)) = {StrongId 10}"
  using index_refines_postings [OF idx_ok_clear, of sample_record "Key_state (StrongId 1)"]
  unfolding posted_clear by (simp add: record_keys_simps)

text \<open>C31. The index check reports nothing exactly when no posting list mentions an unknown
  record, every record is posted under all of its keys, and every placement is owned by the record
  that has it.\<close>

theorem index_verification_meaning:
  assumes "idx_ok s"
  shows "idx_verify s rs = [] \<longleftrightarrow>
    (\<forall>k. posted s k \<subseteq> rec_record_id ` set rs) \<and>
    list_all (\<lambda>r. list_all (\<lambda>k. rec_record_id r \<in> posted s k) (record_keys r) \<and>
      list_all (\<lambda>l. location_owner s (loc_placement_id l) = Some (rec_record_id r)) (rec_locations r)) rs"
  unfolding idx_verify_iff [OF assms]
  by (auto simp: idx_sound_def idx_complete_def idx_owned_def list_all_iff location_owner_def)

theorem index_verification_meaning_witness:
  "idx_verify idx_clear [] = []"
  using index_verification_meaning [OF idx_ok_clear, of "[]"] by simp

text \<open>C32. On an engine that calls and restarts can reach, the self-check reports nothing
  exactly when every current record is not retired, has a usable location and satisfied
  dependencies, and every placement is owned by the record that lists it: all its other tests
  cannot fail.\<close>

theorem invariant_check_meaning:
  assumes "engine_lived e"
  shows "invariant_check e = [] \<longleftrightarrow>
    (\<forall>st. case find_state e st of None \<Rightarrow> True
       | Some r \<Rightarrow> \<not> terminal_lifecycle (rec_lifecycle r) \<and> has_usable_location r \<and> dep_satisfied e r) \<and>
    list_all (\<lambda>r. list_all (\<lambda>l. location_owner (eng_indexes e) (loc_placement_id l) = Some (rec_record_id r))
      (rec_locations r)) (canonical_records e)"
  unfolding invariant_check_iff [OF lived_serving [OF assms]]
  by (auto simp: current_sound_def outstanding_def idx_owned_def list_all_iff location_owner_def split: option.splits)

theorem invariant_check_meaning_witness:
  "invariant_check sample_published = []"
  unfolding invariant_check_meaning [OF sample_published_lived]
proof (intro conjI allI)
  fix st
  show "case find_state sample_published st of None \<Rightarrow> True
     | Some r \<Rightarrow> \<not> terminal_lifecycle (rec_lifecycle r) \<and> has_usable_location r \<and> dep_satisfied sample_published r"
    by (auto simp: find_state_def get_record_def sample_published_fields terminal_lifecycle_def has_usable_location_def
        dep_satisfied_def usable_def sample_location_def split: option.split)
  show "list_all (\<lambda>r. list_all (\<lambda>l. location_owner (eng_indexes sample_published) (loc_placement_id l) = Some (rec_record_id r))
      (rec_locations r)) (canonical_records sample_published)"
    by (simp add: canonical_records_def sample_published_fields sample_owner)
qed

text \<open>C33. In every reachable engine the invalidation log is numbered 1, 2, 3 and so on, the
  last number is the engine's counter and the \<open>invalidations\<close> account, and
  \<open>logical_states\<close> is the number of records (all modulo 2^64).\<close>

theorem ledger_of_reachable_engine:
  assumes "engine_reachable e"
  shows "List.map inv_invalidation_seq (eng_invalidations e) = List.map of_nat [1..<Suc (length (eng_invalidations e))] \<and>
    eng_invalidation_seq e = of_nat (length (eng_invalidations e)) \<and>
    acc_invalidations (eng_accounting e) = of_nat (length (eng_invalidations e)) \<and>
    acc_logical_states (eng_accounting e) = of_nat (length (eng_records e))"
  using reachable_ledger [OF assms] reachable_record_count [OF assms] by (simp add: ledger_inv_def)

theorem ledger_of_reachable_engine_witness:
  "acc_logical_states (eng_accounting sample_published) = 1 \<and> acc_invalidations (eng_accounting sample_published) = 0"
  using ledger_of_reachable_engine [OF sample_published_reachable] by (simp add: sample_published_fields)

section \<open>Saved images\<close>

text \<open>C34. Loading the image of a saveable engine, into whatever engine, succeeds and
  restores the saved one. Saveable is what save does not check and load does: the stored values are
  well formed (no list beyond its bound, no enumerator out of range), the counts within the
  loader's bounds, every record under its own id with its digest right, and no two records of one
  state and generation. All records come back, in every field but that process handles are dropped,
  copies in host memory, pinned memory or on a device need revalidation, the digest is recomputed
  for that and right, and historical are exactly the records that are not current now; the same
  invalidations in the same order with the same counter, the same tombstones, accounting and epoch.
  No worker is live afterwards.\<close>

theorem load_restores_saved:
  assumes "saveable e"
  shows "\<exists>e'. load_file (save_file e) e0 = (None, e') \<and>
    (\<forall>rid. case get_record e rid of None \<Rightarrow> get_record e' rid = None
     | Some r \<Rightarrow> \<exists>r'. get_record e' rid = Some r' \<and> digest_ok r' \<and>
        r'\<lparr>rec_locations := rec_locations r, rec_semantic_digest := rec_semantic_digest r,
          rec_is_historical := rec_is_historical r\<rparr> = r \<and>
        rec_locations r' = List.map (\<lambda>l. l\<lparr>loc_process_handle := None, loc_process_scope := None,
          loc_freshness := (if loc_domain l \<in> {MemoryDomain_HOST_MEMORY, MemoryDomain_HOST_PINNED, MemoryDomain_CUDA_DEVICE}
            then Freshness_REVALIDATION_REQUIRED else loc_freshness l)\<rparr>) (rec_locations r) \<and>
        (rec_is_historical r' \<longleftrightarrow> um_find (eng_current e') (rec_state_id r) \<noteq> Some rid)) \<and>
    eng_invalidations e' = eng_invalidations e \<and> eng_invalidation_seq e' = eng_invalidation_seq e \<and>
    (\<forall>st. um_find (eng_tombstones e') st = um_find (eng_tombstones e) st) \<and>
    eng_accounting e' = eng_accounting e \<and> auth_epoch (eng_authority e') = auth_epoch (eng_authority e) \<and>
    (\<forall>b. \<not> is_live (eng_authority e') b)"
proof -
  have domain: "machine_local d \<longleftrightarrow> d \<in> {MemoryDomain_HOST_MEMORY, MemoryDomain_HOST_PINNED, MemoryDomain_CUDA_DEVICE}" for d
    by (simp add: machine_local_def)
  show ?thesis
    unfolding load_saved [OF assms] prod.inject
    by (rule exI [where x = "load_finish (loaded_before_finish e e0)"], intro conjI allI refl
        record_after_load [OF assms, unfolded domain]) (simp_all add: loaded_rest assms)
qed

theorem load_restores_saved_witness:
  "\<exists>e'. load_file (save_file sample_published) (new_engine (Generation 1)) = (None, e') \<and>
     eng_accounting e' = eng_accounting sample_published"
  using load_restores_saved [OF sample_saveable, of "new_engine (Generation 1)"] by blast

text \<open>C35. After a load the loader accepts, of whatever file, the current record of every
  state is the newest of its records that are not invalidated, tombstoned or superseded and that no
  tombstone covers, and there is none exactly when there is no such record. Where the file is the
  image of a saveable engine (load_restores_saved) these are the records of that engine, and if it
  came about by calls and loads, a state whose current record is not retired keeps it.\<close>

theorem load_elects_newest:
  assumes "load_file bs e0 = (None, e')"
  shows "(let standing = (\<lambda>r. rec_state_id r = st \<and> \<not> is_tombstoned e' st (rec_state_generation r) \<and>
          rec_lifecycle r \<notin> {Lifecycle_INVALIDATED, Lifecycle_TOMBSTONED, Lifecycle_SUPERSEDED})
     in case find_state e' st of
          None \<Rightarrow> \<forall>rid r. get_record e' rid = Some r \<longrightarrow> \<not> standing r
        | Some c \<Rightarrow> standing c \<and>
            (\<forall>rid r. get_record e' rid = Some r \<and> standing r \<longrightarrow> rec_state_generation r \<le> rec_state_generation c)) \<and>
    (saveable e \<and> bs = save_file e \<longrightarrow>
      (case find_state e' st of
          None \<Rightarrow> \<forall>rid r. get_record e rid = Some r \<longrightarrow> \<not> counted e st r
        | Some c \<Rightarrow> \<exists>r. get_record e (rec_record_id c) = Some r \<and> counted e st r \<and>
            c = (recover_record (persisted_record r))\<lparr>rec_is_historical := False\<rparr> \<and>
            (\<forall>rid' r'. get_record e rid' = Some r' \<and> counted e st r' \<longrightarrow>
               rec_state_generation r' \<le> rec_state_generation r)) \<and>
      (engine_lived e \<and> (\<forall>c. find_state e st = Some c \<longrightarrow> outstanding c) \<longrightarrow>
        map_option rec_record_id (find_state e' st) = map_option rec_record_id (find_state e st)))"
proof (intro conjI impI, goal_cases)
  case 1
  have "counted e' st r \<longleftrightarrow> rec_state_id r = st \<and> \<not> is_tombstoned e' st (rec_state_generation r) \<and>
      rec_lifecycle r \<notin> {Lifecycle_INVALIDATED, Lifecycle_TOMBSTONED, Lifecycle_SUPERSEDED}" for r
    by (auto simp: counted_def outstanding_def terminal_lifecycle_def)
  note standing = this
  from elected_load [OF assms, unfolded elected_def, THEN spec, of st] show ?case unfolding Let_def standing .
next
  case 2
  then have "e' = load_finish (loaded_before_finish e e0)" using assms load_saved [of e e0] by simp
  with find_state_loaded [where e = e and ?e0.0 = e0 and st = st] 2 show ?case by (auto simp: recovered_def split: option.splits)
next
  case 3
  then have "e' = load_finish (loaded_before_finish e e0)" using assms load_saved [of e e0] by simp
  with current_survives [where e = e and ?e0.0 = e0 and st = st] lived_serving [of e] 3 show ?case by blast
qed

theorem load_elects_newest_witness:
  "\<exists>e' c. load_file (save_file sample_published) sample_joined = (None, e') \<and>
     find_state e' (StrongId 1) = Some c \<and> rec_state_generation c = Generation 5"
proof -
  obtain e' where e': "load_file (save_file sample_published) sample_joined = (None, e')"
    using load_saved [OF sample_saveable] by blast
  have one: "get_record sample_published rid = Some r \<longleftrightarrow> rid = StrongId 10 \<and> r = sample_stamped" for rid r
    by (auto simp: get_record_def sample_published_fields)
  have "counted sample_published (StrongId 1) sample_stamped"
    by (simp add: counted_def outstanding_def terminal_lifecycle_def is_tombstoned_def sample_published_fields)
  with load_elects_newest [OF e', of "StrongId 1" sample_published] sample_saveable e' show ?thesis
    by (auto simp: one persisted_record_def split: option.splits)
qed

text \<open>C36. A saved image with any one byte of its payload changed is refused with the CRC-32
  error, and the engine is left as it was.\<close>

theorem damaged_payload_refused:
  assumes "i < length (save_payload e)" and "b \<noteq> save_payload e ! i"
  shows "load_file ((save_file e)[8 + i := b]) e0 = (Some (runtime_error ''persistence: CRC-32 mismatch''), e0)"
  unfolding load_file_def save_file_def check_file_damaged [OF assms] by simp

theorem damaged_payload_refused_witness:
  "load_file ((save_file (new_engine (Generation 1)))[8 + 0 := 1]) sample_joined
     = (Some (runtime_error ''persistence: CRC-32 mismatch''), sample_joined)"
proof (rule damaged_payload_refused)
  have p: "save_payload (new_engine (Generation 1)) = 0 # drop 1 (save_payload (new_engine (Generation 1)))"
    by (simp add: save_payload_def push_list_def canonical_records_def new_engine_def push_u64_def upt_rec)
  show "0 < length (save_payload (new_engine (Generation 1)))" by (subst p) simp
  show "(1 :: u8) \<noteq> save_payload (new_engine (Generation 1)) ! 0" by (subst p) simp
qed

text \<open>C37. The checks that precede a load let a file through exactly when it is the magic
  number, the version, two bytes of any value, a payload, the CRC-32 of the payload and its
  SHA-256; every other file is refused with an error before any state of the engine is cleared.\<close>

theorem accepted_files:
  "(check_file bs = Inr p \<longleftrightarrow>
     (\<exists>z. bs = push_u32 kPersistMagic @ push_u16 kPersistVersion @ push_u16 z @ p
        @ push_u32 (crc32 p) @ sha256 p)) \<and>
   (case check_file bs of Inl x \<Rightarrow> load_file bs e = (Some x, e) | Inr q \<Rightarrow> True)"
  by (simp add: check_file_iff file_layout_def) (simp add: load_file_def split: sum.split)

section \<open>Frames and codecs\<close>

text \<open>C38. The decoder accepts exactly the byte strings that are a header with the magic
  number, the version, a known kind and the payload's own length, the CRC-32 of header and payload,
  four bytes of any value, and the payload, of at most 64 MiB; and then returns that kind and
  payload. It answers every byte string with a frame or an error and never reads out of bounds.\<close>

theorem accepted_frames:
  "(decode_frame bs = Inr (f, FrameError_NONE) \<longleftrightarrow>
     (\<exists>k z p. bs = push_u32 kProtocolMagic @ push_u16 kProtocolVersion @ push_u16 k @ push_u64 (of_nat (length p))
           @ push_u32 (frame_crc k p) @ push_u32 z @ p \<and>
        known_kind k \<and> length p \<le> unat kMaxFrameBytes \<and> f = \<lparr>frame_kind = MsgKind_of k, frame_payload = p\<rparr>)) \<and>
   (\<exists>fe. decode_frame bs = Inr fe)"
  using decode_frame_accept_iff [of bs f] decode_frame_total [of bs] by (simp add: frame_layout_def)

text \<open>C39. The valid records, those whose enumerators are named or in range, whose lists are
  within the bounds and that have no in-memory-only fields set, are exactly those some bytes read
  as. Each reads back from what it is written as, with anything behind it; and whatever the bytes,
  the reader stops within them, with at most 4096 dependencies and 4096 locations.\<close>

theorem readable_records:
  "(StateRecord_valid r \<longleftrightarrow> (\<exists>bs rd. StateRecord_deserialize (reader bs) = Inr (r, rd))) \<and>
   (if StateRecord_valid r then StateRecord_deserialize (reader (StateRecord_serialize r @ rest)) =
      Inr (r, \<lparr>rd_span = StateRecord_serialize r @ rest, rd_pos = length (StateRecord_serialize r)\<rparr>) else True) \<and>
   (\<forall>bs rd. StateRecord_deserialize (reader bs) = Inr (r, rd) \<longrightarrow>
      rd_span rd = bs \<and> rd_pos rd \<le> length bs \<and>
      length (rec_dependencies r) \<le> 4096 \<and> length (rec_locations r) \<le> 4096)"
proof (intro conjI allI impI)
  show "StateRecord_valid r \<longleftrightarrow> (\<exists>bs rd. StateRecord_deserialize (reader bs) = Inr (r, rd))"
    using StateRecord.roundtrip [of r "[]"] StateRecord_typed.decoded_valid by blast
  show "if StateRecord_valid r then StateRecord_deserialize (reader (StateRecord_serialize r @ rest)) =
      Inr (r, \<lparr>rd_span = StateRecord_serialize r @ rest, rd_pos = length (StateRecord_serialize r)\<rparr>) else True"
    using StateRecord.roundtrip by simp
qed (use StateRecord.in_bounds StateRecord_lists_bound in
  \<open>fastforce simp: kMaxDependenciesPerRecord_def kMaxLocationsPerRecord_def\<close>)+

theorem readable_records_witness:
  "\<exists>rd. StateRecord_deserialize (reader (StateRecord_serialize sample_record @ [7])) = Inr (sample_record, rd) \<and>
     rd_pos rd \<le> length (StateRecord_serialize sample_record @ [7])"
  using readable_records [of sample_record "[7]"] sample_record_valid by force

section \<open>The example programs\<close>

text \<open>C40. What the example programs of the repository print, to the last character: fifteen
  runs of the whole model on the inputs its authors chose, from the registration of records through
  invalidation, supersession and tombstones to the ranking and its explanation with all fourteen
  factors. The twelfth saves its engine and loads it again: on any disk that lets it write its file
  and has room for it, it finds the record exactly, the reloaded engine passes the check, and the
  file is gone when it ends.\<close>

theorem examples_print:
  fixes d :: Disk
  assumes "writable d ''example_persist.bin''"
    and "length (save_file (snd (ex_register (ex_plain (StrongId 50) (Generation 1)) (Generation 1) ex_engine))) \<le> disk_room d"
  shows "example_01 = ''StateId=42 StateGeneration=3 null=1'' @ nl \<and>
   example_02 = ''outcome=FOUND_EXACT gen=1'' @ nl \<and>
   example_03 = ''outcome=FOUND_MULTIPLE candidates=3'' @ nl \<and>
   example_04 = ''locations=2'' @ nl \<and>
   example_05 = ''current gen=2 history=2'' @ nl \<and>
   example_06 = ''exact-only candidates=1 selected=4294967297'' @ nl \<and>
   example_07 = ''outcome=FOUND_EXACT found=1'' @ nl \<and>
   example_08 = ''selected=8589934593 (local-compatible wins) candidates=2'' @ nl \<and>
   example_09 = ''invalidate=ACCEPTED invalidated state 20 through generation 1'' @ nl
     @ ''query-outcome=INVALIDATED_ONLY found=0'' @ nl \<and>
   example_10 = ''tombstone=ACCEPTED'' @ nl
     @ ''resurrection-attempt=REJECTED_TOMBSTONED (tombstone floor must win)'' @ nl \<and>
   example_11 = ''history-candidates=2 current-gen=2'' @ nl \<and>
   example_12 d = Inr (''recovered outcome=FOUND_EXACT invariant_ok=1'' @ nl,
     d\<lparr>disk_files := (disk_files d)(''example_persist.bin'' := None, temp_path ''example_persist.bin'' := None)\<rparr>) \<and>
   example_13 = ''old-boot=ACCEPTED fresh-boot-gen2=ACCEPTED (fresh incarnation not fenced)'' @ nl \<and>
   example_14 = ''cuda-location-domain=CUDA_DEVICE outcome=FOUND_EXACT'' @ nl
     @ ''(real RTX 5090 kernel parity proof runs in test_cuda)'' @ nl \<and>
   example_15 = ''Query 15 (0) -> FOUND_EXACT'' @ nl
     @ ''outcome=FOUND_EXACT selected=300647710721 gen=1 candidates=1 eliminated=0'' @ nl
     @ ''Selected 300647710721 gen 1 at placement 1174405377'' @ nl
     @ ''authority boot 5000 provenance MEASURED'' @ nl
     @ ''  rank[0] 300647710721 gen 1: EXACT_IDENTITY_MATCH=1.000000 LOCALITY=10.000000 ''
     @ ''COMPATIBILITY_QUALITY=0.000000 HEALTH=3.000000 FRESHNESS=3.000000 GENERATION_RECENCY=1.000000 ''
     @ ''RETRIEVAL_LATENCY=0.500000 TRANSFER_BYTES=1.000000 RETRIEVAL_BANDWIDTH=0.000000 RESTORE_COST=1.000000 ''
     @ ''REUSE_COST=1.000000 REPLICA_COUNT=1.000000 POLICY_PREFERENCE=0.000000 ADAPTATION_COST=1.000000 '' @ nl"
  by (intro conjI example_01_prints example_02_prints example_03_prints example_04_prints example_05_prints
    example_06_prints example_07_prints example_08_prints example_09_prints example_10_prints example_11_prints
    example_12_prints [OF assms] example_13_prints example_14_prints example_15_prints)

theorem examples_print_witness:
  "\<exists>n. example_12 (sample_disk\<lparr>disk_room := n\<rparr>) =
     Inr (''recovered outcome=FOUND_EXACT invariant_ok=1'' @ nl, sample_disk\<lparr>disk_room := n\<rparr>)"
proof -
  let ?d = "sample_disk\<lparr>disk_room :=
    length (save_file (snd (ex_register (ex_plain (StrongId 50) (Generation 1)) (Generation 1) ex_engine)))\<rparr>"
  have "writable ?d ''example_persist.bin''" by (simp add: writable_def sample_disk_def)
  moreover have "length (save_file (snd (ex_register (ex_plain (StrongId 50) (Generation 1)) (Generation 1) ex_engine)))
    \<le> disk_room ?d" by simp
  ultimately have "example_12 ?d = Inr (''recovered outcome=FOUND_EXACT invariant_ok=1'' @ nl,
     ?d\<lparr>disk_files := (disk_files ?d)(''example_persist.bin'' := None, temp_path ''example_persist.bin'' := None)\<rparr>)"
    using examples_print by blast
  moreover have "(disk_files ?d)(''example_persist.bin'' := None, temp_path ''example_persist.bin'' := None) = disk_files ?d"
    by (simp add: sample_disk_def fun_eq_iff)
  ultimately show ?thesis by (intro exI [of _ "disk_room ?d"]) simp
qed

end
